(* ===== verification/Prelude.thy ===== *)
theory Prelude
  imports Main "HOL-Library.Word" "HOL-Library.Finite_Map" "HOL-Library.Sublist"
    "HOL-Library.Char_ord" "HOL-Library.Product_Lexorder"
begin

text \<open>
  Shared vocabulary of the development: Go's nil-able string maps, the string functions of
  package strings, 64-bit integers, namespaced names, the result of a reconcile call and the
  error kinds of the Kubernetes API. The collection \<open>edge_simps\<close> holds the
  rewrite rules on maps and metadata that every component proof uses.
\<close>

named_theorems edge_simps

section \<open>Machine integers\<close>

text \<open>Go's int64: 64-bit two's complement; \<open>+\<close> and \<open>-\<close> wrap, comparisons are on \<open>sint\<close>.\<close>

type_synonym int64 = "64 word"

abbreviation int64_max :: int where
  "int64_max \<equiv> 9223372036854775807"

abbreviation int64_min :: int where
  "int64_min \<equiv> - 9223372036854775808"

abbreviation in_int64 :: "int \<Rightarrow> bool" where
  "in_int64 i \<equiv> int64_min \<le> i \<and> i \<le> int64_max"

declare of_int_sint [simp del]

lemma word_of_int_sint_id [simp]: "(word_of_int (sint w) :: int64) = w"
  by (simp add: of_int_sint)

lemma sint_int64 [simp]: "in_int64 i \<Longrightarrow> sint (word_of_int i :: int64) = i"
  unfolding sint_sbintrunc' by (rule signed_take_bit_int_eq_self) simp_all

lemma sint_int64_of_nat: "i \<le> 9223372036854775807 \<Longrightarrow> sint (of_nat i :: int64) = int i"
  using sint_int64 [of "int i"] by simp

lemma sint_int64_bounds: "int64_min \<le> sint (w :: int64) \<and> sint w \<le> int64_max"
  using sint_greater_eq [of w] sint_less [of w] by simp

lemma int64_sint_eqI: "sint (v :: int64) = sint w \<Longrightarrow> v = w"
  by (simp add: signed_word_eqI)

lemma sint_int64_diff:
  "in_int64 (sint (v :: int64) - sint w) \<Longrightarrow> sint (v - w) = sint v - sint w"
  using sint_int64 [of "sint v - sint w"] by simp

lemma sint_int64_add:
  "in_int64 (sint (v :: int64) + sint w) \<Longrightarrow> sint (v + w) = sint v + sint w"
  using sint_int64 [of "sint v + sint w"] by simp

section \<open>String maps that may be nil\<close>

text \<open>
  \<open>map[string]string\<close> of Go: \<open>None\<close> is the nil map. Reading a nil map or a missing key gives
  the zero value; \<open>mput\<close> is the idiom of the code that makes the map before it assigns.
\<close>

type_synonym smap = "(string, string) fmap"
type_synonym gomap = "smap option"

definition mlookup :: "gomap \<Rightarrow> string \<Rightarrow> string option" where
  "mlookup m k = (case m of None \<Rightarrow> None | Some f \<Rightarrow> fmlookup f k)"

definition mget :: "gomap \<Rightarrow> string \<Rightarrow> string" where
  "mget m k = (case mlookup m k of None \<Rightarrow> [] | Some v \<Rightarrow> v)"

definition mmake :: "gomap \<Rightarrow> smap" where
  "mmake m = (case m of None \<Rightarrow> fmempty | Some f \<Rightarrow> f)"

definition mput :: "string \<Rightarrow> string \<Rightarrow> gomap \<Rightarrow> gomap" where
  "mput k v m = Some (fmupd k v (mmake m))"

lemma mlookup_None [simp]: "mlookup None k = None"
  by (simp add: mlookup_def)

lemma mlookup_Some [simp]: "mlookup (Some f) k = fmlookup f k"
  by (simp add: mlookup_def)

lemma mlookup_mput [simp]: "mlookup (mput k v m) k' = (if k' = k then Some v else mlookup m k')"
  by (auto simp: mput_def mmake_def split: option.split)

lemma mget_mput [simp]: "mget (mput k v m) k' = (if k' = k then v else mget m k')"
  by (simp add: mget_def)

lemma mget_None [simp]: "mget None k = []"
  by (simp add: mget_def)

lemma mget_fmupd [simp]: "mget (Some (fmupd k v f)) k' = (if k' = k then v else mget (Some f) k')"
  by (simp add: mget_def)

lemma mget_fmempty [simp]: "mget (Some fmempty) k = []"
  by (simp add: mget_def)

lemma mput_not_None [simp]: "mput k v m \<noteq> None"
  by (simp add: mput_def)

lemma mput_same [simp]: "mput k v (mput k w m) = mput k v m"
  by (simp add: mput_def mmake_def fmap_ext)

lemma mput_commute: "k \<noteq> k' \<Longrightarrow> mput k v (mput k' v' m) = mput k' v' (mput k v m)"
  by (auto simp: mput_def mmake_def intro!: fmap_ext)

lemma mput_idem: "mlookup m k = Some v \<Longrightarrow> mput k v m = m"
  by (cases m) (auto simp: mput_def mmake_def intro!: fmap_ext)

lemma gomap_eqI: "(m = None \<longleftrightarrow> m' = None) \<Longrightarrow> (\<And>k. mlookup m k = mlookup m' k) \<Longrightarrow> m = m'"
  by (cases m; cases m') (auto intro: fmap_ext)

lemma mmake_smap [simp]: "mlookup (Some (mmake m)) k = mlookup m k"
  by (cases m) (simp_all add: mmake_def)

section \<open>Strings\<close>

text \<open>\<open>strings.HasPrefix\<close>, \<open>HasSuffix\<close>, \<open>TrimPrefix\<close>, \<open>TrimSuffix\<close>, \<open>ToLower\<close> (ASCII) and \<open>LastIndex\<close>.\<close>

definition has_prefix :: "string \<Rightarrow> string \<Rightarrow> bool" where
  "has_prefix s p \<longleftrightarrow> take (length p) s = p"

definition has_suffix :: "string \<Rightarrow> string \<Rightarrow> bool" where
  "has_suffix s p \<longleftrightarrow> length p \<le> length s \<and> drop (length s - length p) s = p"

definition trim_prefix :: "string \<Rightarrow> string \<Rightarrow> string" where
  "trim_prefix s p = (if has_prefix s p then drop (length p) s else s)"

definition trim_suffix :: "string \<Rightarrow> string \<Rightarrow> string" where
  "trim_suffix s p = (if has_suffix s p then take (length s - length p) s else s)"

definition to_lower_char :: "char \<Rightarrow> char" where
  "to_lower_char c = (let n = (of_char c :: nat) in if 65 \<le> n \<and> n \<le> 90 then char_of (n + 32) else c)"

definition to_lower :: "string \<Rightarrow> string" where
  "to_lower s = map to_lower_char s"

fun last_index_char :: "char \<Rightarrow> string \<Rightarrow> int" where
  "last_index_char c [] = - 1"
| "last_index_char c (x # xs) =
     (let i = last_index_char c xs in if i \<ge> 0 then i + 1 else if x = c then 0 else - 1)"

text \<open>\<open>strings.Split(s, sep)\<close> for a one-character separator, and \<open>strings.Join\<close>.\<close>

fun split_char :: "char \<Rightarrow> string \<Rightarrow> string list" where
  "split_char c [] = [[]]"
| "split_char c (x # xs) =
     (if x = c then [] # split_char c xs
      else case split_char c xs of [] \<Rightarrow> [[x]] | w # ws \<Rightarrow> (x # w) # ws)"

fun join_str :: "string \<Rightarrow> string list \<Rightarrow> string" where
  "join_str sep [] = []"
| "join_str sep [w] = w"
| "join_str sep (w # ws) = w @ sep @ join_str sep ws"

lemma has_prefix_append [simp]: "has_prefix (p @ s) p"
  by (simp add: has_prefix_def)

lemma has_suffix_append [simp]: "has_suffix (s @ p) p"
  by (simp add: has_suffix_def)

lemma has_suffixE:
  assumes "has_suffix s p"
  obtains t where "s = t @ p"
  using assms by (metis append_take_drop_id has_suffix_def)

lemma trim_suffix_append [simp]: "trim_suffix (s @ p) p = s"
  by (simp add: trim_suffix_def)

lemma trim_prefix_append [simp]: "trim_prefix (p @ s) p = s"
  by (simp add: trim_prefix_def)

lemma last_index_char_neg_iff: "last_index_char c s < 0 \<longleftrightarrow> c \<notin> set s"
  by (induction s) (auto simp: Let_def)

lemma last_index_char_notin [simp]: "c \<notin> set s \<Longrightarrow> last_index_char c s = - 1"
  by (induction s) auto

lemma split_char_not_Nil [simp]: "split_char c s \<noteq> []"
  by (cases s) (auto split: list.split)

lemma split_char_no_sep: "w \<in> set (split_char c s) \<Longrightarrow> c \<notin> set w"
  by (induction s arbitrary: w) (auto split: if_splits list.splits)

lemma join_split_char: "join_str [c] (split_char c s) = s"
proof (induction s)
  case (Cons x xs)
  then show ?case
    by (cases "split_char c xs"; cases "tl (split_char c xs)") (auto split: list.splits)
qed simp

lemma split_char_single: "c \<notin> set w \<Longrightarrow> split_char c w = [w]"
  by (induction w) auto

lemma split_char_append:
  "c \<notin> set w \<Longrightarrow> split_char c (w @ c # s) = w # split_char c s"
  by (induction w) (auto split: list.split)

lemma split_join_char:
  assumes "ws \<noteq> []" and "\<And>w. w \<in> set ws \<Longrightarrow> c \<notin> set w"
  shows "split_char c (join_str [c] ws) = ws"
  using assms
proof (induction "[c]" ws rule: join_str.induct)
  case (3 w v vs)
  then show ?case by (simp add: split_char_append)
qed (auto simp: split_char_single)

section \<open>Namespaced names\<close>

text \<open>\<open>types.NamespacedName\<close> and its \<open>String\<close> method, which builds the keys of the store and of the usage maps.\<close>

record nsname =
  ns_namespace :: string
  ns_name :: string

definition nsname_str :: "nsname \<Rightarrow> string" where
  "nsname_str n = ns_namespace n @ ''/'' @ ns_name n"

lemma append_sep_inject:
  "c \<notin> set xs \<Longrightarrow> c \<notin> set xs' \<Longrightarrow> xs @ c # ys = xs' @ c # ys' \<Longrightarrow> xs = xs' \<and> ys = ys'"
  by (induction xs arbitrary: xs') (auto simp: Cons_eq_append_conv append_eq_Cons_conv)

lemma nsname_str_inject:
  assumes "CHR ''/'' \<notin> set (ns_namespace a)" and "CHR ''/'' \<notin> set (ns_namespace b)"
    and "nsname_str a = nsname_str b"
  shows "a = b"
  using append_sep_inject [OF assms(1,2)] assms(3)
  by (simp add: nsname_str_def)

section \<open>Results and errors\<close>

text \<open>A call that may panic: an out-of-range slice, a nil map written, a nil pointer read.\<close>

datatype 'a go = Panicked string | Done 'a

fun bind_go :: "'a go \<Rightarrow> ('a \<Rightarrow> 'b go) \<Rightarrow> 'b go" where
  "bind_go (Panicked e) f = Panicked e"
| "bind_go (Done x) f = f x"

lemma bind_go_Done_iff: "bind_go x f = Done z \<longleftrightarrow> (\<exists>y. x = Done y \<and> f y = Done z)"
  by (cases x) simp_all

lemma bind_go_cong [fundef_cong]:
  "x = x' \<Longrightarrow> (\<And>y. x' = Done y \<Longrightarrow> f y = f' y) \<Longrightarrow> bind_go x f = bind_go x' f'"
  by (cases x) auto

text \<open>\<open>ctrl.Result\<close>; durations are in nanoseconds.\<close>

record ctrl_result =
  requeue :: bool
  requeue_after :: int

definition result_zero :: ctrl_result where
  "result_zero = \<lparr>requeue = False, requeue_after = 0\<rparr>"

abbreviation second :: int where
  "second \<equiv> 1000000000"

definition requeue_now :: ctrl_result where
  "requeue_now = \<lparr>requeue = True, requeue_after = 0\<rparr>"

definition requeue_in :: "int \<Rightarrow> ctrl_result" where
  "requeue_in d = \<lparr>requeue = False, requeue_after = d\<rparr>"

text \<open>The error kinds the code distinguishes with \<open>apierrors.IsNotFound\<close> and its kin.\<close>

datatype api_error = NotFound | Conflict | AlreadyExists | OtherError string

lemma ctrl_result_simps [simp]:
  "requeue result_zero = False" "requeue_after result_zero = 0"
  "requeue requeue_now = True" "requeue_after requeue_now = 0"
  "requeue (requeue_in d) = False" "requeue_after (requeue_in d) = d"
  by (simp_all add: result_zero_def requeue_now_def requeue_in_def)

end
