(* ===== verification/GoStrconv.thy ===== *)
theory GoStrconv
  imports Prelude
begin

text \<open>
  What the program uses of Go's strconv and fmt on integers: \<open>strconv.ParseInt(s, 10, 64)\<close>
  with both of its errors, \<open>fmt.Sprint\<close> of an int64 and \<open>fmt.Sprintf\<close> with the verb
  \<open>%05d\<close>. The value ParseInt returns together with an error matters: callers of this
  repository read it.
\<close>

section \<open>Decimal digits\<close>

definition is_digit :: "char \<Rightarrow> bool" where
  "is_digit c \<longleftrightarrow> 48 \<le> (of_char c :: nat) \<and> (of_char c :: nat) \<le> 57"

definition digit_val :: "char \<Rightarrow> nat" where
  "digit_val c = of_char c - 48"

definition digit_char :: "nat \<Rightarrow> char" where
  "digit_char d = char_of (48 + d)"

lemma of_char_digit_char: "d < 10 \<Longrightarrow> of_char (digit_char d) = (48 + d :: nat)"
  by (simp add: digit_char_def)

lemma is_digit_digit_char [simp]: "d < 10 \<Longrightarrow> is_digit (digit_char d)"
  by (simp add: is_digit_def of_char_digit_char)

lemma digit_val_digit_char [simp]: "d < 10 \<Longrightarrow> digit_val (digit_char d) = d"
  by (simp add: digit_val_def of_char_digit_char)

lemma digit_val_less: "is_digit c \<Longrightarrow> digit_val c < 10"
  unfolding is_digit_def digit_val_def by linarith

section \<open>fmt.Sprint and %05d\<close>

fun show_nat :: "nat \<Rightarrow> string" where
  "show_nat n = (if n < 10 then [digit_char n] else show_nat (n div 10) @ [digit_char (n mod 10)])"

declare show_nat.simps [simp del]

definition show_int :: "int \<Rightarrow> string" where
  "show_int i = (if i < 0 then CHR ''-'' # show_nat (nat (- i)) else show_nat (nat i))"

definition sprint_int64 :: "int64 \<Rightarrow> string" where
  "sprint_int64 w = show_int (sint w)"

text \<open>\<open>%05d\<close>: zeros between the sign and the digits up to a width of five, the sign included.\<close>

definition pad_zeros :: "nat \<Rightarrow> string \<Rightarrow> string" where
  "pad_zeros w s = replicate (w - length s) (CHR ''0'') @ s"

definition show_05d :: "int \<Rightarrow> string" where
  "show_05d i =
     (if i < 0 then CHR ''-'' # pad_zeros 4 (show_nat (nat (- i))) else pad_zeros 5 (show_nat (nat i)))"

lemma show_nat_not_Nil [simp]: "show_nat n \<noteq> []"
  by (subst show_nat.simps) simp

lemma show_nat_digits: "c \<in> set (show_nat n) \<Longrightarrow> is_digit c"
  by (induction n rule: show_nat.induct) (subst (asm) (2) show_nat.simps, auto split: if_splits)

section \<open>strconv.ParseInt(s, 10, 64)\<close>

datatype num_error = ErrSyntax | ErrRange

text \<open>
  The loop of \<open>strconv.ParseUint\<close>. It stops at the first overflow, so a range error wins over
  a bad character that comes later. \<open>1844674407370955162\<close> is \<open>maxUint64/10 + 1\<close>.
\<close>

fun parse_uint_loop :: "string \<Rightarrow> nat \<Rightarrow> nat \<times> num_error option" where
  "parse_uint_loop [] n = (n, None)"
| "parse_uint_loop (c # cs) n =
     (if \<not> is_digit c then (0, Some ErrSyntax)
      else if 1844674407370955162 \<le> n then (18446744073709551615, Some ErrRange)
      else let n1 = 10 * n + digit_val c in
        if 18446744073709551615 < n1 then (18446744073709551615, Some ErrRange)
        else parse_uint_loop cs n1)"

definition parse_uint :: "string \<Rightarrow> nat \<times> num_error option" where
  "parse_uint s = (if s = [] then (0, Some ErrSyntax) else parse_uint_loop s 0)"

definition parse_int :: "string \<Rightarrow> int \<times> num_error option" where
  "parse_int s =
     (if s = [] then (0, Some ErrSyntax)
      else
        let neg = (hd s = CHR ''-'');
            body = (if hd s = CHR ''-'' \<or> hd s = CHR ''+'' then tl s else s)
        in case parse_uint body of (un, err) \<Rightarrow>
          if err = Some ErrSyntax then (0, Some ErrSyntax)
          else if \<not> neg \<and> 9223372036854775808 \<le> un then (int64_max, Some ErrRange)
          else if neg \<and> 9223372036854775808 < un then (int64_min, Some ErrRange)
          else (if neg then - int un else int un, None))"

text \<open>The digits of a number are read back: the accumulator moves one digit at a time.\<close>

lemma parse_uint_loop_append:
  "parse_uint_loop xs n = (m, None) \<Longrightarrow> parse_uint_loop (xs @ ys) n = parse_uint_loop ys m"
  by (induction xs n rule: parse_uint_loop.induct) (auto simp: Let_def split: if_splits)

lemma parse_uint_loop_show:
  "n \<le> 18446744073709551615 \<Longrightarrow> parse_uint_loop (show_nat n) 0 = (n, None)"
proof (induction n rule: show_nat.induct)
  case (1 n)
  show ?case
  proof (cases "n < 10")
    case True
    then show ?thesis by (subst show_nat.simps) simp
  next
    case False
    have "parse_uint_loop (show_nat (n div 10)) 0 = (n div 10, None)"
      using "1.IH" [OF False] "1.prems" by simp
    moreover have "n div 10 < 1844674407370955162" and "10 * (n div 10) + n mod 10 = n"
      using "1.prems" by simp_all
    ultimately show ?thesis
      using False "1.prems"
      by (subst show_nat.simps) (simp add: parse_uint_loop_append)
  qed
qed

lemma parse_uint_show: "n \<le> 18446744073709551615 \<Longrightarrow> parse_uint (show_nat n) = (n, None)"
  by (simp add: parse_uint_def parse_uint_loop_show)

lemma hd_show_nat_digit: "is_digit (hd (show_nat n))"
  by (rule show_nat_digits [of _ n]) simp

lemma hd_show_nat_no_sign: "hd (show_nat n) \<noteq> CHR ''-''" "hd (show_nat n) \<noteq> CHR ''+''"
  using hd_show_nat_digit [of n] by (auto simp: is_digit_def)

lemma parse_show_int: "in_int64 i \<Longrightarrow> parse_int (show_int i) = (i, None)"
  by (auto simp: parse_int_def show_int_def parse_uint_show hd_show_nat_no_sign)

lemma sprint_int64_not_Nil [simp]: "sprint_int64 w \<noteq> []" "[] \<noteq> sprint_int64 w"
  by (simp_all add: sprint_int64_def show_int_def) (metis show_nat_not_Nil)

lemma parse_sprint_int64: "parse_int (sprint_int64 w) = (sint w, None)"
  using sint_int64_bounds [of w] by (simp add: sprint_int64_def parse_show_int)

lemma parse_int_Nil [simp]: "parse_int [] = (0, Some ErrSyntax)"
  by (simp add: parse_int_def)

text \<open>Whatever the text, the value fits an int64; with a syntax error it is 0, with a range error an extreme.\<close>

lemma parse_int_in_int64: "in_int64 (fst (parse_int s))"
  by (auto simp: parse_int_def Let_def split: prod.split)

lemma parse_int_syntax: "snd (parse_int s) = Some ErrSyntax \<Longrightarrow> fst (parse_int s) = 0"
  by (auto simp: parse_int_def Let_def split: prod.splits if_splits)

lemma parse_int_range:
  "snd (parse_int s) = Some ErrRange \<Longrightarrow> fst (parse_int s) = int64_max \<or> fst (parse_int s) = int64_min"
  by (auto simp: parse_int_def Let_def split: prod.splits if_splits)

lemma show_int_inject: "in_int64 i \<Longrightarrow> in_int64 j \<Longrightarrow> show_int i = show_int j \<Longrightarrow> i = j"
  by (metis parse_show_int fst_conv)

end
