(* ===== verification/KubeModel.thy ===== *)
theory KubeModel
  imports Prelude GoStrconv
begin

text \<open>
  The Kubernetes and Knative objects the controllers read and write, and the client they use.
  A field the code touches is a field of the record; the rest of a struct, which the code only
  copies and compares, is kept in an \<open>other\<close> field. Slices and maps that the code compares
  with \<open>reflect.DeepEqual\<close> or tests against nil are options, \<open>None\<close> being nil, so that
  DeepEqual on objects is equality of records. The API server is the argument of type
  \<open>kclient\<close> of the definitions that call it.
\<close>

section \<open>Names of labels and annotations (pkg/controllers/constants.go)\<close>

definition SystemNamespace :: string where "SystemNamespace = ''knative-edge-system''"
definition EnvironmentLabel :: string where "EnvironmentLabel = ''edge.jevv.dev/environment''"
definition ManagedLabel :: string where "ManagedLabel = ''edge.jevv.dev/managed''"
definition EdgeLocalLabel :: string where "EdgeLocalLabel = ''edge.jevv.dev/local''"
definition EdgeTagLabel :: string where "EdgeTagLabel = ''edge.jevv.dev/tag''"
definition ManagedByLabel :: string where "ManagedByLabel = ''edge.jevv.dev/managed-by''"
definition CreatedByLabel :: string where "CreatedByLabel = ''edge.jevv.dev/created-by''"
definition EdgeOffloadLabel :: string where "EdgeOffloadLabel = ''edge.jevv.dev/edge-offload''"
definition KServiceLabel :: string where "KServiceLabel = ''serving.knative.dev/service''"
definition AppLabel :: string where "AppLabel = ''app''"
definition ServiceLabel :: string where "ServiceLabel = ''service''"
definition ControllerLabel :: string where "ControllerLabel = ''controller''"
definition EdgeFixedTrafficAnnotation :: string where
  "EdgeFixedTrafficAnnotation = ''edge.jevv.dev/edge-offload-fixed-traffic''"
definition EdgeProxyTrafficAnnotation :: string where
  "EdgeProxyTrafficAnnotation = ''edge.jevv.dev/edge-proxy-traffic''"
definition ObservedGenerationAnnotation :: string where
  "ObservedGenerationAnnotation = ''edge.jevv.dev/observed-generation''"
definition ProxyImageAnnotation :: string where
  "ProxyImageAnnotation = ''edge.jevv.dev/proxy-image''"
definition ControllerImageAnnotation :: string where
  "ControllerImageAnnotation = ''edge.jevv.dev/controller-image''"
definition LastGenerationAnnotation :: string where
  "LastGenerationAnnotation = ''edge.jevv.dev/last-observed-generation''"
definition LastRemoteGenerationAnnotation :: string where
  "LastRemoteGenerationAnnotation = ''edge.jevv.dev/last-observed-remote-generation''"
definition RemoteUrlAnnotation :: string where
  "RemoteUrlAnnotation = ''edge.jevv.dev/remote-url''"
definition RemoteHostAnnotation :: string where
  "RemoteHostAnnotation = ''edge.jevv.dev/remote-host''"

lemmas constant_defs = SystemNamespace_def EnvironmentLabel_def ManagedLabel_def EdgeLocalLabel_def
  EdgeTagLabel_def ManagedByLabel_def CreatedByLabel_def EdgeOffloadLabel_def KServiceLabel_def
  AppLabel_def ServiceLabel_def ControllerLabel_def EdgeFixedTrafficAnnotation_def
  EdgeProxyTrafficAnnotation_def ObservedGenerationAnnotation_def ProxyImageAnnotation_def
  ControllerImageAnnotation_def LastGenerationAnnotation_def LastRemoteGenerationAnnotation_def
  RemoteUrlAnnotation_def RemoteHostAnnotation_def

lemma constants_distinct [simp]:
  "LastGenerationAnnotation \<noteq> LastRemoteGenerationAnnotation"
  "LastRemoteGenerationAnnotation \<noteq> LastGenerationAnnotation"
  "LastGenerationAnnotation \<noteq> EdgeProxyTrafficAnnotation"
  "EdgeProxyTrafficAnnotation \<noteq> LastGenerationAnnotation"
  "LastRemoteGenerationAnnotation \<noteq> EdgeProxyTrafficAnnotation"
  "EdgeProxyTrafficAnnotation \<noteq> LastRemoteGenerationAnnotation"
  "RemoteUrlAnnotation \<noteq> RemoteHostAnnotation" "RemoteHostAnnotation \<noteq> RemoteUrlAnnotation"
  "LastGenerationAnnotation \<noteq> RemoteUrlAnnotation" "RemoteUrlAnnotation \<noteq> LastGenerationAnnotation"
  "LastGenerationAnnotation \<noteq> RemoteHostAnnotation" "RemoteHostAnnotation \<noteq> LastGenerationAnnotation"
  "LastRemoteGenerationAnnotation \<noteq> RemoteUrlAnnotation" "RemoteUrlAnnotation \<noteq> LastRemoteGenerationAnnotation"
  "LastRemoteGenerationAnnotation \<noteq> RemoteHostAnnotation" "RemoteHostAnnotation \<noteq> LastRemoteGenerationAnnotation"
  "EdgeProxyTrafficAnnotation \<noteq> RemoteUrlAnnotation" "RemoteUrlAnnotation \<noteq> EdgeProxyTrafficAnnotation"
  "EdgeProxyTrafficAnnotation \<noteq> RemoteHostAnnotation" "RemoteHostAnnotation \<noteq> EdgeProxyTrafficAnnotation"
  "EdgeProxyTrafficAnnotation \<noteq> EdgeFixedTrafficAnnotation" "EdgeFixedTrafficAnnotation \<noteq> EdgeProxyTrafficAnnotation"
  "EdgeFixedTrafficAnnotation \<noteq> LastGenerationAnnotation" "LastGenerationAnnotation \<noteq> EdgeFixedTrafficAnnotation"
  "EdgeFixedTrafficAnnotation \<noteq> LastRemoteGenerationAnnotation" "LastRemoteGenerationAnnotation \<noteq> EdgeFixedTrafficAnnotation"
  "EdgeLocalLabel \<noteq> ManagedLabel" "ManagedLabel \<noteq> EdgeLocalLabel"
  "EnvironmentLabel \<noteq> EdgeOffloadLabel" "EdgeOffloadLabel \<noteq> EnvironmentLabel"
  "AppLabel \<noteq> EnvironmentLabel" "ManagedLabel \<noteq> EnvironmentLabel"
  "ManagedByLabel \<noteq> EnvironmentLabel" "CreatedByLabel \<noteq> EnvironmentLabel"
  "AppLabel \<noteq> EdgeOffloadLabel" "ManagedLabel \<noteq> EdgeOffloadLabel"
  "ManagedByLabel \<noteq> EdgeOffloadLabel" "CreatedByLabel \<noteq> EdgeOffloadLabel"
  "AppLabel \<noteq> ManagedLabel" "ManagedLabel \<noteq> AppLabel"
  "ManagedByLabel \<noteq> ManagedLabel" "CreatedByLabel \<noteq> ManagedLabel"
  "ManagedLabel \<noteq> ManagedByLabel" "ManagedLabel \<noteq> CreatedByLabel"
  "CreatedByLabel \<noteq> ManagedByLabel" "ManagedByLabel \<noteq> CreatedByLabel"
  "AppLabel \<noteq> ManagedByLabel" "ManagedByLabel \<noteq> AppLabel"
  "AppLabel \<noteq> CreatedByLabel" "CreatedByLabel \<noteq> AppLabel"
  by (simp_all add: constant_defs)

section \<open>Objects\<close>

record object_meta =
  om_name :: string
  om_namespace :: string
  om_resource_version :: string
  om_generation :: int64
  om_deletion :: "int option"
  om_labels :: gomap
  om_annotations :: gomap
  om_other :: string

definition meta_zero :: object_meta where
  "meta_zero = \<lparr>om_name = [], om_namespace = [], om_resource_version = [], om_generation = 0,
     om_deletion = None, om_labels = None, om_annotations = None, om_other = []\<rparr>"

definition meta_nsname :: "object_meta \<Rightarrow> nsname" where
  "meta_nsname m = \<lparr>ns_namespace = om_namespace m, ns_name = om_name m\<rparr>"

text \<open>The pod template of a Knative service or configuration.\<close>

record env_var =
  ev_name :: string
  ev_value :: string

record container =
  ct_name :: string
  ct_image :: string
  ct_env :: "env_var list option"
  ct_other :: string

definition container_zero :: container where
  "container_zero = \<lparr>ct_name = [], ct_image = [], ct_env = None, ct_other = []\<rparr>"

record revision_template =
  rt_labels :: gomap
  rt_annotations :: gomap
  rt_containers :: "container list option"
  rt_concurrency :: "int64 option"
  rt_other :: string

definition template_zero :: revision_template where
  "template_zero = \<lparr>rt_labels = None, rt_annotations = None, rt_containers = None,
     rt_concurrency = None, rt_other = []\<rparr>"

text \<open>\<open>servingv1.TrafficTarget\<close>, \<open>servingv1.Service\<close> and \<open>servingv1.Configuration\<close>.\<close>

record traffic_target =
  tt_tag :: string
  tt_revision_name :: string
  tt_latest_revision :: "bool option"
  tt_percent :: "int64 option"
  tt_other :: string

definition target_zero :: traffic_target where
  "target_zero = \<lparr>tt_tag = [], tt_revision_name = [], tt_latest_revision = None,
     tt_percent = None, tt_other = []\<rparr>"

record service =
  svc_meta :: object_meta
  svc_template :: revision_template
  svc_traffic :: "traffic_target list option"
  svc_url_host :: "string option"
  svc_other :: string

definition service_zero :: service where
  "service_zero = \<lparr>svc_meta = meta_zero, svc_template = template_zero, svc_traffic = None,
     svc_url_host = None, svc_other = []\<rparr>"

record configuration =
  cfg_meta :: object_meta
  cfg_template :: revision_template
  cfg_latest_ready :: string
  cfg_other :: string

definition configuration_zero :: configuration where
  "configuration_zero = \<lparr>cfg_meta = meta_zero, cfg_template = template_zero,
     cfg_latest_ready = [], cfg_other = []\<rparr>"

definition service_nsname :: "service \<Rightarrow> nsname" where
  "service_nsname s = meta_nsname (svc_meta s)"

text \<open>Ranging over a nil slice is ranging over an empty one.\<close>

definition elems :: "'a list option \<Rightarrow> 'a list" where
  "elems xs = (case xs of None \<Rightarrow> [] | Some ys \<Rightarrow> ys)"

lemma elems_simps [simp]: "elems None = []" "elems (Some ys) = ys"
  by (simp_all add: elems_def)

section \<open>The client\<close>

text \<open>
  \<open>client.Client\<close> of controller-runtime for one kind of object. The state \<open>'w\<close> stands for
  everything behind the API server; a read leaves it alone, a write returns the new state with
  either the error or the object as the server has stored it.
\<close>

record ('o, 'w) kclient =
  kc_get :: "nsname \<Rightarrow> 'w \<Rightarrow> api_error + 'o"
  kc_create :: "'o \<Rightarrow> 'w \<Rightarrow> (api_error + 'o) \<times> 'w"
  kc_update :: "'o \<Rightarrow> 'w \<Rightarrow> (api_error + 'o) \<times> 'w"
  kc_delete :: "'o \<Rightarrow> 'w \<Rightarrow> api_error option \<times> 'w"

end
