(* ===== verification/ControllerUtils.thy ===== *)
theory ControllerUtils
  imports KubeModel
begin

text \<open>
  pkg/controllers/utils: the annotations and labels that mark mirrored objects
  (annotations.go), and the names, tags and traffic targets of the edge proxy (controllers.go).
\<close>

section \<open>annotations.go\<close>

definition UpdateLastGenerationAnnotation :: "object_meta \<Rightarrow> object_meta" where
  "UpdateLastGenerationAnnotation kind =
     kind\<lparr>om_annotations :=
       mput LastGenerationAnnotation (om_resource_version kind) (om_annotations kind)\<rparr>"

definition UpdateLastRemoteGenerationAnnotation :: "object_meta \<Rightarrow> object_meta \<Rightarrow> object_meta" where
  "UpdateLastRemoteGenerationAnnotation localKind remoteKind =
     localKind\<lparr>om_annotations :=
       mput LastRemoteGenerationAnnotation (om_resource_version remoteKind) (om_annotations localKind)\<rparr>"

definition UpdateLabels :: "object_meta \<Rightarrow> object_meta" where
  "UpdateLabels object =
     object\<lparr>om_labels :=
       mput CreatedByLabel ''knative-edge-controller''
         (mput ManagedByLabel ''knative-edge''
           (mput ManagedLabel ''true''
             (mput AppLabel ''knative-edge'' (om_labels object))))\<rparr>"

section \<open>controllers.go\<close>

definition EdgeProxySuffix :: string where "EdgeProxySuffix = ''-edge-proxy''"
definition EdgeProxyPreffix :: string where "EdgeProxyPreffix = ''edge-proxy-''"

definition IsEdgeProxyConfiguration :: "object_meta option \<Rightarrow> bool" where
  "IsEdgeProxyConfiguration object =
     (case object of None \<Rightarrow> False | Some m \<Rightarrow> has_suffix (om_name m) EdgeProxySuffix)"

text \<open>The slice up to index \<open>strings.LastIndex(name, "-")\<close> panics when that index is -1.\<close>

definition IsEdgeProxyRevisionName :: "string \<Rightarrow> bool go" where
  "IsEdgeProxyRevisionName name =
     (if length name < 6 \<or> CHR ''-'' \<in> set name then Done False
      else let i = last_index_char (CHR ''-'') name in
        if i < 0 then Panicked ''slice bounds out of range''
        else Done (has_suffix (take (nat i) name) EdgeProxySuffix))"

definition GetConfigurationNamespacedName :: "nsname \<Rightarrow> nsname" where
  "GetConfigurationNamespacedName n = n\<lparr>ns_name := ns_name n @ EdgeProxySuffix\<rparr>"

definition GetServiceNameFromConfiguration :: "configuration \<Rightarrow> string" where
  "GetServiceNameFromConfiguration c =
     (let name = om_name (cfg_meta c) in
      if \<not> has_suffix name EdgeProxySuffix then [] else trim_suffix name EdgeProxySuffix)"

text \<open>The pointer returned by the two lookups points to a copy: changing it leaves the service alone.\<close>

definition is_proxy_target :: "traffic_target \<Rightarrow> bool" where
  "is_proxy_target t \<longleftrightarrow> has_prefix (tt_tag t) EdgeProxyPreffix"

definition GetEdgeProxyTarget :: "service option \<Rightarrow> traffic_target option" where
  "GetEdgeProxyTarget service =
     (case service of None \<Rightarrow> None | Some s \<Rightarrow> find is_proxy_target (elems (svc_traffic s)))"

definition RemoveEdgeProxyTarget :: "service option \<Rightarrow> bool \<times> service option" where
  "RemoveEdgeProxyTarget service =
     (case service of
        None \<Rightarrow> (False, None)
      | Some s \<Rightarrow>
          let ts = elems (svc_traffic s) in
          (list_ex is_proxy_target ts,
           Some (s\<lparr>svc_traffic := Some (filter (\<lambda>t. \<not> is_proxy_target t) ts)\<rparr>)))"

definition GetLatestRevisionTarget :: "service option \<Rightarrow> traffic_target option" where
  "GetLatestRevisionTarget service =
     (case service of None \<Rightarrow> None
      | Some s \<Rightarrow> find (\<lambda>t. tt_latest_revision t = Some True) (elems (svc_traffic s)))"

text \<open>The second \<open>TrimPrefix\<close> has its arguments in the order of the source.\<close>

definition GetConfigurationGenerationFromTarget :: "traffic_target option \<Rightarrow> string" where
  "GetConfigurationGenerationFromTarget target =
     (case target of None \<Rightarrow> []
      | Some t \<Rightarrow>
          let generation = trim_prefix (tt_tag t) EdgeProxyPreffix in trim_prefix ''0'' generation)"

definition GetTargetNameFromConfiguration :: "configuration \<Rightarrow> string" where
  "GetTargetNameFromConfiguration c = cfg_latest_ready c"

definition GetTargetTagFromConfiguration :: "configuration option \<Rightarrow> string" where
  "GetTargetTagFromConfiguration c =
     EdgeProxyPreffix @
     show_05d (case c of None \<Rightarrow> - 1 | Some c' \<Rightarrow> sint (om_generation (cfg_meta c')))"

section \<open>Facts\<close>

lemma UpdateLastGenerationAnnotation_simps [edge_simps]:
  "om_name (UpdateLastGenerationAnnotation m) = om_name m"
  "om_namespace (UpdateLastGenerationAnnotation m) = om_namespace m"
  "om_resource_version (UpdateLastGenerationAnnotation m) = om_resource_version m"
  "om_generation (UpdateLastGenerationAnnotation m) = om_generation m"
  "om_deletion (UpdateLastGenerationAnnotation m) = om_deletion m"
  "om_labels (UpdateLastGenerationAnnotation m) = om_labels m"
  "om_other (UpdateLastGenerationAnnotation m) = om_other m"
  "om_annotations (UpdateLastGenerationAnnotation m) =
     mput LastGenerationAnnotation (om_resource_version m) (om_annotations m)"
  by (simp_all add: UpdateLastGenerationAnnotation_def)

lemma UpdateLastRemoteGenerationAnnotation_simps [edge_simps]:
  "om_name (UpdateLastRemoteGenerationAnnotation m r) = om_name m"
  "om_namespace (UpdateLastRemoteGenerationAnnotation m r) = om_namespace m"
  "om_resource_version (UpdateLastRemoteGenerationAnnotation m r) = om_resource_version m"
  "om_generation (UpdateLastRemoteGenerationAnnotation m r) = om_generation m"
  "om_deletion (UpdateLastRemoteGenerationAnnotation m r) = om_deletion m"
  "om_labels (UpdateLastRemoteGenerationAnnotation m r) = om_labels m"
  "om_other (UpdateLastRemoteGenerationAnnotation m r) = om_other m"
  "om_annotations (UpdateLastRemoteGenerationAnnotation m r) =
     mput LastRemoteGenerationAnnotation (om_resource_version r) (om_annotations m)"
  by (simp_all add: UpdateLastRemoteGenerationAnnotation_def)

lemma UpdateLabels_simps [edge_simps]:
  "om_name (UpdateLabels m) = om_name m"
  "om_namespace (UpdateLabels m) = om_namespace m"
  "om_resource_version (UpdateLabels m) = om_resource_version m"
  "om_generation (UpdateLabels m) = om_generation m"
  "om_deletion (UpdateLabels m) = om_deletion m"
  "om_annotations (UpdateLabels m) = om_annotations m"
  "om_other (UpdateLabels m) = om_other m"
  by (simp_all add: UpdateLabels_def)

lemma UpdateLabels_lookup:
  "mlookup (om_labels (UpdateLabels m)) k =
     (if k = CreatedByLabel then Some ''knative-edge-controller''
      else if k = ManagedByLabel then Some ''knative-edge''
      else if k = ManagedLabel then Some ''true''
      else if k = AppLabel then Some ''knative-edge''
      else mlookup (om_labels m) k)"
  by (simp add: UpdateLabels_def)

lemma UpdateLabels_idem: "UpdateLabels (UpdateLabels m) = UpdateLabels m"
proof -
  have "om_labels (UpdateLabels (UpdateLabels m)) = om_labels (UpdateLabels m)"
    by (rule gomap_eqI) (simp_all add: UpdateLabels_lookup, simp_all add: UpdateLabels_def)
  then show ?thesis by (simp add: UpdateLabels_def)
qed

lemma service_name_of_configuration_name:
  assumes "meta_nsname (cfg_meta c) = GetConfigurationNamespacedName n"
  shows "GetServiceNameFromConfiguration c = ns_name n"
  using assms
  by (cases n)
    (simp add: GetServiceNameFromConfiguration_def GetConfigurationNamespacedName_def meta_nsname_def)

lemma find_Some_mem: "find P xs = Some x \<Longrightarrow> x \<in> set xs \<and> P x"
  by (metis find_Some_iff nth_mem)

lemma RemoveEdgeProxyTarget_no_proxy: "GetEdgeProxyTarget (snd (RemoveEdgeProxyTarget s)) = None"
  by (simp add: GetEdgeProxyTarget_def RemoveEdgeProxyTarget_def Let_def find_None_iff split: option.split)

lemma list_ex_find: "list_ex P xs = (find P xs \<noteq> None)"
  by (induction xs) simp_all

lemma RemoveEdgeProxyTarget_flag:
  "fst (RemoveEdgeProxyTarget s) = (GetEdgeProxyTarget s \<noteq> None)"
  by (cases s) (simp_all add: GetEdgeProxyTarget_def RemoveEdgeProxyTarget_def Let_def list_ex_find)

lemma proxy_tag_of_configuration:
  "has_prefix (GetTargetTagFromConfiguration c) EdgeProxyPreffix"
  by (simp add: GetTargetTagFromConfiguration_def)

end
