(* ===== verification/Selectors.thy ===== *)
theory Selectors
  imports ControllerUtils
begin

text \<open>
  Which objects and which events the controllers look at: the label selectors of cache.go,
  predicate.go and runnable.go, the event predicates of predicate.go, the list of environments
  that cmd/controller/main.go reads from its flag, and the two watches of a mirror.
\<close>

section \<open>Label selectors\<close>

text \<open>
  The requirements the code builds, with \<open>LabelSelectorAsSelector\<close>'s validation: operator In
  needs a value, and every value has at most 63 characters, begins and ends with an
  alphanumeric one and has only those, dashes, underscores and dots in between (or is empty).
\<close>

datatype requirement = Exists string | In string "string list"

definition is_alnum :: "char \<Rightarrow> bool" where
  "is_alnum c \<longleftrightarrow> is_digit c \<or> (let n = (of_char (to_lower_char c) :: nat) in 97 \<le> n \<and> n \<le> 122)"

definition valid_label_value :: "string \<Rightarrow> bool" where
  "valid_label_value v \<longleftrightarrow>
     length v \<le> 63 \<and>
     (v = [] \<or>
      (is_alnum (hd v) \<and> is_alnum (last v) \<and>
       list_all (\<lambda>c. is_alnum c \<or> c = CHR ''-'' \<or> c = CHR ''_'' \<or> c = CHR ''.'') v))"

fun valid_requirement :: "requirement \<Rightarrow> bool" where
  "valid_requirement (Exists k) = True"
| "valid_requirement (In k vs) = (vs \<noteq> [] \<and> list_all valid_label_value vs)"

fun requirement_matches :: "requirement \<Rightarrow> gomap \<Rightarrow> bool" where
  "requirement_matches (Exists k) ls = (mlookup ls k \<noteq> None)"
| "requirement_matches (In k vs) ls = (case mlookup ls k of None \<Rightarrow> False | Some v \<Rightarrow> list_ex (\<lambda>x. x = v) vs)"

definition selector_matches :: "requirement list \<Rightarrow> gomap \<Rightarrow> bool" where
  "selector_matches sel ls = list_all (\<lambda>r. requirement_matches r ls) sel"

definition label_selector_as_selector :: "requirement list \<Rightarrow> requirement list option" where
  "label_selector_as_selector rs = (if list_all valid_requirement rs then Some rs else None)"

definition env_requirement :: "string list \<Rightarrow> requirement" where
  "env_requirement envs = (if length envs = 0 then Exists EnvironmentLabel else In EnvironmentLabel envs)"

text \<open>\<open>EnvScopedCache\<close> and \<open>HasEdgeSyncLabelPredicate\<close> panic on an invalid selector, \<open>createListOptions\<close> returns an error.\<close>

definition EnvScopedCache :: "string list \<Rightarrow> requirement list go" where
  "EnvScopedCache envs =
     (case label_selector_as_selector [env_requirement envs] of
        None \<Rightarrow> Panicked ''couldn't create label selector'' | Some sel \<Rightarrow> Done sel)"

record list_options =
  lo_selector :: "requirement list"
  lo_resource_version :: string
  lo_continue :: string

text \<open>The last page of a listing: resource version, continuation token, items.\<close>

record service_list =
  sl_resource_version :: string
  sl_continue :: string
  sl_items :: "service list"

definition createListOptions :: "string list \<Rightarrow> service_list option \<Rightarrow> list_options option" where
  "createListOptions envs services =
     (case label_selector_as_selector [env_requirement envs, In EdgeOffloadLabel [''true'']] of
        None \<Rightarrow> None
      | Some sel \<Rightarrow>
          (case services of
             None \<Rightarrow> Some \<lparr>lo_selector = sel, lo_resource_version = [], lo_continue = []\<rparr>
           | Some s \<Rightarrow> Some \<lparr>lo_selector = sel, lo_resource_version = sl_resource_version s,
                             lo_continue = sl_continue s\<rparr>))"

text \<open>The caches of the local cluster (\<open>ManagedScopedCache\<close>): the selector per kind.\<close>

datatype cached_kind = CachedConfiguration | CachedNode | CachedPod | CachedOther

fun managed_scoped_selector :: "cached_kind \<Rightarrow> requirement list" where
  "managed_scoped_selector CachedConfiguration = [In ManagedLabel [''true''], In EdgeLocalLabel [''true'']]"
| "managed_scoped_selector CachedNode = []"
| "managed_scoped_selector CachedPod = [In EdgeLocalLabel [''true'']]"
| "managed_scoped_selector CachedOther = [In ManagedLabel [''true'']]"

text \<open>\<open>envs := strings.Split(environments, ",")\<close> of cmd/controller/main.go.\<close>

definition main_envs :: "string \<Rightarrow> string list" where
  "main_envs environments = split_char (CHR '','') environments"

section \<open>Events and predicates\<close>

datatype kobject = KService service | KConfiguration configuration | KOther object_meta

fun kobj_meta :: "kobject \<Rightarrow> object_meta" where
  "kobj_meta (KService s) = svc_meta s"
| "kobj_meta (KConfiguration c) = cfg_meta c"
| "kobj_meta (KOther m) = m"

datatype event =
    CreateEvent "kobject option"
  | UpdateEvent "kobject option" "kobject option"
  | DeleteEvent "kobject option"
  | GenericEvent "kobject option"

text \<open>\<open>NotChangedByEdgeControllers\<close>: only Create and Update are overridden, the others accept.\<close>

fun NotChangedByEdgeControllers :: "event \<Rightarrow> bool" where
  "NotChangedByEdgeControllers (CreateEvent None) = False"
| "NotChangedByEdgeControllers (CreateEvent (Some obj)) =
     (case om_annotations (kobj_meta obj) of
        None \<Rightarrow> False
      | Some _ \<Rightarrow> mget (om_annotations (kobj_meta obj)) LastGenerationAnnotation \<noteq> ''0'')"
| "NotChangedByEdgeControllers (UpdateEvent None new) = False"
| "NotChangedByEdgeControllers (UpdateEvent (Some old) None) = False"
| "NotChangedByEdgeControllers (UpdateEvent (Some old) (Some new)) =
     (case om_annotations (kobj_meta new) of
        None \<Rightarrow> False
      | Some _ \<Rightarrow>
          let oldGeneration = om_resource_version (kobj_meta old);
              newGeneration = mget (om_annotations (kobj_meta new)) LastGenerationAnnotation
          in oldGeneration \<noteq> newGeneration)"
| "NotChangedByEdgeControllers (DeleteEvent _) = True"
| "NotChangedByEdgeControllers (GenericEvent _) = True"

definition HasEdgeSyncLabel :: "object_meta \<Rightarrow> string list option \<Rightarrow> bool" where
  "HasEdgeSyncLabel obj envs =
     (case envs of
        None \<Rightarrow> False
      | Some es \<Rightarrow>
          (case om_labels obj of
             None \<Rightarrow> False
           | Some _ \<Rightarrow>
               (case mlookup (om_labels obj) EnvironmentLabel of
                  None \<Rightarrow> False
                | Some value \<Rightarrow> list_ex (\<lambda>env. value = env) es)))"

definition IsManagedObject :: "object_meta \<Rightarrow> bool" where
  "IsManagedObject obj =
     (case om_labels obj of
        None \<Rightarrow> False
      | Some _ \<Rightarrow>
          (case mlookup (om_labels obj) ManagedLabel of None \<Rightarrow> False | Some value \<Rightarrow> value = ''true''))"

text \<open>\<open>predicate.NewPredicateFuncs(IsManagedObject)\<close> looks at the new object; a nil object panics.\<close>

definition managed_filter :: "kobject option \<Rightarrow> bool go" where
  "managed_filter obj =
     (case obj of None \<Rightarrow> Panicked ''nil pointer dereference'' | Some x \<Rightarrow> Done (IsManagedObject (kobj_meta x)))"

fun IsManagedByEdgeControllers :: "event \<Rightarrow> bool go" where
  "IsManagedByEdgeControllers (CreateEvent obj) = managed_filter obj"
| "IsManagedByEdgeControllers (UpdateEvent old new) = managed_filter new"
| "IsManagedByEdgeControllers (DeleteEvent obj) = managed_filter obj"
| "IsManagedByEdgeControllers (GenericEvent obj) = managed_filter obj"

definition env_filter :: "requirement list \<Rightarrow> kobject option \<Rightarrow> bool" where
  "env_filter sel obj =
     (case obj of None \<Rightarrow> False | Some x \<Rightarrow> selector_matches sel (om_labels (kobj_meta x)))"

fun env_predicate :: "requirement list \<Rightarrow> event \<Rightarrow> bool" where
  "env_predicate sel (CreateEvent obj) = env_filter sel obj"
| "env_predicate sel (UpdateEvent old new) = (env_filter sel old \<or> env_filter sel new)"
| "env_predicate sel (DeleteEvent obj) = env_filter sel obj"
| "env_predicate sel (GenericEvent obj) = env_filter sel obj"

definition HasEdgeSyncLabelPredicate :: "string list \<Rightarrow> (event \<Rightarrow> bool) go" where
  "HasEdgeSyncLabelPredicate envs =
     (case label_selector_as_selector [env_requirement envs] of
        None \<Rightarrow> Panicked ''couldn't create label selector predicate''
      | Some sel \<Rightarrow> Done (env_predicate sel))"

fun LatestReadyRevisionChangedPredicate :: "event \<Rightarrow> bool" where
  "LatestReadyRevisionChangedPredicate (UpdateEvent old new) =
     (case old of
        None \<Rightarrow> new \<noteq> None
      | Some (KConfiguration oldC) \<Rightarrow>
          (case new of
             Some (KConfiguration newC) \<Rightarrow> cfg_latest_ready oldC \<noteq> cfg_latest_ready newC
           | _ \<Rightarrow> False)
      | Some _ \<Rightarrow> False)"
| "LatestReadyRevisionChangedPredicate _ = True"

definition haveRemoteResourceLabelsChanged :: "object_meta \<Rightarrow> object_meta \<Rightarrow> bool" where
  "haveRemoteResourceLabelsChanged objectOld objectNew \<longleftrightarrow>
     mget (om_labels objectOld) EnvironmentLabel \<noteq> mget (om_labels objectNew) EnvironmentLabel \<or>
     mget (om_labels objectOld) EdgeOffloadLabel \<noteq> mget (om_labels objectNew) EdgeOffloadLabel"

fun RemoteResourceChangedPredicate :: "event \<Rightarrow> bool" where
  "RemoteResourceChangedPredicate (UpdateEvent None new) = True"
| "RemoteResourceChangedPredicate (UpdateEvent (Some old) None) = False"
| "RemoteResourceChangedPredicate (UpdateEvent (Some old) (Some new)) =
     (if om_generation (kobj_meta old) \<noteq> om_generation (kobj_meta new) then True
      else if haveRemoteResourceLabelsChanged (kobj_meta old) (kobj_meta new) then True
      else False)"
| "RemoteResourceChangedPredicate _ = True"

section \<open>Facts\<close>

lemma main_envs_not_Nil: "main_envs s \<noteq> []"
  by (simp add: main_envs_def)

lemma main_envs_empty_flag: "main_envs [] = [[]]"
  by (simp add: main_envs_def)

lemma HasEdgeSyncLabel_iff:
  "HasEdgeSyncLabel obj envs \<longleftrightarrow>
     (\<exists>es v. envs = Some es \<and> mlookup (om_labels obj) EnvironmentLabel = Some v \<and> v \<in> set es)"
  by (auto simp: HasEdgeSyncLabel_def list_ex_iff split: option.split)

lemma IsManagedObject_iff: "IsManagedObject obj \<longleftrightarrow> mlookup (om_labels obj) ManagedLabel = Some ''true''"
  by (auto simp: IsManagedObject_def split: option.split)

lemma IsManagedObject_UpdateLabels [edge_simps]: "IsManagedObject (UpdateLabels m)"
  by (simp add: IsManagedObject_iff UpdateLabels_lookup)

lemma HasEdgeSyncLabel_UpdateLabels [edge_simps]:
  "HasEdgeSyncLabel (UpdateLabels m) envs = HasEdgeSyncLabel m envs"
  by (simp add: HasEdgeSyncLabel_iff UpdateLabels_lookup constants_distinct [symmetric])

lemma selector_env_iff:
  "envs \<noteq> [] \<Longrightarrow> selector_matches [env_requirement envs] (om_labels m) = HasEdgeSyncLabel m (Some envs)"
  by (auto simp: selector_matches_def env_requirement_def HasEdgeSyncLabel_iff list_ex_iff split: option.split)

lemma selector_env_Nil:
  "selector_matches [env_requirement []] ls = (mlookup ls EnvironmentLabel \<noteq> None)"
  by (simp add: selector_matches_def env_requirement_def)

end
