(* ===== verification/ListServices.thy ===== *)
theory ListServices
  imports Selectors
begin

text \<open>
  \<open>listServices\<close> of pkg/workoffload/runnable.go: a producer that lists the services page by
  page, a consumer that collects the pages, and the caller, joined by unbuffered channels and a
  context. A send and its receive are one step; every other step is one goroutine's. The
  variable \<open>services\<close> of the producer is one cell: what is sent on \<open>listChan\<close> is its address,
  so the consumer only counts the pages and reads the cell at the end. \<open>api\<close> is the API
  server's answer to a list request.
\<close>

section \<open>State and steps\<close>

datatype producer = P_List | P_Send | P_Err string | P_Done
datatype consumer = C_Loop nat | C_Send | C_Done
datatype caller = M_Wait | M_Select | M_Ret "service list" "string option"

record listing =
  ls_producer :: producer
  ls_consumer :: consumer
  ls_caller :: caller
  ls_cancelled :: bool
  ls_last :: bool
  ls_cell :: service_list
  ls_services :: "service list"

definition listing_start :: listing where
  "listing_start = \<lparr>ls_producer = P_List, ls_consumer = C_Loop 0, ls_caller = M_Wait, ls_cancelled = False,
     ls_last = False, ls_cell = \<lparr>sl_resource_version = [], sl_continue = [], sl_items = []\<rparr>, ls_services = []\<rparr>"

text \<open>One round of the producer: the options from the last page, then the request.\<close>

definition next_page ::
  "(list_options \<Rightarrow> string + service_list) \<Rightarrow> string list \<Rightarrow> service_list option \<Rightarrow> string + service_list"
where
  "next_page api envs prev =
     (case createListOptions envs prev of
        None \<Rightarrow> Inl ''couldn't create label selector'' | Some options \<Rightarrow> api options)"

text \<open>The deferred function of the consumer: the items of the cell, once per page.\<close>

definition collected :: "nat \<Rightarrow> service_list \<Rightarrow> service list" where
  "collected n cell = concat (replicate n (sl_items cell))"

inductive list_step ::
  "(list_options \<Rightarrow> string + service_list) \<Rightarrow> string list \<Rightarrow> listing \<Rightarrow> listing \<Rightarrow> bool"
  for api envs
where
  list_page: "ls_producer s = P_List \<Longrightarrow>
    next_page api envs (if ls_last s then Some (ls_cell s) else None) = Inr page \<Longrightarrow>
    list_step api envs s (s\<lparr>ls_producer := P_Send, ls_cell := page\<rparr>)"
| list_error: "ls_producer s = P_List \<Longrightarrow>
    next_page api envs (if ls_last s then Some (ls_cell s) else None) = Inl e \<Longrightarrow>
    list_step api envs s (s\<lparr>ls_producer := P_Err e\<rparr>)"
| list_cancelled: "ls_producer s = P_List \<Longrightarrow> ls_cancelled s \<Longrightarrow>
    list_step api envs s (s\<lparr>ls_producer := P_Err ''context canceled''\<rparr>)"
| send_more: "ls_producer s = P_Send \<Longrightarrow> ls_consumer s = C_Loop n \<Longrightarrow> sl_continue (ls_cell s) \<noteq> [] \<Longrightarrow>
    list_step api envs s (s\<lparr>ls_producer := P_List, ls_last := True, ls_consumer := C_Loop (Suc n)\<rparr>)"
| send_last: "ls_producer s = P_Send \<Longrightarrow> ls_consumer s = C_Loop n \<Longrightarrow> sl_continue (ls_cell s) = [] \<Longrightarrow>
    list_step api envs s (s\<lparr>ls_producer := P_Done, ls_cancelled := True, ls_consumer := C_Loop (Suc n)\<rparr>)"
| collect: "ls_consumer s = C_Loop n \<Longrightarrow> ls_cancelled s \<Longrightarrow>
    list_step api envs s (s\<lparr>ls_consumer := C_Send, ls_services := collected n (ls_cell s)\<rparr>)"
| done_signal: "ls_consumer s = C_Send \<Longrightarrow> ls_caller s = M_Wait \<Longrightarrow>
    list_step api envs s (s\<lparr>ls_consumer := C_Done, ls_caller := M_Select\<rparr>)"
| select_error: "ls_caller s = M_Select \<Longrightarrow> ls_producer s = P_Err e \<Longrightarrow>
    list_step api envs s
      (s\<lparr>ls_producer := P_Done, ls_cancelled := True, ls_caller := M_Ret (ls_services s) (Some e)\<rparr>)"
| select_done: "ls_caller s = M_Select \<Longrightarrow> ls_cancelled s \<Longrightarrow>
    list_step api envs s (s\<lparr>ls_caller := M_Ret (ls_services s) None\<rparr>)"

text \<open>The caller's own context may be cancelled from outside, at any time.\<close>

definition parent_cancels :: "listing \<Rightarrow> listing" where
  "parent_cancels s = s\<lparr>ls_cancelled := True\<rparr>"

inductive_cases list_stepE: "list_step api envs s s'"

lemmas list_step_intros = list_page list_error list_cancelled send_more send_last collect done_signal
  select_error select_done

section \<open>The pages of a listing\<close>

fun page_at :: "(list_options \<Rightarrow> string + service_list) \<Rightarrow> string list \<Rightarrow> nat \<Rightarrow> string + service_list" where
  "page_at api envs 0 = next_page api envs None"
| "page_at api envs (Suc k) =
     (case page_at api envs k of Inl e \<Rightarrow> Inl e | Inr page \<Rightarrow> next_page api envs (Some page))"

text \<open>The listing has the pages 0 to n, and only the last one has no continuation token.\<close>

definition pages_to :: "(list_options \<Rightarrow> string + service_list) \<Rightarrow> string list \<Rightarrow> nat \<Rightarrow> (nat \<Rightarrow> service_list) \<Rightarrow> bool" where
  "pages_to api envs n p \<longleftrightarrow>
     (\<forall>k \<in> {..n}. page_at api envs k = Inr (p k) \<and> (sl_continue (p k) = [] \<longleftrightarrow> k = n))"

lemma pages_to_next:
  assumes "pages_to api envs n p" "k \<le> n"
  shows "next_page api envs (if 0 < k then Some (p (k - 1)) else None) = Inr (p k)"
proof -
  have "page_at api envs i = Inr (p i)" if "i \<le> n" for i using assms(1) that by (auto simp: pages_to_def)
  from this [of "k - 1"] this [of k] show ?thesis using assms(2) by (cases k) simp_all
qed

section \<open>Invariant of an undisturbed run\<close>

definition sending :: "(nat \<Rightarrow> service_list) \<Rightarrow> nat \<Rightarrow> listing \<Rightarrow> bool" where
  "sending p k s \<longleftrightarrow> ls_consumer s = C_Loop k \<and> \<not> ls_cancelled s \<and> ls_caller s = M_Wait \<and> ls_last s = (0 < k) \<and>
     ((ls_producer s = P_List \<and> (0 < k \<longrightarrow> ls_cell s = p (k - 1))) \<or> (ls_producer s = P_Send \<and> ls_cell s = p k))"

definition finishing :: "(nat \<Rightarrow> service_list) \<Rightarrow> nat \<Rightarrow> listing \<Rightarrow> bool" where
  "finishing p n s \<longleftrightarrow> ls_producer s = P_Done \<and> ls_cancelled s \<and> ls_cell s = p n \<and>
     ((ls_consumer s = C_Loop (Suc n) \<and> ls_caller s = M_Wait) \<or>
      (ls_services s = collected (Suc n) (p n) \<and>
       ((ls_consumer s = C_Send \<and> ls_caller s = M_Wait) \<or>
        (ls_consumer s = C_Done \<and>
         (ls_caller s = M_Select \<or> ls_caller s = M_Ret (collected (Suc n) (p n)) None)))))"

definition list_inv :: "(nat \<Rightarrow> service_list) \<Rightarrow> nat \<Rightarrow> listing \<Rightarrow> bool" where
  "list_inv p n s \<longleftrightarrow> (\<exists>k \<le> n. sending p k s) \<or> finishing p n s"

lemma list_inv_start: "list_inv p n listing_start"
  by (auto simp: list_inv_def sending_def listing_start_def intro: exI [of _ 0])

lemma sending_step:
  assumes "pages_to api envs n p" "k \<le> n" "sending p k s" "list_step api envs s s'"
  shows "list_inv p n s'"
proof -
  have nxt: "next_page api envs (if ls_last s then Some (ls_cell s) else None) = Inr (p k)"
    if "ls_producer s = P_List"
    using pages_to_next [OF assms(1,2)] assms(3) that by (auto simp: sending_def split: if_splits)
  have cont: "sl_continue (p k) = [] \<longleftrightarrow> k = n" using assms(1,2) by (auto simp: pages_to_def)
  from assms(4) show ?thesis
  proof (cases rule: list_step.cases)
    case (send_more m)
    then have "Suc k \<le> n" using assms(2,3) cont by (auto simp: sending_def)
    then show ?thesis using send_more assms(3) by (auto simp: list_inv_def sending_def intro!: exI [of _ "Suc k"])
  next
    case (list_page page)
    then show ?thesis using assms(2,3) nxt by (auto simp: list_inv_def sending_def intro!: exI [of _ k])
  qed (use assms(3) nxt cont in \<open>auto simp: sending_def list_inv_def finishing_def\<close>)
qed

lemma finishing_step:
  assumes "finishing p n s" "list_step api envs s s'"
  shows "finishing p n s'"
  using assms(2) by (cases rule: list_step.cases) (use assms(1) in \<open>auto simp: finishing_def\<close>)

lemma list_inv_step: "pages_to api envs n p \<Longrightarrow> list_inv p n s \<Longrightarrow> list_step api envs s s' \<Longrightarrow> list_inv p n s'"
  unfolding list_inv_def using sending_step finishing_step list_inv_def by metis

lemma list_inv_reachable:
  assumes "pages_to api envs n p" "(list_step api envs)\<^sup>*\<^sup>* listing_start s"
  shows "list_inv p n s"
  using assms(2) by (induction rule: rtranclp_induct) (auto intro: list_inv_start list_inv_step [OF assms(1)])

text \<open>How many steps are left.\<close>

fun steps_left :: "nat \<Rightarrow> listing \<Rightarrow> nat" where
  "steps_left n s =
     (case ls_producer s of
        P_List \<Rightarrow> (case ls_consumer s of C_Loop k \<Rightarrow> 2 * (n - k) + 5 | _ \<Rightarrow> 0)
      | P_Send \<Rightarrow> (case ls_consumer s of C_Loop k \<Rightarrow> 2 * (n - k) + 4 | _ \<Rightarrow> 0)
      | _ \<Rightarrow> (case ls_consumer s of C_Loop k \<Rightarrow> 3 | C_Send \<Rightarrow> 2
              | C_Done \<Rightarrow> (case ls_caller s of M_Select \<Rightarrow> 1 | _ \<Rightarrow> 0)))"

lemma list_progress:
  assumes "pages_to api envs n p" "list_inv p n s"
    and "ls_caller s \<noteq> M_Ret (collected (Suc n) (p n)) None"
  shows "\<exists>s'. list_step api envs s s' \<and> steps_left n s' < steps_left n s"
proof -
  have cont: "sl_continue (p k) = [] \<longleftrightarrow> k = n" if "k \<le> n" for k using assms(1) that by (auto simp: pages_to_def)
  from assms(2) consider (list) k where "k \<le> n" "sending p k s" "ls_producer s = P_List"
    | (send) k where "k \<le> n" "sending p k s" "ls_producer s = P_Send" | (fin) "finishing p n s"
    by (auto simp: list_inv_def sending_def)
  then show ?thesis
  proof cases
    case list
    have "next_page api envs (if ls_last s then Some (ls_cell s) else None) = Inr (p k)"
      using pages_to_next [OF assms(1) list(1)] list(2,3) by (auto simp: sending_def split: if_splits)
    from list_page [OF list(3) this] show ?thesis
      by (intro exI conjI) (use list in \<open>auto simp: sending_def\<close>)
  next
    case send
    then show ?thesis
    proof (cases "k = n")
      case True
      then have "sl_continue (ls_cell s) = []" "ls_consumer s = C_Loop n" using send cont by (auto simp: sending_def)
      from send_last [OF send(3) this(2,1)] show ?thesis using send True by (auto simp: sending_def intro!: exI)
    next
      case False
      then have "sl_continue (ls_cell s) \<noteq> []" "ls_consumer s = C_Loop k" using send cont by (auto simp: sending_def)
      from send_more [OF send(3) this(2,1)] show ?thesis using send False by (auto simp: sending_def intro!: exI)
    qed
  next
    case fin
    then consider "ls_consumer s = C_Loop (Suc n)" | "ls_consumer s = C_Send" "ls_caller s = M_Wait"
      | "ls_consumer s = C_Done" "ls_caller s = M_Select"
      using assms(3) by (auto simp: finishing_def)
    then show ?thesis
      using fin collect [of s "Suc n" api envs] done_signal [of s api envs] select_done [of s api envs]
      by cases (auto simp: finishing_def intro!: exI)
  qed
qed

lemma list_returns:
  assumes "pages_to api envs n p" "list_inv p n s"
  shows "\<exists>s'. (list_step api envs)\<^sup>*\<^sup>* s s' \<and> ls_caller s' = M_Ret (collected (Suc n) (p n)) None"
  using assms(2)
proof (induction "steps_left n s" arbitrary: s rule: less_induct)
  case less
  show ?case
  proof (cases "ls_caller s = M_Ret (collected (Suc n) (p n)) None")
    case False
    then obtain s1 where s1: "list_step api envs s s1" "steps_left n s1 < steps_left n s"
      using list_progress [OF assms(1) less.prems] by blast
    then obtain s' where "(list_step api envs)\<^sup>*\<^sup>* s1 s'" "ls_caller s' = M_Ret (collected (Suc n) (p n)) None"
      using less.hyps list_inv_step [OF assms(1) less.prems s1(1)] by blast
    then show ?thesis using s1(1) by (meson converse_rtranclp_into_rtranclp)
  qed auto
qed

lemma list_result:
  assumes "pages_to api envs n p" "(list_step api envs)\<^sup>*\<^sup>* listing_start s" "ls_caller s = M_Ret xs err"
  shows "xs = collected (Suc n) (p n) \<and> err = None"
  using list_inv_reachable [OF assms(1,2)] assms(3) by (auto simp: list_inv_def sending_def finishing_def)

text \<open>Every step of an undisturbed listing is one less to go: no schedule keeps it from returning.\<close>

lemma list_step_decreases:
  assumes "pages_to api envs n p" "list_inv p n s" "list_step api envs s s'"
  shows "steps_left n s' < steps_left n s"
proof -
  from assms(2) consider (send) k where "k \<le> n" "sending p k s" | (fin) "finishing p n s"
    by (auto simp: list_inv_def)
  then show ?thesis
  proof cases
    case send
    have nxt: "next_page api envs (if ls_last s then Some (ls_cell s) else None) = Inr (p k)"
      if "ls_producer s = P_List"
      using pages_to_next [OF assms(1) send(1)] send(2) that by (auto simp: sending_def split: if_splits)
    have cont: "sl_continue (p k) = [] \<longleftrightarrow> k = n" using assms(1) send(1) by (auto simp: pages_to_def)
    from assms(3) show ?thesis
      by (cases rule: list_step.cases) (use send nxt cont in \<open>auto simp: sending_def\<close>)
  next
    case fin
    from assms(3) show ?thesis
      by (cases rule: list_step.cases) (use fin in \<open>auto simp: finishing_def\<close>)
  qed
qed

lemma list_run_bounded:
  assumes "pages_to api envs n p" "(list_step api envs ^^ m) listing_start s"
  shows "m + steps_left n s \<le> 2 * n + 5"
  using assms(2)
proof (induction m arbitrary: s)
  case 0
  then show ?case by (auto simp: listing_start_def)
next
  case (Suc m)
  then obtain s1 where s1: "(list_step api envs ^^ m) listing_start s1" "list_step api envs s1 s" by auto
  then have "list_inv p n s1" by (intro list_inv_reachable [OF assms(1)]) (rule relpowp_imp_rtranclp)
  from list_step_decreases [OF assms(1) this s1(2)] Suc.IH [OF s1(1)] show ?case by simp
qed

section \<open>A listing that fails\<close>

text \<open>Page k is refused, and every page before it announced another one.\<close>

definition fails_at :: "(list_options \<Rightarrow> string + service_list) \<Rightarrow> string list \<Rightarrow> nat \<Rightarrow> (nat \<Rightarrow> service_list) \<Rightarrow> string \<Rightarrow> bool" where
  "fails_at api envs n p e \<longleftrightarrow>
     (\<forall>k \<in> {..<n}. page_at api envs k = Inr (p k) \<and> sl_continue (p k) \<noteq> []) \<and> page_at api envs n = Inl e"

definition fail_inv :: "(nat \<Rightarrow> service_list) \<Rightarrow> nat \<Rightarrow> string \<Rightarrow> listing \<Rightarrow> bool" where
  "fail_inv p n e s \<longleftrightarrow> ls_caller s = M_Wait \<and> \<not> ls_cancelled s \<and>
     ((\<exists>k < n. sending p k s) \<or> (sending p n s \<and> ls_producer s = P_List) \<or>
      (ls_producer s = P_Err e \<and> ls_consumer s = C_Loop n))"

lemma fails_at_next:
  assumes "fails_at api envs n p e" "k \<le> n"
  shows "next_page api envs (if 0 < k then Some (p (k - 1)) else None) = (if k = n then Inl e else Inr (p k))"
proof -
  have "page_at api envs i = (if i = n then Inl e else Inr (p i))" if "i \<le> n" for i
    using assms(1) that by (cases "i = n") (auto simp: fails_at_def)
  from this [of "k - 1"] this [of k] show ?thesis using assms(2) by (cases k) (auto split: if_splits)
qed

lemma fail_inv_step:
  assumes "fails_at api envs n p e" "fail_inv p n e s" "list_step api envs s s'"
  shows "fail_inv p n e s'"
proof -
  have nxt: "next_page api envs (if ls_last s then Some (ls_cell s) else None) = (if k = n then Inl e else Inr (p k))"
    if "sending p k s" "ls_producer s = P_List" "k \<le> n" for k
    using fails_at_next [OF assms(1) that(3)] that by (auto simp: sending_def split: if_splits)
  have cont: "sl_continue (p k) \<noteq> []" if "k < n" for k using assms(1) that by (auto simp: fails_at_def)
  from assms(2) consider (a) k where "k < n" "sending p k s" | (b) "sending p n s" "ls_producer s = P_List"
    | (c) "ls_producer s = P_Err e" "ls_consumer s = C_Loop n"
    by (auto simp: fail_inv_def)
  then show ?thesis
  proof cases
    case a
    have k: "sl_continue (p k) \<noteq> []" using a(1) by (rule cont)
    have "(\<exists>j \<le> n. sending p j s' \<and> (j = n \<longrightarrow> ls_producer s' = P_List)) \<and> ls_caller s' = M_Wait \<and> \<not> ls_cancelled s'"
      using assms(3)
    proof (cases rule: list_step.cases)
      case (list_page page)
      then show ?thesis using a nxt [OF a(2)] by (auto simp: sending_def intro!: exI [of _ k])
    next
      case (send_more m)
      then show ?thesis using a by (auto simp: sending_def intro!: exI [of _ "Suc k"])
    qed (use a k nxt [OF a(2)] in \<open>auto simp: sending_def\<close>)
    then show ?thesis by (auto simp: fail_inv_def le_less)
  next
    case b
    from assms(3) show ?thesis
      by (cases rule: list_step.cases) (use b nxt [OF b] in \<open>auto simp: fail_inv_def sending_def\<close>)
  next
    case c
    from assms(3) show ?thesis
      by (cases rule: list_step.cases) (use c assms(2) in \<open>auto simp: fail_inv_def\<close>)
  qed
qed

lemma fail_inv_reachable:
  assumes "fails_at api envs n p e" "(list_step api envs)\<^sup>*\<^sup>* listing_start s"
  shows "fail_inv p n e s"
  using assms(2)
proof (induction rule: rtranclp_induct)
  case base
  have "sending p 0 listing_start" by (simp add: sending_def listing_start_def)
  then show ?case by (cases n) (auto simp: fail_inv_def listing_start_def)
qed (use fail_inv_step [OF assms(1)] in blast)

lemma fail_stuck:
  assumes "ls_producer s = P_Err e" "ls_consumer s = C_Loop n" "ls_caller s = M_Wait" "\<not> ls_cancelled s"
  shows "\<not> list_step api envs s s'"
  using assms by (auto elim!: list_stepE)

end
