(* ===== verification/Mirroring.thy ===== *)
theory Mirroring
  imports Selectors
begin

text \<open>
  pkg/controllers/edge/mirroring_reconciler.go: the generic reconciler that keeps a local copy
  of a remote object. The type parameter of the Go code is the type variable \<open>'o\<close>, with the
  accessors of \<open>client.Object\<close> as the fields \<open>mr_meta\<close> and \<open>mr_set_meta\<close>. The locale
  \<open>mirror_kind\<close> is what the reconciler relies on of a kind and its merger; its two
  extensions separate the mergers that keep the local annotations from those that replace them.
\<close>

section \<open>The reconciler\<close>

datatype go_error = ErrApi api_error | ErrMsg string

type_synonym ('o, 'w) preprocessor = "'o \<Rightarrow> 'w \<Rightarrow> (ctrl_result \<times> go_error option \<times> 'o) \<times> 'w"

record ('o, 'w) mirror =
  mr_client :: "('o, 'w) kclient option"
  mr_remote :: "('o, 'w) kclient option"
  mr_zero :: 'o
  mr_meta :: "'o \<Rightarrow> object_meta"
  mr_set_meta :: "object_meta \<Rightarrow> 'o \<Rightarrow> 'o"
  mr_merger :: "'o \<Rightarrow> 'o \<Rightarrow> 'o"
  mr_preprocessors :: "('o, 'w) preprocessor list option"
  mr_envs :: "string list option"

text \<open>How the result of a preprocessor is folded into the result of the reconcile call.\<close>

definition merge_result :: "ctrl_result \<Rightarrow> ctrl_result \<Rightarrow> ctrl_result" where
  "merge_result result res =
     \<lparr>requeue = requeue result \<or> requeue res,
      requeue_after =
        (if 0 < requeue_after res \<and>
            (requeue_after res < requeue_after result \<or> requeue_after result = 0)
         then requeue_after res else requeue_after result)\<rparr>"

fun run_preprocessors ::
  "('o, 'w) preprocessor list \<Rightarrow> ctrl_result \<Rightarrow> 'o \<Rightarrow> 'w \<Rightarrow> (ctrl_result \<times> go_error option \<times> 'o) \<times> 'w"
where
  "run_preprocessors [] result obj w = ((result, None, obj), w)"
| "run_preprocessors (p # ps) result obj w =
     (case p obj w of
        ((res, Some err, obj'), w') \<Rightarrow> ((res, Some err, obj'), w')
      | ((res, None, obj'), w') \<Rightarrow> run_preprocessors ps (merge_result result res) obj' w')"

text \<open>
  The block \<open>if !shouldDelete\<close>: merge, preprocess, stamp, compare, stamp again. It returns the
  result, the error of a preprocessor, the changed copy and \<open>shouldUpdate\<close>.
\<close>

definition mirror_prepare ::
  "('o, 'w) mirror \<Rightarrow> 'o \<Rightarrow> 'o \<Rightarrow> 'w \<Rightarrow> (ctrl_result \<times> go_error option \<times> 'o \<times> bool) \<times> 'w"
where
  "mirror_prepare r remoteKind localKind w =
     (let remoteGeneration = om_resource_version (mr_meta r remoteKind);
          lastRemoteGeneration = mlookup (om_annotations (mr_meta r localKind)) LastRemoteGenerationAnnotation;
          shouldUpdate =
            (if remoteGeneration \<noteq> mget (om_annotations (mr_meta r localKind)) LastRemoteGenerationAnnotation
             then lastRemoteGeneration \<noteq> None else False);
          merged = mr_merger r remoteKind localKind
      in case run_preprocessors (elems (mr_preprocessors r)) result_zero merged w of
           ((res, Some err, obj), w') \<Rightarrow> ((res, Some err, obj, shouldUpdate), w')
         | ((res, None, obj), w') \<Rightarrow>
             let m1 = UpdateLastRemoteGenerationAnnotation (mr_meta r obj) (mr_meta r remoteKind);
                 m2 = UpdateLabels m1;
                 obj2 = mr_set_meta r m2 obj;
                 shouldUpdate' = (shouldUpdate \<or> localKind \<noteq> obj2);
                 obj3 = mr_set_meta r (UpdateLastGenerationAnnotation m2) obj2
             in ((res, None, obj3, shouldUpdate'), w'))"

text \<open>The writes at the end of \<open>Reconcile\<close>.\<close>

definition mirror_write ::
  "('o, 'w) kclient \<Rightarrow> bool \<Rightarrow> bool \<Rightarrow> bool \<Rightarrow> 'o \<Rightarrow> ctrl_result \<Rightarrow> 'w
    \<Rightarrow> (ctrl_result \<times> go_error option) \<times> 'w"
where
  "mirror_write c shouldCreate shouldUpdate shouldDelete obj result w =
     (if shouldCreate then
        (case kc_create c obj w of
           (Inr _, w') \<Rightarrow> ((result, None), w')
         | (Inl e, w') \<Rightarrow>
             if e = Conflict then ((requeue_now, None), w') else ((result, Some (ErrApi e)), w'))
      else if shouldDelete then
        (case kc_delete c obj w of
           (None, w') \<Rightarrow> ((result, None), w')
         | (Some e, w') \<Rightarrow>
             if e = NotFound then ((result, None), w') else ((result, Some (ErrApi e)), w'))
      else if shouldUpdate then
        (case kc_update c obj w of
           (Inr _, w') \<Rightarrow> ((result, None), w')
         | (Inl e, w') \<Rightarrow>
             if e = Conflict then ((requeue_now, None), w') else ((result, Some (ErrApi e)), w'))
      else ((result, None), w))"

text \<open>An error of a read other than NotFound.\<close>

definition hard_error :: "api_error + 'o \<Rightarrow> api_error option" where
  "hard_error g = (case g of Inl e \<Rightarrow> if e = NotFound then None else Some e | Inr _ \<Rightarrow> None)"

definition got :: "'o \<Rightarrow> api_error + 'o \<Rightarrow> 'o" where
  "got zero g = (case g of Inl _ \<Rightarrow> zero | Inr k \<Rightarrow> k)"

definition Reconcile ::
  "('o, 'w) mirror \<Rightarrow> nsname \<Rightarrow> 'w \<Rightarrow> (ctrl_result \<times> go_error option) \<times> 'w"
where
  "Reconcile r req w =
     (case mr_client r of
        None \<Rightarrow> ((result_zero, Some (ErrMsg ''no local kube client'')), w)
      | Some local \<Rightarrow>
     (case mr_remote r of
        None \<Rightarrow> ((result_zero, Some (ErrMsg ''no remote kube client'')), w)
      | Some remote \<Rightarrow>
          let remoteGet = kc_get remote req w; localGet = kc_get local req w in
          case hard_error remoteGet of
            Some e \<Rightarrow> ((result_zero, Some (ErrApi e)), w)
          | None \<Rightarrow>
          (case hard_error localGet of
            Some e \<Rightarrow> ((result_zero, Some (ErrApi e)), w)
          | None \<Rightarrow>
              let remoteMissing = isl remoteGet; localMissing = isl localGet;
                  remoteKind = got (mr_zero r) remoteGet; localKind = got (mr_zero r) localGet
              in if localMissing \<and> remoteMissing then ((result_zero, None), w)
                 else
                   let shouldCreate = localMissing;
                       shouldDelete =
                         (remoteMissing \<or>
                          (\<not> localMissing \<and> IsManagedObject (mr_meta r localKind) \<and>
                           \<not> HasEdgeSyncLabel (mr_meta r remoteKind) (mr_envs r)))
                   in if shouldDelete
                      then mirror_write local shouldCreate False True localKind result_zero w
                      else case mirror_prepare r remoteKind localKind w of
                             ((res, Some err, obj, upd), w') \<Rightarrow> ((res, Some err), w')
                           | ((res, None, obj, upd), w') \<Rightarrow>
                               mirror_write local shouldCreate upd False obj res w')))"

section \<open>What the reconciler does, case by case\<close>

lemma hard_error_simps [simp]:
  "hard_error (Inl NotFound) = None" "hard_error (Inr x) = None"
  "e \<noteq> NotFound \<Longrightarrow> hard_error (Inl e) = Some e"
  by (simp_all add: hard_error_def)

lemma got_simps [simp]: "got z (Inl e) = z" "got z (Inr x) = x"
  by (simp_all add: got_def)

lemma merge_result_zero [simp]: "0 \<le> requeue_after res \<Longrightarrow> merge_result result_zero res = res"
  by (simp add: merge_result_def)

lemma Reconcile_both_missing:
  assumes "mr_client r = Some local" and "mr_remote r = Some remote"
    and "kc_get remote req w = Inl NotFound" and "kc_get local req w = Inl NotFound"
  shows "Reconcile r req w = ((result_zero, None), w)"
  using assms by (simp add: Reconcile_def)

lemma Reconcile_remote_gone:
  assumes "mr_client r = Some local" and "mr_remote r = Some remote"
    and "kc_get remote req w = Inl NotFound" and "kc_get local req w = Inr l"
  shows "Reconcile r req w = mirror_write local False False True l result_zero w"
  using assms by (simp add: Reconcile_def)

lemma Reconcile_label_lost:
  assumes "mr_client r = Some local" and "mr_remote r = Some remote"
    and "kc_get remote req w = Inr k" and "kc_get local req w = Inr l"
    and "IsManagedObject (mr_meta r l)" and "\<not> HasEdgeSyncLabel (mr_meta r k) (mr_envs r)"
  shows "Reconcile r req w = mirror_write local False False True l result_zero w"
  using assms by (simp add: Reconcile_def)

lemma Reconcile_create:
  assumes "mr_client r = Some local" and "mr_remote r = Some remote"
    and "kc_get remote req w = Inr k" and "kc_get local req w = Inl NotFound"
    and "mirror_prepare r k (mr_zero r) w = ((res, None, obj, upd), w')"
  shows "Reconcile r req w = mirror_write local True upd False obj res w'"
  using assms by (simp add: Reconcile_def)

lemma Reconcile_update:
  assumes "mr_client r = Some local" and "mr_remote r = Some remote"
    and "kc_get remote req w = Inr k" and "kc_get local req w = Inr l"
    and "IsManagedObject (mr_meta r l) \<Longrightarrow> HasEdgeSyncLabel (mr_meta r k) (mr_envs r)"
    and "mirror_prepare r k l w = ((res, None, obj, upd), w')"
  shows "Reconcile r req w = mirror_write local False upd False obj res w'"
  using assms by (auto simp: Reconcile_def)

lemma mirror_write_nothing [simp]: "mirror_write c False False False obj res w = ((res, None), w)"
  by (simp add: mirror_write_def)

text \<open>Preprocessors accumulate: a requeue of one is never lost, the delay is the least positive one.\<close>

lemma run_preprocessors_requeue:
  assumes "run_preprocessors ps result obj w = ((res, None, obj'), w')" and "requeue result"
  shows "requeue res"
  using assms
  by (induction ps result obj w rule: run_preprocessors.induct)
    (auto simp: merge_result_def split: prod.splits option.splits)

lemma run_preprocessors_after:
  assumes "run_preprocessors ps result obj w = ((res, None, obj'), w')" and "0 < requeue_after result"
  shows "0 < requeue_after res \<and> requeue_after res \<le> requeue_after result"
  using assms
proof (induction ps result obj w rule: run_preprocessors.induct)
  case (2 p ps result obj w)
  obtain res1 obj1 w1 where p: "p obj w = ((res1, None, obj1), w1)"
    using "2.prems" by (cases "p obj w") (auto split: prod.splits option.splits)
  have m: "0 < requeue_after (merge_result result res1)"
      "requeue_after (merge_result result res1) \<le> requeue_after result"
    using "2.prems"(2) by (auto simp: merge_result_def)
  have "0 < requeue_after res \<and> requeue_after res \<le> requeue_after (merge_result result res1)"
    using "2.IH" [OF p [symmetric] refl refl refl] "2.prems"(1) m(1) by (simp add: p)
  with m show ?case by linarith
qed simp

section \<open>Kinds and their mergers\<close>

text \<open>
  The object as it is compared with the local one (\<open>stamp\<close>), as it is written
  (\<open>written\<close>), and as the API server hands it back, with a new resource version
  (\<open>restored\<close>).
\<close>

definition stamp ::
  "('o \<Rightarrow> object_meta) \<Rightarrow> (object_meta \<Rightarrow> 'o \<Rightarrow> 'o) \<Rightarrow> 'o \<Rightarrow> 'o \<Rightarrow> 'o"
where
  "stamp meta set_meta remote obj =
     set_meta (UpdateLabels (UpdateLastRemoteGenerationAnnotation (meta obj) (meta remote))) obj"

definition written ::
  "('o \<Rightarrow> object_meta) \<Rightarrow> (object_meta \<Rightarrow> 'o \<Rightarrow> 'o) \<Rightarrow> 'o \<Rightarrow> 'o \<Rightarrow> 'o"
where
  "written meta set_meta remote obj =
     set_meta
       (UpdateLastGenerationAnnotation
         (UpdateLabels (UpdateLastRemoteGenerationAnnotation (meta obj) (meta remote)))) obj"

definition restored ::
  "('o \<Rightarrow> object_meta) \<Rightarrow> (object_meta \<Rightarrow> 'o \<Rightarrow> 'o) \<Rightarrow> string \<Rightarrow> 'o \<Rightarrow> 'o"
where
  "restored meta set_meta v obj = set_meta ((meta obj)\<lparr>om_resource_version := v\<rparr>) obj"

locale mirror_kind =
  fixes meta :: "'o \<Rightarrow> object_meta"
    and set_meta :: "object_meta \<Rightarrow> 'o \<Rightarrow> 'o"
    and merger :: "'o \<Rightarrow> 'o \<Rightarrow> 'o"
  assumes meta_set: "meta (set_meta m x) = m"
    and set_meta_id: "set_meta (meta x) x = x"
    and set_set: "set_meta m (set_meta m' x) = set_meta m x"
    and merge_name: "om_name (meta (merger s d)) = om_name (meta s)"
    and merge_namespace: "om_namespace (meta (merger s d)) = om_namespace (meta s)"
    and merge_labels: "om_labels (meta (merger s d)) = om_labels (meta s)"
    and merge_version: "om_resource_version (meta (merger s d)) = om_resource_version (meta d)"
begin

lemma meta_written:
  "meta (written meta set_meta k x) =
     UpdateLastGenerationAnnotation
       (UpdateLabels (UpdateLastRemoteGenerationAnnotation (meta x) (meta k)))"
  by (simp add: written_def meta_set)

lemma written_marks:
  "IsManagedObject (meta (written meta set_meta k x))"
  "mlookup (om_annotations (meta (written meta set_meta k x))) LastRemoteGenerationAnnotation =
     Some (om_resource_version (meta k))"
  "mlookup (om_annotations (meta (written meta set_meta k x))) LastGenerationAnnotation =
     Some (om_resource_version (meta x))"
  by (simp_all add: meta_written edge_simps IsManagedObject_iff UpdateLabels_lookup)

lemma written_merge_sync:
  "HasEdgeSyncLabel (meta (written meta set_meta k (merger k l))) envs = HasEdgeSyncLabel (meta k) envs"
  by (simp add: meta_written HasEdgeSyncLabel_iff edge_simps UpdateLabels_lookup merge_labels
      constants_distinct [symmetric])

text \<open>The copy that is written, whatever the preprocessors made of the merged object.\<close>

lemma prepare_obj:
  assumes "mr_meta r = meta" and "mr_set_meta r = set_meta" and "mr_merger r = merger"
    and "run_preprocessors (elems (mr_preprocessors r)) result_zero (merger k l) w = ((res, None, x), w')"
  shows "mirror_prepare r k l w =
     ((res, None, written meta set_meta k x,
       (om_resource_version (meta k) \<noteq> mget (om_annotations (meta l)) LastRemoteGenerationAnnotation \<and>
        mlookup (om_annotations (meta l)) LastRemoteGenerationAnnotation \<noteq> None) \<or>
       l \<noteq> stamp meta set_meta k x), w')"
  using assms by (simp add: mirror_prepare_def written_def stamp_def Let_def set_set)

lemma prepare_plain:
  assumes "mr_meta r = meta" and "mr_set_meta r = set_meta" and "mr_merger r = merger"
    and "mr_preprocessors r = None"
  shows "\<exists>upd. mirror_prepare r k l w = ((result_zero, None, written meta set_meta k (merger k l), upd), w)"
  using prepare_obj [OF assms(1-3), of k l w result_zero "merger k l" w] assms(4) by simp

end

text \<open>
  A merger that keeps the local annotations. \<open>settled s y\<close> says that \<open>y\<close> already carries
  what a merge of \<open>s\<close> brings; then a merge only puts the remote labels back. A remote object
  that carries one of the two generation marks itself would overwrite the local ones.
\<close>

definition marks_free :: "object_meta \<Rightarrow> bool" where
  "marks_free m \<longleftrightarrow> mlookup (om_annotations m) LastGenerationAnnotation = None \<and>
     mlookup (om_annotations m) LastRemoteGenerationAnnotation = None"

locale keeping_kind = mirror_kind meta set_meta merger
  for meta :: "'o \<Rightarrow> object_meta"
    and set_meta :: "object_meta \<Rightarrow> 'o \<Rightarrow> 'o"
    and merger :: "'o \<Rightarrow> 'o \<Rightarrow> 'o" +
  fixes settled :: "'o \<Rightarrow> 'o \<Rightarrow> bool"
  assumes merge_settles: "settled s (merger s d)"
    and settled_merge: "settled s y \<Longrightarrow> merger s y = set_meta ((meta y)\<lparr>om_labels := om_labels (meta s)\<rparr>) y"
    and settled_written: "marks_free (meta s) \<Longrightarrow> settled s x \<Longrightarrow>
      settled s (restored meta set_meta v (written meta set_meta s x))"
begin

lemma stamp_stable:
  assumes "marks_free (meta s)" and "settled s x" and "om_labels (meta x) = om_labels (meta s)"
    and y_def: "y = restored meta set_meta v (written meta set_meta s x)"
  shows "stamp meta set_meta s (merger s y) = y"
proof -
  let ?m = "UpdateLabels (UpdateLastRemoteGenerationAnnotation (meta x) (meta s))"
  have y: "meta y = (UpdateLastGenerationAnnotation ?m)\<lparr>om_resource_version := v\<rparr>"
    by (simp add: y_def restored_def meta_written meta_set)
  have merged: "merger s y = set_meta ((meta y)\<lparr>om_labels := om_labels (meta s)\<rparr>) y"
    unfolding y_def using assms by (intro settled_merge settled_written)
  have labels: "om_labels (UpdateLabels (meta s)) = om_labels (meta y)"
    using assms(3) by (simp add: y UpdateLabels_def UpdateLastGenerationAnnotation_def
        UpdateLastRemoteGenerationAnnotation_def)
  have remote: "mlookup (om_annotations (meta y)) LastRemoteGenerationAnnotation =
      Some (om_resource_version (meta s))"
    by (simp add: y edge_simps)
  have "UpdateLabels (UpdateLastRemoteGenerationAnnotation ((meta y)\<lparr>om_labels := om_labels (meta s)\<rparr>) (meta s))
      = meta y"
    using labels mput_idem [OF remote]
    by (simp add: UpdateLabels_def UpdateLastRemoteGenerationAnnotation_def)
  then show ?thesis by (simp add: stamp_def merged meta_set set_set set_meta_id)
qed

lemma prepare_steady:
  assumes "mr_meta r = meta" and "mr_set_meta r = set_meta" and "mr_merger r = merger"
    and "marks_free (meta s)" and "settled s x" and "om_labels (meta x) = om_labels (meta s)"
    and "y = restored meta set_meta v (written meta set_meta s x)"
    and "run_preprocessors (elems (mr_preprocessors r)) result_zero (merger s y) w =
         ((res, None, merger s y), w')"
  shows "mirror_prepare r s y w = ((res, None, written meta set_meta s (merger s y), False), w')"
proof -
  have "mlookup (om_annotations (meta y)) LastRemoteGenerationAnnotation =
      Some (om_resource_version (meta s))"
    by (simp add: assms(7) restored_def meta_set written_marks)
  moreover have "stamp meta set_meta s (merger s y) = y"
    by (rule stamp_stable [OF assms(4-7)])
  ultimately show ?thesis
    by (simp add: prepare_obj [OF assms(1-3,8)] mget_def)
qed

end

text \<open>
  A merger that replaces the annotations by the remote ones: the generation mark that every
  write leaves behind is lost in the merge, so the comparison finds a difference each time.
\<close>

locale replacing_kind = mirror_kind +
  assumes merge_annotations: "om_annotations (meta (merger s d)) = om_annotations (meta s)"
begin

lemma prepare_always_updates:
  assumes "mr_meta r = meta" and "mr_set_meta r = set_meta" and "mr_merger r = merger"
    and "mr_preprocessors r = None"
    and "mlookup (om_annotations (meta s)) LastGenerationAnnotation = None"
    and "mlookup (om_annotations (meta l)) LastGenerationAnnotation \<noteq> None"
  shows "mirror_prepare r s l w = ((result_zero, None, written meta set_meta s (merger s l), True), w)"
proof -
  have "mlookup (om_annotations (meta (stamp meta set_meta s (merger s l)))) LastGenerationAnnotation = None"
    using assms(5) by (simp add: stamp_def meta_set edge_simps merge_annotations)
  with assms(6) have "l \<noteq> stamp meta set_meta s (merger s l)" by auto
  then show ?thesis
    using prepare_obj [OF assms(1-3), of s l w result_zero "merger s l" w] assms(4) by simp
qed

end

end
