(* ===== verification/GoFloat.thy ===== *)
theory GoFloat
  imports GoStrconv "HOL-Library.Log_Nat"
begin

text \<open>
  Go's float32, IEEE 754 binary32 with rounding to nearest, ties to even. A value is NaN, an
  infinity, a rational number or the negative zero; every operation computes the exact
  rational result and rounds it once (\<open>round32\<close>), as hardware without fused operations
  does. The locale \<open>rounding\<close> states what the clients need of a rounding function and
  is interpreted on \<open>rnd\<close>, the rounding of this theory.
\<close>

section \<open>Rounding a rational to 24 significant bits\<close>

definition rne :: "rat \<Rightarrow> int" where
  "rne x =
     (let f = floor x; r = x - of_int f in
      if r < 1 / 2 then f else if 1 / 2 < r then f + 1 else if even f then f else f + 1)"

text \<open>The exponent of a positive rational: \<open>2 powi flog2 q \<le> q < 2 powi (flog2 q + 1)\<close>.\<close>

definition flog2 :: "rat \<Rightarrow> int" where
  "flog2 q =
     (case quotient_of q of (n, d) \<Rightarrow>
        let k = bitlen n - bitlen d in if 2 powi k \<le> q then k else k - 1)"

definition ulp_exp :: "rat \<Rightarrow> int" where
  "ulp_exp q = max (flog2 q - 23) (- 149)"

definition rnd_mag :: "rat \<Rightarrow> rat" where
  "rnd_mag q = of_int (rne (q / 2 powi ulp_exp q)) * 2 powi ulp_exp q"

definition rnd :: "rat \<Rightarrow> rat" where
  "rnd q = (if q = 0 then 0 else if q < 0 then - rnd_mag (- q) else rnd_mag q)"

subsection \<open>Rounding to an integer\<close>

lemma rne_of_int [simp]: "rne (of_int k) = k"
  by (simp add: rne_def)

lemma rne_mono: "x \<le> y \<Longrightarrow> rne x \<le> rne y"
proof -
  assume xy: "x \<le> y"
  show ?thesis
  proof (cases "floor x = floor y")
    case True
    then show ?thesis using xy by (auto simp: rne_def Let_def)
  next
    case False
    with floor_mono [OF xy] have "floor x + 1 \<le> floor y" by simp
    then show ?thesis by (auto simp: rne_def Let_def)
  qed
qed

lemma rne_le_of_int: "x \<le> of_int k \<Longrightarrow> rne x \<le> k"
  using rne_mono [of x "of_int k"] by simp

lemma of_int_le_rne: "of_int k \<le> x \<Longrightarrow> k \<le> rne x"
  using rne_mono [of "of_int k" x] by simp

subsection \<open>The exponent\<close>

lemma two_powi_pos [simp]: "(0 :: rat) < 2 powi k"
  by simp

lemma bitlen_rat_bounds:
  assumes "0 < n"
  shows "2 powi (bitlen n - 1) \<le> (of_int n :: rat)" and "(of_int n :: rat) < 2 powi (bitlen n)"
proof -
  have b: "2 ^ nat (bitlen n - 1) \<le> n" "n < 2 ^ nat (bitlen n)"
    using bitlen_bounds [OF assms] by auto
  have pos: "0 < bitlen n"
    using assms bitlen_eq_zero_iff [of n] bitlen_nonneg [of n] by linarith
  have "(2 :: rat) powi (bitlen n - 1) = of_int (2 ^ nat (bitlen n - 1))"
    using pos by (simp add: power_int_def)
  also have "\<dots> \<le> of_int n" using b(1) by (simp only: of_int_le_iff)
  finally show "2 powi (bitlen n - 1) \<le> (of_int n :: rat)" .
  have "(of_int n :: rat) < of_int (2 ^ nat (bitlen n))" using b(2) by (simp only: of_int_less_iff)
  also have "\<dots> = 2 powi (bitlen n)"
    using pos by (simp add: power_int_def)
  finally show "(of_int n :: rat) < 2 powi (bitlen n)" .
qed

lemma flog2_bounds:
  assumes "0 < q"
  shows "2 powi flog2 q \<le> q \<and> q < 2 powi (flog2 q + 1)"
proof -
  obtain n d where nd: "quotient_of q = (n, d)" by (cases "quotient_of q")
  have d: "0 < d" using nd by (rule quotient_of_denom_pos)
  have q: "q = of_int n / of_int d" using nd by (rule quotient_of_div)
  with assms d have n: "0 < n" by (simp add: zero_less_divide_iff)
  define k where "k = bitlen n - bitlen d"
  note bn = bitlen_rat_bounds [OF n] and bd = bitlen_rat_bounds [OF d]
  have dq: "0 < (of_int d :: rat)" using d by simp
  have e1: "(2 :: rat) powi (k + 1) * 2 powi (bitlen d - 1) = 2 powi (bitlen n)"
    by (simp add: k_def power_int_add [symmetric])
  have "2 powi (k + 1) * 2 powi (bitlen d - 1) \<le> 2 powi (k + 1) * (of_int d :: rat)"
    by (rule mult_left_mono [OF bd(1)]) simp
  then have "(of_int n :: rat) < 2 powi (k + 1) * of_int d"
    using bn(2) e1 by linarith
  then have up: "q < 2 powi (k + 1)"
    using dq by (simp add: q pos_divide_less_eq)
  have e2: "(2 :: rat) powi (k - 1) * 2 powi (bitlen d) = 2 powi (bitlen n - 1)"
    by (simp add: k_def power_int_add [symmetric])
  have "2 powi (k - 1) * (of_int d :: rat) \<le> 2 powi (k - 1) * 2 powi (bitlen d)"
    by (rule mult_left_mono) (use bd(2) in simp_all)
  then have "2 powi (k - 1) * (of_int d :: rat) \<le> of_int n"
    using bn(1) e2 by linarith
  then have low: "2 powi (k - 1) \<le> q"
    using dq by (simp add: q pos_le_divide_eq)
  show ?thesis
    using up low by (auto simp: flog2_def nd Let_def k_def [symmetric] not_le)
qed

lemma powi_le: "a \<le> b \<Longrightarrow> (2 :: rat) powi a \<le> 2 powi b"
  by (rule power_int_increasing) simp_all

lemma powi_less: "a < b \<Longrightarrow> (2 :: rat) powi a < 2 powi b"
  by (rule power_int_strict_increasing) simp_all

lemma powi_mono_iff: "(2 :: rat) powi a \<le> 2 powi b \<longleftrightarrow> a \<le> b"
  using powi_le [of a b] powi_less [of b a] by linarith

lemma powi_less_iff: "(2 :: rat) powi a < 2 powi b \<longleftrightarrow> a < b"
  using powi_mono_iff [of b a] by linarith

lemma powi_split: "e \<le> k \<Longrightarrow> (2 :: rat) powi k = of_int (2 ^ nat (k - e)) * 2 powi e"
proof -
  assume "e \<le> k"
  then have "of_int (2 ^ nat (k - e)) = (2 :: rat) powi (k - e)" by (simp add: power_int_def)
  then show ?thesis by (simp add: power_int_add [symmetric])
qed

lemma powi_quotient: "e \<le> k \<Longrightarrow> (2 :: rat) powi k / 2 powi e = of_int (2 ^ nat (k - e))"
  by (subst powi_split [of e k]) simp_all

lemma flog2_less: "0 < q \<Longrightarrow> q < 2 powi k \<Longrightarrow> flog2 q < k"
  using flog2_bounds [of q] powi_less_iff [of "flog2 q" k] by linarith

lemma flog2_ge: "0 < q \<Longrightarrow> 2 powi k \<le> q \<Longrightarrow> k \<le> flog2 q"
  using flog2_bounds [of q] powi_less_iff [of k "flog2 q + 1"] by linarith

lemma flog2_mono: "0 < q \<Longrightarrow> q \<le> r \<Longrightarrow> flog2 q \<le> flog2 r"
  using flog2_bounds [of q] flog2_ge [of r "flog2 q"] by linarith

subsection \<open>Laws of the rounding\<close>

text \<open>A rational is representable when it is an integer of at most 24 bits times a power of two from -149 on.\<close>

definition repr :: "rat \<Rightarrow> bool" where
  "repr q \<longleftrightarrow> (\<exists>m e. q = of_int m * 2 powi e \<and> \<bar>m\<bar> \<le> 2 ^ 24 \<and> - 149 \<le> e)"

lemma reprI: "q = of_int m * 2 powi e \<Longrightarrow> \<bar>m\<bar> \<le> 2 ^ 24 \<Longrightarrow> - 149 \<le> e \<Longrightarrow> repr q"
  by (auto simp: repr_def)

lemma repr_int: "\<bar>m\<bar> \<le> 2 ^ 24 \<Longrightarrow> repr (of_int m)"
  by (rule reprI [of _ m 0]) simp_all

lemma repr_uminus:
  assumes "repr q"
  shows "repr (- q)"
proof -
  obtain m e where "q = of_int m * 2 powi e" "\<bar>m\<bar> \<le> 2 ^ 24" "- 149 \<le> e"
    using assms by (auto simp: repr_def)
  then show ?thesis by (intro reprI [of _ "- m" e]) simp_all
qed

lemma rnd_mag_scaled: "rnd_mag q / 2 powi ulp_exp q = of_int (rne (q / 2 powi ulp_exp q))"
  by (simp add: rnd_mag_def)

lemma rnd_mag_upper:
  assumes "0 < q" and "q \<le> 2 powi k" and "- 149 \<le> k"
  shows "rnd_mag q \<le> 2 powi k"
proof -
  let ?e = "ulp_exp q"
  have ek: "?e \<le> k"
  proof -
    have "2 powi flog2 q \<le> (2 :: rat) powi k"
      using flog2_bounds [OF assms(1)] assms(2) by linarith
    then show ?thesis using assms(3) by (simp add: ulp_exp_def powi_mono_iff)
  qed
  have "q / 2 powi ?e \<le> 2 powi k / 2 powi ?e"
    using assms(2) by (simp add: divide_right_mono)
  also have "\<dots> = of_int (2 ^ nat (k - ?e))"
    using ek by (rule powi_quotient)
  finally have "rne (q / 2 powi ?e) \<le> 2 ^ nat (k - ?e)"
    by (rule rne_le_of_int)
  then have "rnd_mag q \<le> of_int (2 ^ nat (k - ?e)) * 2 powi ?e"
    unfolding rnd_mag_def by (intro mult_right_mono) (simp_all only: of_int_le_iff, simp)
  also have "\<dots> = 2 powi k"
    using ek by (rule powi_split [symmetric])
  finally show ?thesis .
qed

lemma rnd_mag_lower:
  assumes "0 < q" and "2 powi k \<le> q" and "ulp_exp q \<le> k"
  shows "2 powi k \<le> rnd_mag q"
proof -
  let ?e = "ulp_exp q"
  have "of_int (2 ^ nat (k - ?e)) = (2 :: rat) powi k / 2 powi ?e"
    using assms(3) by (rule powi_quotient [symmetric])
  also have "\<dots> \<le> q / 2 powi ?e"
    using assms(2) by (simp add: divide_right_mono)
  finally have "2 ^ nat (k - ?e) \<le> rne (q / 2 powi ?e)"
    by (rule of_int_le_rne)
  then have "of_int (2 ^ nat (k - ?e)) * 2 powi ?e \<le> rnd_mag q"
    unfolding rnd_mag_def by (intro mult_right_mono) (simp_all only: of_int_le_iff, simp)
  moreover have "of_int (2 ^ nat (k - ?e)) * 2 powi ?e = (2 :: rat) powi k"
    using assms(3) by (rule powi_split [symmetric])
  ultimately show ?thesis by simp
qed

lemma rnd_mag_nonneg: "0 < q \<Longrightarrow> 0 \<le> rnd_mag q"
  unfolding rnd_mag_def using of_int_le_rne [of 0 "q / 2 powi ulp_exp q"] by simp

lemma rnd_mag_mono:
  assumes "0 < q" and "q \<le> r"
  shows "rnd_mag q \<le> rnd_mag r"
proof (cases "ulp_exp q = ulp_exp r")
  case True
  have "rne (q / 2 powi ulp_exp q) \<le> rne (r / 2 powi ulp_exp q)"
    using assms(2) by (intro rne_mono divide_right_mono) simp_all
  then show ?thesis
    unfolding rnd_mag_def True [symmetric] by (intro mult_right_mono) simp_all
next
  case False
  let ?k = "flog2 q + 1"
  have "flog2 q \<le> flog2 r" using assms by (rule flog2_mono)
  with False have lt: "flog2 q < flog2 r" "- 149 < flog2 r - 23" "ulp_exp r = flog2 r - 23"
    by (auto simp: ulp_exp_def)
  let ?m = "max ?k (- 149)"
  have "q \<le> 2 powi ?m"
    using flog2_bounds [OF assms(1)] powi_le [of ?k ?m] by linarith
  then have "rnd_mag q \<le> 2 powi ?m" using assms(1) by (intro rnd_mag_upper) simp_all
  also have "\<dots> \<le> 2 powi flog2 r" using lt by (intro powi_le) simp
  also have "\<dots> \<le> rnd_mag r"
    using flog2_bounds [of r] assms lt by (intro rnd_mag_lower) simp_all
  finally show ?thesis .
qed

lemma rnd_mono: "q \<le> r \<Longrightarrow> rnd q \<le> rnd r"
  using rnd_mag_mono [of q r] rnd_mag_mono [of "- r" "- q"] rnd_mag_nonneg [of "- q"] rnd_mag_nonneg [of r]
  by (auto simp: rnd_def)

lemma rnd_mag_repr:
  assumes "repr q" and "0 < q"
  shows "rnd_mag q = q"
proof -
  obtain m e where me: "q = of_int m * 2 powi e" "\<bar>m\<bar> \<le> 2 ^ 24" "- 149 \<le> e"
    using assms(1) by (auto simp: repr_def)
  let ?e = "ulp_exp q"
  have int: "\<exists>n. q / 2 powi ?e = of_int n"
  proof (cases "?e \<le> e")
    case True
    have "q / 2 powi ?e = of_int m * 2 powi (e - ?e)"
      by (simp add: me(1) power_int_diff)
    also have "\<dots> = of_int (m * 2 ^ nat (e - ?e))"
      using True by (simp add: power_int_def)
    finally show ?thesis by blast
  next
    case False
    have "(of_int m :: rat) \<le> of_int (2 ^ 24)" using me(2) by (simp only: of_int_le_iff)
    then have "q \<le> 2 powi 24 * 2 powi e"
      unfolding me(1) by (intro mult_right_mono) simp_all
    also have "\<dots> = 2 powi (24 + e)" by (simp add: power_int_add)
    finally have le: "q \<le> 2 powi (24 + e)" .
    show ?thesis
    proof (cases "q = 2 powi (24 + e)")
      case True
      with assms(2) have "flog2 q = 24 + e"
        using flog2_ge [of q "24 + e"] flog2_less [of q "25 + e"] powi_less [of "24 + e" "25 + e"] by simp
      with False me(3) have "?e = 1 + e" by (simp add: ulp_exp_def)
      then have "q / 2 powi ?e = 2 powi 23"
        using True by (simp add: power_int_diff [symmetric])
      then have "q / 2 powi ?e = of_int (2 ^ 23)" by simp
      then show ?thesis by blast
    next
      case ne: False
      with le have "flog2 q < 24 + e" using assms(2) by (intro flog2_less) simp_all
      with False me(3) show ?thesis by (simp add: ulp_exp_def)
    qed
  qed
  then obtain n where "q / 2 powi ?e = of_int n" by blast
  then have "rnd_mag q = (q / 2 powi ?e) * 2 powi ?e" by (simp add: rnd_mag_def)
  then show ?thesis by simp
qed

lemma rnd_repr: "repr q \<Longrightarrow> rnd q = q"
  using rnd_mag_repr [of q] rnd_mag_repr [of "- q"] repr_uminus [of q] by (auto simp: rnd_def)

lemma rnd_0 [simp]: "rnd 0 = 0"
  by (simp add: rnd_def)

subsection \<open>What clients need of a rounding\<close>

text \<open>
  The contract: monotone, and exact on the representable numbers. From it alone: a quotient of
  rounded differences stays in the unit interval, and scaling such a quotient by 100 stays in
  the range of a percentage.
\<close>

locale rounding =
  fixes rd :: "rat \<Rightarrow> rat"
    and exact :: "rat \<Rightarrow> bool"
  assumes rd_mono: "q \<le> r \<Longrightarrow> rd q \<le> rd r"
    and rd_exact: "exact q \<Longrightarrow> rd q = q"
    and exact_small_int: "\<bar>m\<bar> \<le> 16777216 \<Longrightarrow> exact (of_int m)"
begin

lemma rd_between: "of_int a \<le> q \<Longrightarrow> q \<le> of_int b \<Longrightarrow> \<bar>a\<bar> \<le> 16777216 \<Longrightarrow> \<bar>b\<bar> \<le> 16777216 \<Longrightarrow>
    of_int a \<le> rd q \<and> rd q \<le> of_int b"
  using rd_mono [of "of_int a" q] rd_mono [of q "of_int b"] rd_exact [OF exact_small_int] by simp

lemma rd_nonneg: "0 \<le> q \<Longrightarrow> 0 \<le> rd q"
  using rd_mono [of 0 q] rd_exact [OF exact_small_int, of 0] by simp

lemma rd_ratio:
  assumes "0 \<le> a" and "a \<le> b"
  shows "0 \<le> rd (rd a / rd b) \<and> rd (rd a / rd b) \<le> 1"
proof -
  have "0 \<le> rd a" "rd a \<le> rd b" using assms by (simp_all add: rd_nonneg rd_mono)
  then have "0 \<le> rd a / rd b" "rd a / rd b \<le> 1" by (auto simp: divide_le_eq_1)
  then show ?thesis using rd_between [of 0 "rd a / rd b" 1] by simp
qed

lemma rd_percent: "0 \<le> q \<Longrightarrow> q \<le> 1 \<Longrightarrow> 0 \<le> rd (100 * q) \<and> rd (100 * q) \<le> 100"
  using rd_between [of 0 "100 * q" 100] by simp

end

interpretation f32: rounding rnd repr
proof unfold_locales
  show "rnd q \<le> rnd r" if "q \<le> r" for q r using that by (rule rnd_mono)
  show "rnd q = q" if "repr q" for q using that by (rule rnd_repr)
  show "repr (of_int m)" if "\<bar>m\<bar> \<le> 16777216" for m using that by (intro repr_int) simp
qed

section \<open>float32 values and operations\<close>

datatype f32 = F_NaN | F_Inf bool | F_Fin rat | F_NegZero
  \<comment> \<open>\<open>F_Inf True\<close> is the negative infinity\<close>

definition round32 :: "rat \<Rightarrow> f32" where
  "round32 q =
     (let v = rnd q in
      if 2 ^ 128 \<le> \<bar>v\<bar> then F_Inf (q < 0)
      else if v = 0 \<and> q < 0 then F_NegZero else F_Fin v)"

fun fval :: "f32 \<Rightarrow> rat" where
  "fval (F_Fin q) = q"
| "fval _ = 0"

fun fsign :: "f32 \<Rightarrow> bool" where
  "fsign (F_Fin q) = (q < 0)"
| "fsign F_NegZero = True"
| "fsign (F_Inf s) = s"
| "fsign F_NaN = False"

definition fis_nan :: "f32 \<Rightarrow> bool" where
  "fis_nan x \<longleftrightarrow> x = F_NaN"

definition fis_inf :: "f32 \<Rightarrow> bool" where
  "fis_inf x \<longleftrightarrow> (\<exists>s. x = F_Inf s)"

definition ffinite :: "f32 \<Rightarrow> bool" where
  "ffinite x \<longleftrightarrow> \<not> fis_nan x \<and> \<not> fis_inf x"

lemma fis_simps [simp]:
  "fis_nan F_NaN" "\<not> fis_nan (F_Inf s)" "\<not> fis_nan (F_Fin q)" "\<not> fis_nan F_NegZero"
  "\<not> fis_inf F_NaN" "fis_inf (F_Inf s)" "\<not> fis_inf (F_Fin q)" "\<not> fis_inf F_NegZero"
  "\<not> ffinite F_NaN" "\<not> ffinite (F_Inf s)" "ffinite (F_Fin q)" "ffinite F_NegZero"
  by (simp_all add: fis_nan_def fis_inf_def ffinite_def)

lemma fis_inf_code [code]: "fis_inf x = (case x of F_Inf s \<Rightarrow> True | _ \<Rightarrow> False)"
  by (cases x) simp_all

definition fzero :: "bool \<Rightarrow> f32" where
  "fzero s = (if s then F_NegZero else F_Fin 0)"

fun fneg :: "f32 \<Rightarrow> f32" where
  "fneg F_NaN = F_NaN"
| "fneg (F_Inf s) = F_Inf (\<not> s)"
| "fneg F_NegZero = F_Fin 0"
| "fneg (F_Fin q) = (if q = 0 then F_NegZero else F_Fin (- q))"

fun fadd :: "f32 \<Rightarrow> f32 \<Rightarrow> f32" where
  "fadd F_NaN y = F_NaN"
| "fadd x F_NaN = F_NaN"
| "fadd (F_Inf s) (F_Inf t) = (if s = t then F_Inf s else F_NaN)"
| "fadd (F_Inf s) y = F_Inf s"
| "fadd x (F_Inf t) = F_Inf t"
| "fadd F_NegZero F_NegZero = F_NegZero"
| "fadd x y = round32 (fval x + fval y)"

definition fsub :: "f32 \<Rightarrow> f32 \<Rightarrow> f32" where
  "fsub x y = fadd x (fneg y)"

definition fmul :: "f32 \<Rightarrow> f32 \<Rightarrow> f32" where
  "fmul x y =
     (if fis_nan x \<or> fis_nan y then F_NaN
      else let s = (fsign x \<noteq> fsign y) in
        if fis_inf x \<or> fis_inf y
        then if (ffinite x \<and> fval x = 0) \<or> (ffinite y \<and> fval y = 0) then F_NaN else F_Inf s
        else if fval x * fval y = 0 then fzero s else round32 (fval x * fval y))"

definition fdiv :: "f32 \<Rightarrow> f32 \<Rightarrow> f32" where
  "fdiv x y =
     (if fis_nan x \<or> fis_nan y \<or> (fis_inf x \<and> fis_inf y) then F_NaN
      else let s = (fsign x \<noteq> fsign y) in
        if fis_inf x then F_Inf s
        else if fis_inf y then fzero s
        else if fval y = 0 then (if fval x = 0 then F_NaN else F_Inf s)
        else if fval x = 0 then fzero s
        else round32 (fval x / fval y))"

text \<open>Comparisons are false as soon as one side is NaN; the two zeros are equal.\<close>

fun flt :: "f32 \<Rightarrow> f32 \<Rightarrow> bool" where
  "flt F_NaN y = False"
| "flt x F_NaN = False"
| "flt (F_Inf s) (F_Inf t) = (s \<and> \<not> t)"
| "flt (F_Inf s) y = s"
| "flt x (F_Inf t) = (\<not> t)"
| "flt x y = (fval x < fval y)"

definition fge :: "f32 \<Rightarrow> f32 \<Rightarrow> bool" where
  "fge x y \<longleftrightarrow> \<not> fis_nan x \<and> \<not> fis_nan y \<and> \<not> flt x y"

section \<open>Conversions between int64 and float32\<close>

text \<open>
  \<open>float32(i)\<close> rounds; \<open>int64(f)\<close> truncates towards zero. When the value does not fit,
  the Go specification leaves the result to the implementation: the parameter \<open>cv\<close>.
\<close>

definition f32_of_int64 :: "int64 \<Rightarrow> f32" where
  "f32_of_int64 w = round32 (of_int (sint w))"

definition trunc :: "rat \<Rightarrow> int" where
  "trunc q = (if q < 0 then - floor (- q) else floor q)"

definition f32_to_int64 :: "(f32 \<Rightarrow> int64) \<Rightarrow> f32 \<Rightarrow> int64" where
  "f32_to_int64 cv x =
     (if ffinite x \<and> in_int64 (trunc (fval x)) then word_of_int (trunc (fval x)) else cv x)"

subsection \<open>Facts about exact results\<close>

lemma repr_quarter: "\<bar>m\<bar> \<le> 2 ^ 24 \<Longrightarrow> repr (of_int m / 4)"
  by (rule reprI [of _ m "- 2"]) (simp_all add: power_int_minus)

lemma round32_repr: "repr q \<Longrightarrow> \<bar>q\<bar> < 2 ^ 128 \<Longrightarrow> round32 q = F_Fin q"
  by (auto simp: round32_def rnd_repr)

lemma round32_quarter: "\<bar>m\<bar> \<le> 2 ^ 24 \<Longrightarrow> round32 (of_int m / 4) = F_Fin (of_int m / 4)"
proof (rule round32_repr [OF repr_quarter])
  assume m: "\<bar>m\<bar> \<le> 2 ^ 24"
  then have "\<bar>of_int m :: rat\<bar> \<le> of_int (2 ^ 24)"
    by (simp only: of_int_abs [symmetric] of_int_le_iff)
  then show "\<bar>of_int m / 4 :: rat\<bar> < 2 ^ 128" by simp
qed

lemma round32_int: "\<bar>m\<bar> \<le> 2 ^ 22 \<Longrightarrow> round32 (of_int m) = F_Fin (of_int m)"
  using round32_quarter [of "4 * m"] by simp

lemma f32_of_int64_small: "\<bar>sint w\<bar> \<le> 2 ^ 22 \<Longrightarrow> f32_of_int64 w = F_Fin (of_int (sint w))"
  unfolding f32_of_int64_def by (rule round32_int)

lemma fval_round32: "\<bar>rnd q\<bar> < 2 ^ 128 \<Longrightarrow> ffinite (round32 q) \<and> fval (round32 q) = rnd q"
  by (auto simp: round32_def Let_def)

lemma fval_fzero [simp]: "fval (fzero s) = 0" "ffinite (fzero s)"
  by (simp_all add: fzero_def)

lemma fzero_not: "\<not> fis_nan (fzero s) \<and> \<not> fis_inf (fzero s)"
  by (simp add: fzero_def)

lemma fval_fneg: "fval (fneg x) = - fval x"
  by (cases x) simp_all

lemma ffinite_fneg [simp]: "ffinite (fneg x) = ffinite x"
  by (cases x) simp_all

lemma fadd_finite:
  assumes "ffinite x" and "ffinite y" and "\<bar>rnd (fval x + fval y)\<bar> < 2 ^ 128"
  shows "ffinite (fadd x y) \<and> fval (fadd x y) = rnd (fval x + fval y)"
  using assms by (cases x; cases y) (simp_all add: fval_round32)

lemma fsub_finite:
  assumes "ffinite x" and "ffinite y" and "\<bar>rnd (fval x - fval y)\<bar> < 2 ^ 128"
  shows "ffinite (fsub x y) \<and> fval (fsub x y) = rnd (fval x - fval y)"
  using fadd_finite [of x "fneg y"] assms by (simp add: fsub_def fval_fneg)

lemma fmul_finite:
  assumes "ffinite x" and "ffinite y" and "\<bar>rnd (fval x * fval y)\<bar> < 2 ^ 128"
  shows "ffinite (fmul x y) \<and> fval (fmul x y) = rnd (fval x * fval y)"
  using assms fval_round32 [of "fval x * fval y"] fzero_not [of "fsign x \<noteq> fsign y"]
  by (auto simp: fmul_def ffinite_def Let_def)

lemma fdiv_finite:
  assumes "ffinite x" and "ffinite y" and "fval y \<noteq> 0" and "\<bar>rnd (fval x / fval y)\<bar> < 2 ^ 128"
  shows "ffinite (fdiv x y) \<and> fval (fdiv x y) = rnd (fval x / fval y)"
  using assms fval_round32 [of "fval x / fval y"] fzero_not [of "fsign x \<noteq> fsign y"]
  by (auto simp: fdiv_def ffinite_def Let_def)

lemma flt_finite: "ffinite x \<Longrightarrow> ffinite y \<Longrightarrow> flt x y = (fval x < fval y)"
  by (cases x; cases y) simp_all

lemma fge_finite: "ffinite x \<Longrightarrow> ffinite y \<Longrightarrow> fge x y = (fval y \<le> fval x)"
  by (auto simp: fge_def flt_finite ffinite_def)

lemma f32_to_int64_finite:
  "ffinite x \<Longrightarrow> in_int64 (trunc (fval x)) \<Longrightarrow> f32_to_int64 cv x = word_of_int (trunc (fval x))"
  by (simp add: f32_to_int64_def)

lemma trunc_between: "0 \<le> q \<Longrightarrow> q \<le> of_int b \<Longrightarrow> 0 \<le> trunc q \<and> trunc q \<le> b"
  by (simp add: trunc_def) (metis floor_mono floor_of_int)

subsection \<open>Every operation yields a float32\<close>

lemma ulp_exp_ge: "- 149 \<le> ulp_exp q"
  by (simp add: ulp_exp_def)

lemma scaled_mantissa_le: "0 < q \<Longrightarrow> q / 2 powi ulp_exp q \<le> 2 ^ 24"
proof -
  assume q: "0 < q"
  have "q < 2 powi (flog2 q + 1)" using flog2_bounds [OF q] by simp
  also have "\<dots> \<le> 2 powi (24 + ulp_exp q)" by (rule powi_le) (simp add: ulp_exp_def)
  also have "\<dots> = 2 ^ 24 * 2 powi ulp_exp q" by (simp add: power_int_add)
  finally show ?thesis by (simp add: divide_le_eq)
qed

lemma repr_rnd_mag: "0 < q \<Longrightarrow> repr (rnd_mag q)"
proof -
  assume q: "0 < q"
  let ?m = "rne (q / 2 powi ulp_exp q)"
  have "?m \<le> 2 ^ 24" using scaled_mantissa_le [OF q] by (intro rne_le_of_int) simp
  moreover have "0 \<le> ?m" using q by (intro of_int_le_rne) simp
  ultimately show ?thesis
    by (intro reprI [OF rnd_mag_def]) (simp_all add: ulp_exp_ge)
qed

lemma repr_rnd: "repr (rnd q)"
  using repr_rnd_mag [of q] repr_uminus [OF repr_rnd_mag [of "- q"]] repr_int [of 0]
  by (auto simp: rnd_def)

text \<open>The values of a float32, and that all operations stay among them.\<close>

definition f32_ok :: "f32 \<Rightarrow> bool" where
  "f32_ok x \<longleftrightarrow> repr (fval x) \<and> \<bar>fval x\<bar> < 2 ^ 128"

lemma f32_ok_round32: "f32_ok (round32 q)"
  using repr_int [of 0] by (auto simp: f32_ok_def round32_def Let_def repr_rnd)

lemma f32_ok_special [simp]: "f32_ok F_NaN" "f32_ok (F_Inf s)" "f32_ok F_NegZero" "f32_ok (F_Fin 0)"
  using repr_int [of 0] by (simp_all add: f32_ok_def)

lemma f32_ok_fneg: "f32_ok x \<Longrightarrow> f32_ok (fneg x)"
  by (simp add: f32_ok_def fval_fneg repr_uminus)

lemma f32_ok_fadd: "f32_ok x \<Longrightarrow> f32_ok y \<Longrightarrow> f32_ok (fadd x y)"
  by (cases x; cases y) (simp_all add: f32_ok_round32)

lemma f32_ok_fsub: "f32_ok x \<Longrightarrow> f32_ok y \<Longrightarrow> f32_ok (fsub x y)"
  by (simp add: fsub_def f32_ok_fadd f32_ok_fneg)

lemma f32_ok_fzero: "f32_ok (fzero s)"
  by (simp add: fzero_def)

lemma f32_ok_fmul: "f32_ok (fmul x y)"
  by (simp add: fmul_def Let_def f32_ok_round32 f32_ok_fzero)

lemma f32_ok_fdiv: "f32_ok (fdiv x y)"
  by (simp add: fdiv_def Let_def f32_ok_round32 f32_ok_fzero)

lemmas f32_ok_intros = f32_ok_round32 f32_ok_fneg f32_ok_fadd f32_ok_fsub f32_ok_fzero f32_ok_fmul f32_ok_fdiv

text \<open>A difference of different float32 numbers does not round to zero.\<close>

lemma repr_grid: "repr q \<Longrightarrow> \<exists>n. q = of_int n * 2 powi (- 149)"
proof -
  assume "repr q"
  then obtain m e where me: "q = of_int m * 2 powi e" "- 149 \<le> e" by (auto simp: repr_def)
  then have "q = of_int (m * 2 ^ nat (e + 149)) * 2 powi (- 149)"
    using powi_split [of "- 149" e] by simp
  then show ?thesis by blast
qed

lemma rnd_diff_pos: "repr a \<Longrightarrow> repr b \<Longrightarrow> a < b \<Longrightarrow> 0 < rnd (b - a)"
proof -
  assume "repr a" "repr b" and lt: "a < b"
  then obtain m n where mn: "a = of_int m * 2 powi (- 149)" "b = of_int n * 2 powi (- 149)"
    using repr_grid by metis
  with lt have "m < n" by simp
  then have "1 \<le> n - m" by simp
  then have "of_int 1 * 2 powi (- 149) \<le> (of_int (n - m) :: rat) * 2 powi (- 149)"
    by (intro mult_right_mono) (simp_all only: of_int_le_iff, simp)
  then have le: "2 powi (- 149) \<le> b - a" by (simp add: mn left_diff_distrib)
  have "rnd (2 powi (- 149)) = 2 powi (- 149)"
    by (intro rnd_repr reprI [of _ 1 "- 149"]) simp_all
  with rnd_mono [OF le] have "2 powi (- 149) \<le> rnd (b - a)" by simp
  then show ?thesis using two_powi_pos [of "- 149"] by linarith
qed

text \<open>Values that are neither NaN nor below zero.\<close>

definition fnonneg :: "f32 \<Rightarrow> bool" where
  "fnonneg x \<longleftrightarrow> x = F_Inf False \<or> (ffinite x \<and> 0 \<le> fval x)"

lemma fnonneg_simps [simp]:
  "\<not> fnonneg F_NaN" "fnonneg (F_Inf s) = (\<not> s)" "fnonneg (F_Fin q) = (0 \<le> q)" "fnonneg F_NegZero"
  by (auto simp: fnonneg_def)

lemma fnonneg_not_nan: "fnonneg x \<Longrightarrow> \<not> fis_nan x"
  by (auto simp: fnonneg_def ffinite_def)

lemma fnonneg_fzero [simp]: "fnonneg (fzero s)"
  by (simp add: fzero_def)

lemma fnonneg_round32: "0 \<le> q \<Longrightarrow> fnonneg (round32 q)"
  using f32.rd_nonneg [of q] by (auto simp: round32_def Let_def)

lemma fnonneg_fadd: "fnonneg x \<Longrightarrow> fnonneg y \<Longrightarrow> fnonneg (fadd x y)"
  by (cases x; cases y) (simp_all add: fnonneg_round32)

lemma fnonneg_finite: "ffinite x \<Longrightarrow> fnonneg x \<longleftrightarrow> 0 \<le> fval x"
  by (auto simp: fnonneg_def ffinite_def)

lemma fnonneg_fmul:
  "fnonneg x \<Longrightarrow> fnonneg y \<Longrightarrow> ffinite x \<Longrightarrow> ffinite y \<Longrightarrow> fnonneg (fmul x y)"
  by (simp add: fmul_def Let_def fnonneg_finite fnonneg_round32 ffinite_def)

lemma fnonneg_sign: "fnonneg x \<Longrightarrow> fval x \<noteq> 0 \<or> fis_inf x \<Longrightarrow> \<not> fsign x"
  by (cases x) auto

lemma fnonneg_fdiv:
  "fnonneg x \<Longrightarrow> fnonneg y \<Longrightarrow> ffinite y \<Longrightarrow> 0 < fval y \<Longrightarrow> fnonneg (fdiv x y)"
  by (cases x; cases y) (simp_all add: fdiv_def Let_def fnonneg_round32)

end
