(* ===== verification/GoParseFloat.thy ===== *)
theory GoParseFloat
  imports GoFloat
begin

text \<open>
  \<open>strconv.ParseFloat(s, 32)\<close>: decimal and hexadecimal literals, exponents, the special
  names, underscores where Go literals allow them. The program uses the value only when the
  error is nil, so an error of either kind is \<open>None\<close>. The text is read to an exact rational
  that is rounded once, which is what the documentation of ParseFloat promises.
\<close>

section \<open>Scanning\<close>

definition is_hex_letter :: "char \<Rightarrow> bool" where
  "is_hex_letter c \<longleftrightarrow> (let n = (of_char (to_lower_char c) :: nat) in 97 \<le> n \<and> n \<le> 102)"

definition mant_digit :: "bool \<Rightarrow> char \<Rightarrow> nat option" where
  "mant_digit hex c =
     (if is_digit c then Some (digit_val c)
      else if hex \<and> is_hex_letter c then Some (of_char (to_lower_char c) - 87) else None)"

text \<open>State of the mantissa scan: value, digits after the point, point seen, digits seen, underscores seen.\<close>

record scan =
  sc_mant :: nat
  sc_frac :: int
  sc_dot :: bool
  sc_digits :: bool
  sc_under :: bool

definition scan_init :: scan where
  "scan_init = \<lparr>sc_mant = 0, sc_frac = 0, sc_dot = False, sc_digits = False, sc_under = False\<rparr>"

fun scan_mant :: "bool \<Rightarrow> string \<Rightarrow> scan \<Rightarrow> scan \<times> string" where
  "scan_mant hex [] st = (st, [])"
| "scan_mant hex (c # cs) st =
     (if c = CHR ''_'' then scan_mant hex cs (st\<lparr>sc_under := True\<rparr>)
      else if c = CHR ''.'' then
        (if sc_dot st then (st, c # cs) else scan_mant hex cs (st\<lparr>sc_dot := True\<rparr>))
      else case mant_digit hex c of
        None \<Rightarrow> (st, c # cs)
      | Some d \<Rightarrow>
          scan_mant hex cs
            (st\<lparr>sc_mant := (if hex then 16 else 10) * sc_mant st + d,
                sc_frac := sc_frac st + (if sc_dot st then 1 else 0), sc_digits := True\<rparr>))"

text \<open>The exponent digits; the accumulator stops growing at 10000. The result tells whether an underscore was seen.\<close>

fun scan_exp :: "string \<Rightarrow> int \<Rightarrow> bool \<Rightarrow> int \<times> bool \<times> string" where
  "scan_exp [] e u = (e, u, [])"
| "scan_exp (c # cs) e u =
     (if c = CHR ''_'' then scan_exp cs e True
      else if is_digit c then scan_exp cs (if e < 10000 then 10 * e + int (digit_val c) else e) u
      else (e, u, c # cs))"

text \<open>\<open>underscoreOK\<close>: an underscore stands between digits or after a base prefix. \<open>saw\<close> is the last character class.\<close>

fun underscore_loop :: "bool \<Rightarrow> char \<Rightarrow> string \<Rightarrow> bool" where
  "underscore_loop hex saw [] = (saw \<noteq> CHR ''_'')"
| "underscore_loop hex saw (c # cs) =
     (if is_digit c \<or> (hex \<and> is_hex_letter c) then underscore_loop hex (CHR ''0'') cs
      else if c = CHR ''_'' then (if saw \<noteq> CHR ''0'' then False else underscore_loop hex (CHR ''_'') cs)
      else if saw = CHR ''_'' then False
      else underscore_loop hex (CHR ''!'') cs)"

definition strip_sign :: "string \<Rightarrow> string" where
  "strip_sign s = (case s of [] \<Rightarrow> [] | c # cs \<Rightarrow> if c = CHR ''+'' \<or> c = CHR ''-'' then cs else s)"

definition underscore_ok :: "string \<Rightarrow> bool" where
  "underscore_ok s0 =
     (let s = strip_sign s0 in
      case s of
        a # b # cs \<Rightarrow>
          if a = CHR ''0'' \<and> to_lower_char b \<in> {CHR ''b'', CHR ''o'', CHR ''x''}
          then underscore_loop (to_lower_char b = CHR ''x'') (CHR ''0'') cs
          else underscore_loop False (CHR ''^'') s
      | _ \<Rightarrow> underscore_loop False (CHR ''^'') s)"

section \<open>ParseFloat\<close>

definition parse_special :: "string \<Rightarrow> f32 option" where
  "parse_special s =
     (let l = to_lower s; body = strip_sign l in
      if l = ''nan'' then Some F_NaN
      else if body = ''inf'' \<or> body = ''infinity'' then Some (F_Inf (hd s = CHR ''-''))
      else None)"

definition read_exponent :: "bool \<Rightarrow> string \<Rightarrow> (int \<times> bool) option" where
  "read_exponent hex rest =
     (case rest of
        [] \<Rightarrow> if hex then None else Some (0, False)
      | c # cs \<Rightarrow>
          if to_lower_char c \<noteq> (if hex then CHR ''p'' else CHR ''e'') then None
          else let neg = (cs \<noteq> [] \<and> hd cs = CHR ''-''); ds = strip_sign cs in
            if ds = [] \<or> \<not> is_digit (hd ds) then None
            else case scan_exp ds 0 False of (e, u, left) \<Rightarrow>
              if left \<noteq> [] then None else Some (if neg then - e else e, u))"

definition signed_round :: "bool \<Rightarrow> rat \<Rightarrow> f32 option" where
  "signed_round neg q =
     (if q = 0 then Some (fzero neg)
      else case round32 (if neg then - q else q) of F_Inf s \<Rightarrow> None | x \<Rightarrow> Some x)"

definition read_float :: "string \<Rightarrow> f32 option" where
  "read_float s =
     (let neg = (s \<noteq> [] \<and> hd s = CHR ''-''); body = strip_sign s;
          hex = (2 < length body \<and> body ! 0 = CHR ''0'' \<and> to_lower_char (body ! 1) = CHR ''x'')
      in case scan_mant hex (if hex then drop 2 body else body) scan_init of (st, rest) \<Rightarrow>
        if \<not> sc_digits st then None
        else case read_exponent hex rest of
          None \<Rightarrow> None
        | Some (e, u) \<Rightarrow>
            if (sc_under st \<or> u) \<and> \<not> underscore_ok s then None
            else signed_round neg
              (of_nat (sc_mant st) * (if hex then 2 powi (e - 4 * sc_frac st) else 10 powi (e - sc_frac st))))"

definition parse_float32 :: "string \<Rightarrow> f32 option" where
  "parse_float32 s = (case parse_special s of Some x \<Rightarrow> Some x | None \<Rightarrow> read_float s)"

lemma parse_float32_Nil [simp]: "parse_float32 [] = None"
  by (simp add: parse_float32_def parse_special_def to_lower_def strip_sign_def read_float_def
      scan_init_def)

text \<open>Checks against values that can be read off by hand.\<close>

lemma parse_float32_examples:
  "parse_float32 ''0.75'' = Some (F_Fin (3 / 4))"
  "parse_float32 ''-4'' = Some (F_Fin (- 4))"
  "parse_float32 ''1_0.5e-1'' = Some (F_Fin (4404019 / 4194304))"
  "parse_float32 ''0x1.8p1'' = Some (F_Fin 3)"
  "parse_float32 ''NaN'' = Some F_NaN"
  "parse_float32 ''-Inf'' = Some (F_Inf True)"
  "parse_float32 ''1e39'' = None"
  "parse_float32 ''abc'' = None"
  "parse_float32 ''1__0'' = None"
  by code_simp+

text \<open>Whatever parses is a float32.\<close>

lemma signed_round_ok: "signed_round neg q = Some x \<Longrightarrow> f32_ok x"
  using f32_ok_round32 [of "if neg then - q else q"]
  by (auto simp: signed_round_def f32_ok_fzero split: if_splits f32.splits)

lemma read_float_ok: "read_float s = Some x \<Longrightarrow> f32_ok x"
  by (auto simp: read_float_def Let_def split: prod.splits if_splits option.splits dest: signed_round_ok)

lemma parse_float32_ok: "parse_float32 s = Some x \<Longrightarrow> f32_ok x"
  by (auto simp: parse_float32_def parse_special_def Let_def split: option.splits if_splits dest: read_float_ok)

end
