(* ===== verification/Usage.thy ===== *)
theory Usage
  imports GoParseFloat KubeModel
begin

text \<open>
  pkg/workoffload/prometheus/usage: what the strategy knows of the cluster. The maps of
  pointers of the Go code are finite maps from keys to records; a pointer to an entry is its
  key, so the pods of a service are a list of keys of the pod map. Counters are int64 and wrap,
  percentages and latencies are float32.
\<close>

section \<open>pressure.go, metric.go, constants.go\<close>

datatype pressure = LowPressure | HighPressure

text \<open>Pressure is an int enumerated with iota: low is less than high.\<close>

instantiation pressure :: linorder
begin

definition less_eq_pressure :: "pressure \<Rightarrow> pressure \<Rightarrow> bool" where
  "less_eq_pressure p q \<longleftrightarrow> p = LowPressure \<or> q = HighPressure"

definition less_pressure :: "pressure \<Rightarrow> pressure \<Rightarrow> bool" where
  "less_pressure p q \<longleftrightarrow> p = LowPressure \<and> q = HighPressure"

instance
proof
  fix x y z :: pressure
  show "(x < y) = (x \<le> y \<and> \<not> y \<le> x)" by (cases x; cases y) (simp_all add: less_pressure_def less_eq_pressure_def)
  show "x \<le> x" by (cases x) (simp_all add: less_eq_pressure_def)
  show "x \<le> y \<Longrightarrow> y \<le> z \<Longrightarrow> x \<le> z" by (cases x; cases y; cases z) (simp_all add: less_eq_pressure_def)
  show "x \<le> y \<Longrightarrow> y \<le> x \<Longrightarrow> x = y" by (cases x; cases y) (simp_all add: less_eq_pressure_def)
  show "x \<le> y \<or> y \<le> x" by (cases x; cases y) (simp_all add: less_eq_pressure_def)
qed

end

fun pressure_String :: "pressure \<Rightarrow> string" where
  "pressure_String LowPressure = ''LowPressure''"
| "pressure_String HighPressure = ''HighPressure''"

definition CPU_PRESSURE_THRESHOLD :: f32 where "CPU_PRESSURE_THRESHOLD = F_Fin 80"
definition MEM_PRESSURE_THRESHOLD :: f32 where "MEM_PRESSURE_THRESHOLD = F_Fin 80"
definition NODE_PRESSURE_THRESHOLD :: f32 where "NODE_PRESSURE_THRESHOLD = F_Fin 66"

record usage_metric =
  um_percentage :: f32
  um_usage :: int64
  um_capacity :: int64

definition metric_zero :: usage_metric where
  "metric_zero = \<lparr>um_percentage = F_Fin 0, um_usage = 0, um_capacity = 0\<rparr>"

text \<open>\<open>float32(usage) / float32(capacity) * 100.0\<close>\<close>

definition percent_of :: "int64 \<Rightarrow> int64 \<Rightarrow> f32" where
  "percent_of usage capacity = fmul (fdiv (f32_of_int64 usage) (f32_of_int64 capacity)) (F_Fin 100)"

text \<open>A \<open>resource.Quantity\<close>, as its two readings \<open>MilliValue()\<close> and \<open>Value()\<close>.\<close>

record quantity =
  q_milli :: int64
  q_value :: int64

definition quantity_zero :: quantity where
  "quantity_zero = \<lparr>q_milli = 0, q_value = 0\<rparr>"

definition LatencyRatioTargetAnnotation :: string where
  "LatencyRatioTargetAnnotation = ''strategy.edge.jevv.dev/latency-ratio-target''"
definition LatencyRatioSoftLimitAnnotation :: string where
  "LatencyRatioSoftLimitAnnotation = ''strategy.edge.jevv.dev/latency-ratio-soft-limit''"
definition LatencyRatioHardLimitAnnotation :: string where
  "LatencyRatioHardLimitAnnotation = ''strategy.edge.jevv.dev/latency-ratio-hard-limit''"
definition LatencyRatioDecayAnnotation :: string where
  "LatencyRatioDecayAnnotation = ''strategy.edge.jevv.dev/latency-ratio-decay''"

definition LatencyRatioTargetDefault :: f32 where "LatencyRatioTargetDefault = F_Fin 1"
definition LatencyRatioSoftLimitDefault :: f32 where "LatencyRatioSoftLimitDefault = F_Fin (7 / 4)"
definition LatencyRatioHardLimitDefault :: f32 where "LatencyRatioHardLimitDefault = F_Fin 4"
definition LatencyRatioDecayDefault :: f32 where "LatencyRatioDecayDefault = F_Fin (3 / 4)"

section \<open>State\<close>

record node_usage =
  nu_name :: string
  nu_cpu :: usage_metric
  nu_memory :: usage_metric
  nu_cpu_pressure :: pressure
  nu_memory_pressure :: pressure

record pod_usage =
  pu_name :: string
  pu_namespace :: string
  pu_node :: string
  pu_cpu :: usage_metric
  pu_memory :: usage_metric
  pu_storage :: usage_metric

record kservice_usage =
  ku_name :: string
  ku_namespace :: string
  ku_pods :: "string list"
  ku_cpu :: usage_metric
  ku_memory :: usage_metric
  ku_cpu_pressure :: pressure
  ku_memory_pressure :: pressure
  ku_latency_pressure :: pressure
  ku_latency :: f32
  ku_soft_limit :: f32
  ku_hard_limit :: f32
  ku_latencies :: "f32 list option"
  ku_decay :: f32
  ku_target :: f32

record cluster_usage =
  cu_cpu :: usage_metric
  cu_memory :: usage_metric
  cu_cpu_pressure :: pressure
  cu_memory_pressure :: pressure
  cu_pods :: "(string, pod_usage) fmap"
  cu_nodes :: "(string, node_usage) fmap"
  cu_services :: "(string, kservice_usage) fmap"

definition NewClusterUsage :: cluster_usage where
  "NewClusterUsage = \<lparr>cu_cpu = metric_zero, cu_memory = metric_zero,
     cu_cpu_pressure = LowPressure, cu_memory_pressure = LowPressure,
     cu_pods = fmempty, cu_nodes = fmempty, cu_services = fmempty\<rparr>"

text \<open>Changing the entry a pointer refers to.\<close>

definition upd_at :: "string \<Rightarrow> ('v \<Rightarrow> 'v) \<Rightarrow> (string, 'v) fmap \<Rightarrow> (string, 'v) fmap" where
  "upd_at k f m = (case fmlookup m k of None \<Rightarrow> m | Some v \<Rightarrow> fmupd k (f v) m)"

text \<open>Adding up a value over all entries: the order of a Go map does not matter to a sum that wraps.\<close>

definition map_sum :: "('v \<Rightarrow> 'n) \<Rightarrow> (string, 'v) fmap \<Rightarrow> 'n :: comm_monoid_add" where
  "map_sum f m = (\<Sum>k\<in>fset (fmdom m). case fmlookup m k of None \<Rightarrow> 0 | Some v \<Rightarrow> f v)"

section \<open>node.go\<close>

record node =
  nd_name :: string
  nd_cpu :: quantity
  nd_memory :: quantity

record node_metrics =
  nm_name :: string
  nm_cpu :: quantity
  nm_memory :: quantity

definition node_percentage :: "usage_metric \<Rightarrow> usage_metric" where
  "node_percentage m =
     m\<lparr>um_percentage := (if sint (um_capacity m) \<le> 0 then F_Fin 0 else percent_of (um_usage m) (um_capacity m))\<rparr>"

definition node_UpdateCpuCapacity :: "quantity option \<Rightarrow> node_usage \<Rightarrow> node_usage" where
  "node_UpdateCpuCapacity q n =
     (case q of None \<Rightarrow> n | Some x \<Rightarrow> n\<lparr>nu_cpu := node_percentage ((nu_cpu n)\<lparr>um_capacity := q_milli x\<rparr>)\<rparr>)"

definition node_UpdateCpuUsage :: "quantity option \<Rightarrow> node_usage \<Rightarrow> node_usage" where
  "node_UpdateCpuUsage q n =
     (case q of None \<Rightarrow> n | Some x \<Rightarrow> n\<lparr>nu_cpu := node_percentage ((nu_cpu n)\<lparr>um_usage := q_milli x\<rparr>)\<rparr>)"

definition node_UpdateMemoryCapacity :: "quantity option \<Rightarrow> node_usage \<Rightarrow> node_usage" where
  "node_UpdateMemoryCapacity q n =
     (case q of None \<Rightarrow> n | Some x \<Rightarrow> n\<lparr>nu_memory := node_percentage ((nu_memory n)\<lparr>um_capacity := q_value x\<rparr>)\<rparr>)"

definition node_UpdateMemoryUsage :: "quantity option \<Rightarrow> node_usage \<Rightarrow> node_usage" where
  "node_UpdateMemoryUsage q n =
     (case q of None \<Rightarrow> n | Some x \<Rightarrow> n\<lparr>nu_memory := node_percentage ((nu_memory n)\<lparr>um_usage := q_value x\<rparr>)\<rparr>)"

definition node_usage_new :: "string \<Rightarrow> node_usage" where
  "node_usage_new name = \<lparr>nu_name = name, nu_cpu = metric_zero, nu_memory = metric_zero,
     nu_cpu_pressure = LowPressure, nu_memory_pressure = LowPressure\<rparr>"

definition AddNode :: "node \<Rightarrow> cluster_usage \<Rightarrow> cluster_usage" where
  "AddNode node c =
     (case fmlookup (cu_nodes c) (nd_name node) of
        Some _ \<Rightarrow> c
      | None \<Rightarrow>
          let usage = node_UpdateMemoryCapacity (Some (nd_memory node))
                (node_UpdateCpuCapacity (Some (nd_cpu node)) (node_usage_new (nd_name node)))
          in c\<lparr>cu_nodes := fmupd (nd_name node) usage (cu_nodes c)\<rparr>)"

definition UpdateNodeMetrics :: "node_metrics \<Rightarrow> cluster_usage \<Rightarrow> cluster_usage" where
  "UpdateNodeMetrics metric c =
     (let c1 = AddNode \<lparr>nd_name = nm_name metric, nd_cpu = quantity_zero, nd_memory = quantity_zero\<rparr> c
      in c1\<lparr>cu_nodes := upd_at (nm_name metric)
            (\<lambda>n. node_UpdateMemoryUsage (Some (nm_memory metric)) (node_UpdateCpuUsage (Some (nm_cpu metric)) n))
            (cu_nodes c1)\<rparr>)"

definition node_finalize :: "node_usage \<Rightarrow> node_usage" where
  "node_finalize n =
     n\<lparr>nu_cpu_pressure :=
         (if fge (um_percentage (nu_cpu n)) CPU_PRESSURE_THRESHOLD then HighPressure else LowPressure),
       nu_memory_pressure :=
         (if fge (um_percentage (nu_memory n)) MEM_PRESSURE_THRESHOLD then HighPressure else LowPressure)\<rparr>"

definition FinalizeNodeMetrics :: "cluster_usage \<Rightarrow> cluster_usage" where
  "FinalizeNodeMetrics c = c\<lparr>cu_nodes := fmmap node_finalize (cu_nodes c)\<rparr>"

section \<open>kservice.go\<close>

definition kservice_new :: "string \<Rightarrow> string \<Rightarrow> kservice_usage" where
  "kservice_new name namespace = \<lparr>ku_name = name, ku_namespace = namespace, ku_pods = [],
     ku_cpu = metric_zero, ku_memory = metric_zero, ku_cpu_pressure = LowPressure,
     ku_memory_pressure = LowPressure, ku_latency_pressure = LowPressure, ku_latency = F_Fin 0,
     ku_soft_limit = F_Fin 0, ku_hard_limit = F_Fin 0, ku_latencies = None,
     ku_decay = F_Fin 0, ku_target = F_Fin 0\<rparr>"

definition usage_key :: "string \<Rightarrow> string \<Rightarrow> string" where
  "usage_key name namespace = nsname_str \<lparr>ns_namespace = namespace, ns_name = name\<rparr>"

definition AddKService :: "string \<Rightarrow> string \<Rightarrow> cluster_usage \<Rightarrow> cluster_usage" where
  "AddKService name namespace c =
     (let k = usage_key name namespace in
      case fmlookup (cu_services c) k of
        Some _ \<Rightarrow> c
      | None \<Rightarrow> c\<lparr>cu_services := fmupd k (kservice_new name namespace) (cu_services c)\<rparr>)"

text \<open>The value of an annotation if it parses, else what was there before.\<close>

definition annotation_float :: "gomap \<Rightarrow> string \<Rightarrow> f32 \<Rightarrow> f32" where
  "annotation_float annotations key dflt =
     (case parse_float32 (mget annotations key) of None \<Rightarrow> dflt | Some v \<Rightarrow> v)"

definition UpdateWithKService :: "service \<Rightarrow> kservice_usage \<Rightarrow> kservice_usage" where
  "UpdateWithKService service s =
     (let annotations = om_annotations (svc_meta service) in
      s\<lparr>ku_decay := annotation_float annotations LatencyRatioDecayAnnotation LatencyRatioDecayDefault,
        ku_target := annotation_float annotations LatencyRatioTargetAnnotation LatencyRatioTargetDefault,
        ku_soft_limit := annotation_float annotations LatencyRatioSoftLimitAnnotation LatencyRatioSoftLimitDefault,
        ku_hard_limit := annotation_float annotations LatencyRatioHardLimitAnnotation LatencyRatioHardLimitDefault\<rparr>)"

text \<open>The loop of \<open>UpdateWithPercentileRatio\<close>: a value that is no finite number repeats the last one.\<close>

fun ratio_loop :: "string list \<Rightarrow> f32 option \<Rightarrow> f32 list" where
  "ratio_loop [] lastValue = []"
| "ratio_loop (dataPoint # ds) lastValue =
     (case (case parse_float32 dataPoint of
              None \<Rightarrow> lastValue
            | Some v \<Rightarrow> if fis_nan v \<or> fis_inf v then lastValue else Some v) of
        None \<Rightarrow> ratio_loop ds lastValue
      | Some value \<Rightarrow> value # ratio_loop ds (Some value))"

definition UpdateWithPercentileRatio :: "string list \<Rightarrow> kservice_usage \<Rightarrow> kservice_usage" where
  "UpdateWithPercentileRatio data s = s\<lparr>ku_latencies := Some (ratio_loop data None)\<rparr>"

text \<open>The loop of \<open>FinalizeKServiceMetrics\<close>, over the latencies from the last one backwards.\<close>

record latency_acc =
  la_latency :: f32
  la_weights :: f32
  la_weight :: f32
  la_last :: "f32 option"

definition latency_init :: latency_acc where
  "latency_init = \<lparr>la_latency = F_Fin 0, la_weights = F_Fin 0, la_weight = F_Fin 1, la_last = None\<rparr>"

definition latency_add :: "f32 \<Rightarrow> f32 \<Rightarrow> latency_acc \<Rightarrow> latency_acc" where
  "latency_add decay latency a =
     \<lparr>la_latency = fadd (la_latency a) (fmul (la_weight a) latency),
      la_weights = fadd (la_weights a) (la_weight a),
      la_weight = fmul (la_weight a) decay,
      la_last = Some latency\<rparr>"

fun latency_loop :: "f32 \<Rightarrow> f32 list \<Rightarrow> latency_acc \<Rightarrow> latency_acc" where
  "latency_loop decay [] a = a"
| "latency_loop decay (latency # ls) a =
     (if fis_inf latency then latency_loop decay ls a
      else if fis_nan latency then
        (case la_last a of
           None \<Rightarrow> latency_loop decay ls a
         | Some l \<Rightarrow> latency_loop decay ls (latency_add decay l a))
      else latency_loop decay ls (latency_add decay latency a))"

definition kservice_finalize :: "kservice_usage \<Rightarrow> kservice_usage" where
  "kservice_finalize s =
     (case ku_latencies s of
        None \<Rightarrow> s
      | Some latencies \<Rightarrow>
          let a = latency_loop (ku_decay s) (rev latencies) latency_init;
              l = (if flt (F_Fin 0) (la_weights a) then fdiv (la_latency a) (la_weights a) else la_latency a)
          in s\<lparr>ku_latency := l\<rparr>)"

definition service_pod_sum :: "(pod_usage \<Rightarrow> int64) \<Rightarrow> (string, pod_usage) fmap \<Rightarrow> string list \<Rightarrow> int64" where
  "service_pod_sum f pods ks =
     sum_list (map (\<lambda>k. case fmlookup pods k of None \<Rightarrow> 0 | Some p \<Rightarrow> f p) ks)"

definition metric_finalize :: "usage_metric \<Rightarrow> usage_metric" where
  "metric_finalize m =
     (if 0 < sint (um_capacity m) then m\<lparr>um_percentage := percent_of (um_usage m) (um_capacity m)\<rparr> else m)"

definition cluster_finalize_service :: "cluster_usage \<Rightarrow> kservice_usage \<Rightarrow> kservice_usage" where
  "cluster_finalize_service c s =
     s\<lparr>ku_cpu := metric_finalize ((ku_cpu s)
         \<lparr>um_usage := service_pod_sum (\<lambda>p. um_usage (pu_cpu p)) (cu_pods c) (ku_pods s),
          um_capacity := um_capacity (cu_cpu c)\<rparr>),
       ku_memory := metric_finalize ((ku_memory s)
         \<lparr>um_usage := service_pod_sum (\<lambda>p. um_usage (pu_memory p)) (cu_pods c) (ku_pods s),
          um_capacity := um_capacity (cu_memory c)\<rparr>)\<rparr>"

definition cluster_FinalizeKServiceMetrics :: "cluster_usage \<Rightarrow> cluster_usage" where
  "cluster_FinalizeKServiceMetrics c =
     c\<lparr>cu_services := fmmap (cluster_finalize_service c) (cu_services c)\<rparr>"

section \<open>pod.go\<close>

record pod =
  pd_name :: string
  pd_namespace :: string
  pd_nominated :: string
  pd_node_name :: string
  pd_labels :: gomap

record container_usage =
  ct_cpu :: quantity
  ct_memory :: quantity
  ct_storage :: quantity

record pod_metrics =
  pm_name :: string
  pm_namespace :: string
  pm_containers :: "container_usage list"

definition pod_UpdateCpuUsage :: "quantity option \<Rightarrow> pod_usage \<Rightarrow> pod_usage" where
  "pod_UpdateCpuUsage q p =
     (case q of None \<Rightarrow> p
      | Some x \<Rightarrow> p\<lparr>pu_cpu := (pu_cpu p)\<lparr>um_usage := um_usage (pu_cpu p) + q_milli x\<rparr>\<rparr>)"

definition pod_UpdateMemoryUsage :: "quantity option \<Rightarrow> pod_usage \<Rightarrow> pod_usage" where
  "pod_UpdateMemoryUsage q p =
     (case q of None \<Rightarrow> p
      | Some x \<Rightarrow> p\<lparr>pu_memory := (pu_memory p)\<lparr>um_usage := um_usage (pu_memory p) + q_value x\<rparr>\<rparr>)"

definition pod_UpdateStorageUsage :: "quantity option \<Rightarrow> pod_usage \<Rightarrow> pod_usage" where
  "pod_UpdateStorageUsage q p =
     (case q of None \<Rightarrow> p
      | Some x \<Rightarrow> p\<lparr>pu_storage := (pu_storage p)\<lparr>um_usage := um_usage (pu_storage p) + q_value x\<rparr>\<rparr>)"

text \<open>Setting a capacity: the percentage is refreshed only for a positive one.\<close>

definition capacity_set :: "int64 \<Rightarrow> usage_metric \<Rightarrow> usage_metric" where
  "capacity_set capacity m = metric_finalize (m\<lparr>um_capacity := capacity\<rparr>)"

definition pod_UpdateCpuCapacity :: "int64 \<Rightarrow> pod_usage \<Rightarrow> pod_usage" where
  "pod_UpdateCpuCapacity capacity p = p\<lparr>pu_cpu := capacity_set capacity (pu_cpu p)\<rparr>"

definition pod_UpdateMemoryCapacity :: "int64 \<Rightarrow> pod_usage \<Rightarrow> pod_usage" where
  "pod_UpdateMemoryCapacity capacity p = p\<lparr>pu_memory := capacity_set capacity (pu_memory p)\<rparr>"

definition pod_UpdateStorageCapacity :: "int64 \<Rightarrow> pod_usage \<Rightarrow> pod_usage" where
  "pod_UpdateStorageCapacity capacity p = p\<lparr>pu_storage := capacity_set capacity (pu_storage p)\<rparr>"

definition pod_usage_new :: "pod \<Rightarrow> pod_usage" where
  "pod_usage_new p = \<lparr>pu_name = pd_name p, pu_namespace = pd_namespace p,
     pu_node = (if pd_nominated p = [] then pd_node_name p else pd_nominated p),
     pu_cpu = metric_zero, pu_memory = metric_zero, pu_storage = metric_zero\<rparr>"

text \<open>A new pod with a service label is appended to the pods of its service.\<close>

definition AddPod :: "pod \<Rightarrow> cluster_usage \<Rightarrow> cluster_usage" where
  "AddPod p c =
     (let k = usage_key (pd_name p) (pd_namespace p) in
      case fmlookup (cu_pods c) k of
        Some _ \<Rightarrow> c
      | None \<Rightarrow>
          let c1 = c\<lparr>cu_pods := fmupd k (pod_usage_new p) (cu_pods c)\<rparr> in
          if pd_labels p = None then c1
          else
            let serviceName = mget (pd_labels p) KServiceLabel in
            if serviceName = [] then c1
            else
              let c2 = AddKService serviceName (pd_namespace p) c1 in
              c2\<lparr>cu_services := upd_at (usage_key serviceName (pd_namespace p))
                    (\<lambda>s. s\<lparr>ku_pods := ku_pods s @ [k]\<rparr>) (cu_services c2)\<rparr>)"

definition add_container :: "container_usage \<Rightarrow> pod_usage \<Rightarrow> pod_usage" where
  "add_container ct p =
     pod_UpdateStorageUsage (Some (ct_storage ct))
       (pod_UpdateMemoryUsage (Some (ct_memory ct)) (pod_UpdateCpuUsage (Some (ct_cpu ct)) p))"

definition UpdatePodMetrics :: "pod_metrics \<Rightarrow> cluster_usage \<Rightarrow> cluster_usage" where
  "UpdatePodMetrics metric c =
     (let c1 = AddPod \<lparr>pd_name = pm_name metric, pd_namespace = pm_namespace metric, pd_nominated = [],
                      pd_node_name = [], pd_labels = None\<rparr> c
      in c1\<lparr>cu_pods := upd_at (usage_key (pm_name metric) (pm_namespace metric))
            (fold add_container (pm_containers metric)) (cu_pods c1)\<rparr>)"

definition pod_finalize :: "(string, node_usage) fmap \<Rightarrow> pod_usage \<Rightarrow> pod_usage" where
  "pod_finalize nodes p =
     (case fmlookup nodes (pu_node p) of
        None \<Rightarrow> p
      | Some n \<Rightarrow> pod_UpdateMemoryCapacity (um_capacity (nu_memory n))
                  (pod_UpdateCpuCapacity (um_capacity (nu_cpu n)) p))"

definition FinalizePodMetrics :: "cluster_usage \<Rightarrow> cluster_usage" where
  "FinalizePodMetrics c = c\<lparr>cu_pods := fmmap (pod_finalize (cu_nodes c)) (cu_pods c)\<rparr>"

section \<open>cluster.go\<close>

text \<open>
  \<open>float32(count) / float32(len(nodes)) * 100 >= threshold\<close>. For no nodes the quotient is
  0/0, which is NaN, and NaN is at no threshold.
\<close>

definition share_pressure :: "nat \<Rightarrow> nat \<Rightarrow> pressure" where
  "share_pressure count len =
     (if fge (fmul (fdiv (f32_of_int64 (of_nat count)) (f32_of_int64 (of_nat len))) (F_Fin 100))
          NODE_PRESSURE_THRESHOLD
      then HighPressure else LowPressure)"

definition nodes_with :: "(node_usage \<Rightarrow> pressure) \<Rightarrow> (string, node_usage) fmap \<Rightarrow> nat" where
  "nodes_with f m = map_sum (\<lambda>n. if f n = HighPressure then 1 else 0) m"

definition FinalizeClusterMetrics :: "cluster_usage \<Rightarrow> cluster_usage" where
  "FinalizeClusterMetrics c =
     (let ns = cu_nodes c; len = fcard (fmdom ns) in
      c\<lparr>cu_cpu := metric_finalize ((cu_cpu c)
          \<lparr>um_usage := map_sum (\<lambda>n. um_usage (nu_cpu n)) ns,
           um_capacity := map_sum (\<lambda>n. um_capacity (nu_cpu n)) ns\<rparr>),
        cu_memory := metric_finalize ((cu_memory c)
          \<lparr>um_usage := map_sum (\<lambda>n. um_usage (nu_memory n)) ns,
           um_capacity := map_sum (\<lambda>n. um_capacity (nu_memory n)) ns\<rparr>),
        cu_cpu_pressure := share_pressure (nodes_with nu_cpu_pressure ns) len,
        cu_memory_pressure := share_pressure (nodes_with nu_memory_pressure ns) len\<rparr>)"

definition UpdateFromPreviousState :: "cluster_usage option \<Rightarrow> cluster_usage \<Rightarrow> cluster_usage" where
  "UpdateFromPreviousState prev c = c"

section \<open>Facts: latencies\<close>

lemma ratio_loop_finite:
  "(\<forall>v. prev = Some v \<longrightarrow> ffinite v) \<Longrightarrow> list_all ffinite (ratio_loop ds prev)"
  by (induction ds prev rule: ratio_loop.induct)
    (auto simp: ffinite_def split: option.splits)

lemma ratio_loop_ok: "(\<forall>v. prev = Some v \<longrightarrow> f32_ok v) \<Longrightarrow> list_all f32_ok (ratio_loop ds prev)"
  by (induction ds prev rule: ratio_loop.induct) (auto split: option.splits simp: parse_float32_ok)

lemma ratio_loop_length: "length (ratio_loop ds prev) \<le> length ds"
  by (induction ds prev rule: ratio_loop.induct) (auto split: option.splits intro: le_SucI)

text \<open>From the first usable value on nothing is dropped: the series keeps its distances in time.\<close>

lemma ratio_loop_length_Some: "length (ratio_loop ds (Some v)) = length ds"
  by (induction ds arbitrary: v) (auto split: option.splits)

lemma ratio_loop_Cons:
  "parse_float32 d = Some v \<Longrightarrow> ffinite v \<Longrightarrow> ratio_loop (d # ds) prev = v # ratio_loop ds (Some v)"
  by (simp add: ffinite_def)

lemma ratio_loop_Cons_none:
  "parse_float32 d = None \<Longrightarrow> ratio_loop (d # ds) None = ratio_loop ds None"
  by simp

definition latency_ok :: "latency_acc \<Rightarrow> bool" where
  "latency_ok a \<longleftrightarrow> fnonneg (la_latency a) \<and> f32_ok (la_latency a) \<and>
     ffinite (la_weights a) \<and> 0 \<le> fval (la_weights a) \<and> fval (la_weights a) \<le> 16777216 \<and>
     f32_ok (la_weights a) \<and>
     ffinite (la_weight a) \<and> 0 \<le> fval (la_weight a) \<and> fval (la_weight a) \<le> 1 \<and> f32_ok (la_weight a) \<and>
     (\<forall>l. la_last a = Some l \<longrightarrow> ffinite l \<and> 0 \<le> fval l \<and> f32_ok l)"

lemma latency_ok_init: "latency_ok latency_init"
  by (simp add: latency_ok_def latency_init_def) (simp add: f32_ok_def repr_int [of 1, simplified])

lemma rnd_saturates: "rnd 16777217 = 16777216"
  by code_simp

lemma weights_add:
  assumes "ffinite x" "0 \<le> fval x" "fval x \<le> 16777216" "ffinite w" "0 \<le> fval w" "fval w \<le> 1"
  shows "ffinite (fadd x w) \<and> 0 \<le> fval (fadd x w) \<and> fval (fadd x w) \<le> 16777216"
proof -
  have "rnd (fval x + fval w) \<le> 16777216"
    using rnd_mono [of "fval x + fval w" 16777217] assms by (simp add: rnd_saturates)
  moreover have "0 \<le> rnd (fval x + fval w)" using assms by (intro f32.rd_nonneg) simp
  ultimately show ?thesis using fadd_finite [of x w] assms by simp
qed

lemma weight_decays:
  assumes "ffinite w" "0 \<le> fval w" "fval w \<le> 1" "ffinite d" "0 \<le> fval d" "fval d \<le> 1"
  shows "ffinite (fmul w d) \<and> 0 \<le> fval (fmul w d) \<and> fval (fmul w d) \<le> 1"
proof -
  have "fval w * fval d \<le> 1" using assms by (simp add: mult_le_one)
  then have "0 \<le> rnd (fval w * fval d) \<and> rnd (fval w * fval d) \<le> 1"
    using f32.rd_between [of 0 "fval w * fval d" 1] assms by simp
  then show ?thesis using fmul_finite [of w d] assms by simp
qed

lemma latency_ok_add:
  assumes "latency_ok a" "ffinite l" "0 \<le> fval l" "f32_ok l" "ffinite d" "0 \<le> fval d" "fval d \<le> 1"
  shows "latency_ok (latency_add d l a)"
  using assms weights_add [of "la_weights a" "la_weight a"] weight_decays [of "la_weight a" d]
  by (simp add: latency_ok_def latency_add_def f32_ok_intros fnonneg_fadd fnonneg_fmul fnonneg_finite)

lemma latency_loop_ok:
  assumes "ffinite d" "0 \<le> fval d" "fval d \<le> 1"
  shows "list_all (\<lambda>l. fnonneg l \<and> f32_ok l) ls \<Longrightarrow> latency_ok a \<Longrightarrow> latency_ok (latency_loop d ls a)"
proof (induction ls arbitrary: a)
  case (Cons l ls)
  then have l: "\<not> fis_nan l" "fnonneg l" "f32_ok l" by (simp_all add: fnonneg_not_nan)
  show ?case
  proof (cases "fis_inf l")
    case True
    then show ?thesis using Cons by simp
  next
    case False
    with l have "ffinite l" "0 \<le> fval l" by (auto simp: ffinite_def fnonneg_def)
    then have "latency_ok (latency_add d l a)" using Cons.prems l assms by (intro latency_ok_add)
    then show ?thesis using Cons l False by simp
  qed
qed simp

text \<open>The average of latencies that are not negative is neither NaN nor negative.\<close>

lemma kservice_finalize_nonneg:
  assumes "ffinite (ku_decay s)" "0 \<le> fval (ku_decay s)" "fval (ku_decay s) \<le> 1"
    and "ku_latencies s = Some ls" "list_all (\<lambda>l. fnonneg l \<and> f32_ok l) ls"
  shows "fnonneg (ku_latency (kservice_finalize s)) \<and> f32_ok (ku_latency (kservice_finalize s))"
proof -
  let ?a = "latency_loop (ku_decay s) (rev ls) latency_init"
  have "latency_ok ?a" using assms latency_ok_init by (intro latency_loop_ok) simp_all
  then have "fnonneg (la_latency ?a)" "f32_ok (la_latency ?a)" "ffinite (la_weights ?a)" "fnonneg (la_weights ?a)"
    by (simp_all add: latency_ok_def fnonneg_finite)
  then show ?thesis
    using assms(4) flt_finite [of "F_Fin 0" "la_weights ?a"]
    by (simp add: kservice_finalize_def Let_def fnonneg_fdiv f32_ok_fdiv)
qed

lemma kservice_finalize_None: "ku_latencies s = None \<Longrightarrow> kservice_finalize s = s"
  by (simp add: kservice_finalize_def)

lemma kservice_finalize_frame [edge_simps]:
  "ku_soft_limit (kservice_finalize s) = ku_soft_limit s"
  "ku_hard_limit (kservice_finalize s) = ku_hard_limit s"
  "ku_latencies (kservice_finalize s) = ku_latencies s"
  "ku_decay (kservice_finalize s) = ku_decay s"
  "ku_pods (kservice_finalize s) = ku_pods s"
  by (simp_all add: kservice_finalize_def Let_def split: option.split)

text \<open>Latencies are recomputed from the series, so finishing twice changes nothing.\<close>

lemma kservice_finalize_idem: "kservice_finalize (kservice_finalize s) = kservice_finalize s"
  by (simp add: kservice_finalize_def Let_def split: option.split)

lemma UpdateWithKService_frame [edge_simps]:
  "ku_latencies (UpdateWithKService v s) = ku_latencies s"
  "ku_latency (UpdateWithKService v s) = ku_latency s"
  "ku_pods (UpdateWithKService v s) = ku_pods s"
  by (simp_all add: UpdateWithKService_def Let_def)

lemma UpdateWithKService_idem:
  "UpdateWithKService v (kservice_finalize (UpdateWithKService v s)) = kservice_finalize (UpdateWithKService v s)"
  by (simp add: UpdateWithKService_def kservice_finalize_def Let_def split: option.split)

lemma annotation_float_ok: "f32_ok d \<Longrightarrow> f32_ok (annotation_float m k d)"
  by (simp add: annotation_float_def parse_float32_ok split: option.split)

section \<open>Facts: pressure\<close>

lemma share_fraction:
  assumes "count \<le> len" "0 < len" "len \<le> 4194304"
  shows "fmul (fdiv (f32_of_int64 (of_nat count)) (f32_of_int64 (of_nat len))) (F_Fin 100)
       = (if count = 0 then F_Fin 0 else round32 (rnd (of_nat count / of_nat len) * 100))"
proof -
  have sm: "f32_of_int64 (of_nat n) = F_Fin (of_nat n)" if "n \<le> 4194304" for n
    using that f32_of_int64_small [of "of_nat n"] by (simp add: sint_int64_of_nat)
  have q: "0 \<le> rnd (of_nat count / of_nat len :: rat)" "rnd (of_nat count / of_nat len) \<le> (1 :: rat)"
    using f32.rd_between [of 0 "of_nat count / of_nat len" 1] assms by (auto simp: divide_le_eq_1)
  then show ?thesis
    using assms sm [of count] sm [of len] fval_round32 [of "of_nat count / of_nat len"]
    by (auto simp: fdiv_def fmul_def fzero_def round32_def Let_def divide_less_0_iff)
qed

lemma share_pressure_iff:
  assumes "count \<le> len" "0 < len" "len \<le> 4194304"
  shows "share_pressure count len = HighPressure \<longleftrightarrow> 66 \<le> rnd (rnd (of_nat count / of_nat len) * 100)"
proof -
  let ?q = "rnd (of_nat count / of_nat len :: rat)"
  have q: "0 \<le> ?q" "?q \<le> 1"
    using f32.rd_between [of 0 "of_nat count / of_nat len" 1] assms by (auto simp: divide_le_eq_1)
  then have "0 \<le> rnd (?q * 100)" "rnd (?q * 100) \<le> 100"
    using f32.rd_percent [of ?q] by (simp_all add: mult.commute)
  then have "ffinite (round32 (?q * 100)) \<and> fval (round32 (?q * 100)) = rnd (?q * 100)"
    by (intro fval_round32) simp
  then show ?thesis
    using share_fraction [OF assms]
    by (auto simp: share_pressure_def NODE_PRESSURE_THRESHOLD_def fge_finite)
qed

text \<open>Without nodes the share is 0/0, and there is no pressure.\<close>

lemma share_pressure_empty: "share_pressure 0 0 = LowPressure"
  by code_simp

lemma share_pressure_mono:
  assumes "a \<le> b" "b \<le> len" "len \<le> 4194304"
  shows "share_pressure a len \<le> share_pressure b len"
proof (cases "len = 0")
  case True
  then show ?thesis using assms by simp
next
  case False
  have "rnd (of_nat a / of_nat len :: rat) \<le> rnd (of_nat b / of_nat len)"
    using assms by (intro rnd_mono divide_right_mono) simp_all
  then have "rnd (rnd (of_nat a / of_nat len :: rat) * 100) \<le> rnd (rnd (of_nat b / of_nat len) * 100)"
    by (intro rnd_mono) simp
  then show ?thesis
    using share_pressure_iff [of a len] share_pressure_iff [of b len] assms False
    by (cases "share_pressure a len"; cases "share_pressure b len") (auto simp: less_eq_pressure_def)
qed

lemma rnd_thresholds: "66 \<le> rnd (rnd (67 / 100) * 100)" "rnd (rnd (65 / 100) * 100) < 66"
  by code_simp+

lemma share_pressure_high:
  assumes "count \<le> len" "0 < len" "len \<le> 4194304" "67 * len \<le> 100 * count"
  shows "share_pressure count len = HighPressure"
proof -
  have "of_nat (67 * len) \<le> (of_nat (100 * count) :: rat)" using assms(4) by (simp only: of_nat_le_iff)
  then have "67 / 100 \<le> (of_nat count / of_nat len :: rat)" using assms(2) by (simp add: field_simps)
  then have "rnd (rnd (67 / 100) * 100) \<le> rnd (rnd (of_nat count / of_nat len) * 100)"
    by (intro rnd_mono mult_right_mono) simp_all
  then show ?thesis using share_pressure_iff [of count len] rnd_thresholds(1) assms by simp
qed

lemma share_pressure_low:
  assumes "count \<le> len" "0 < len" "len \<le> 4194304" "100 * count \<le> 65 * len"
  shows "share_pressure count len = LowPressure"
proof -
  have "of_nat (100 * count) \<le> (of_nat (65 * len) :: rat)" using assms(4) by (simp only: of_nat_le_iff)
  then have "(of_nat count / of_nat len :: rat) \<le> 65 / 100" using assms(2) by (simp add: field_simps)
  then have "rnd (rnd (of_nat count / of_nat len) * 100) \<le> rnd (rnd (65 / 100) * 100)"
    by (intro rnd_mono mult_right_mono) simp_all
  then have "\<not> 66 \<le> rnd (rnd (of_nat count / of_nat len) * 100)" using rnd_thresholds(2) by linarith
  then show ?thesis using share_pressure_iff [of count len] assms
    by (cases "share_pressure count len") auto
qed

section \<open>Facts: the pods of the services\<close>

text \<open>Every pod a service points to is in the pod map, and no pod is listed twice.\<close>

definition pods_inv :: "cluster_usage \<Rightarrow> bool" where
  "pods_inv c \<longleftrightarrow>
     (\<forall>k s. fmlookup (cu_services c) k = Some s \<longrightarrow>
        distinct (ku_pods s) \<and> set (ku_pods s) \<subseteq> fset (fmdom (cu_pods c)))"

lemma pods_inv_new: "pods_inv NewClusterUsage"
  by (simp add: pods_inv_def NewClusterUsage_def)

lemma pods_inv_AddKService: "pods_inv c \<Longrightarrow> pods_inv (AddKService n ns c)"
  by (auto simp: pods_inv_def AddKService_def Let_def kservice_new_def split: option.split if_splits)

lemma fmlookup_upd_at [edge_simps]:
  "fmlookup (upd_at k f m) j = (if j = k then map_option f (fmlookup m k) else fmlookup m j)"
  by (simp add: upd_at_def split: option.split)

lemma fmdom_upd_at [edge_simps]: "fmdom (upd_at k f m) = fmdom m"
  by (auto simp: upd_at_def fmdom_notD split: option.split intro: fmdomI)

lemma AddKService_pods [edge_simps]: "cu_pods (AddKService n ns c) = cu_pods c"
  by (simp add: AddKService_def Let_def split: option.split)

lemma AddKService_other:
  "fmlookup (cu_services (AddKService n ns c)) k =
     (if k = usage_key n ns \<and> fmlookup (cu_services c) k = None then Some (kservice_new n ns)
      else fmlookup (cu_services c) k)"
  by (auto simp: AddKService_def Let_def split: option.split)

lemma pods_inv_append:
  assumes "pods_inv d" "k \<in> fset (fmdom (cu_pods d))"
    and "\<And>i s. fmlookup (cu_services d) i = Some s \<Longrightarrow> k \<notin> set (ku_pods s)"
  shows "pods_inv (d\<lparr>cu_services := upd_at j (\<lambda>s. s\<lparr>ku_pods := ku_pods s @ [k]\<rparr>) (cu_services d)\<rparr>)"
  unfolding pods_inv_def
proof (intro allI impI)
  fix i s
  assume "fmlookup (cu_services (d\<lparr>cu_services := upd_at j (\<lambda>s. s\<lparr>ku_pods := ku_pods s @ [k]\<rparr>) (cu_services d)\<rparr>)) i = Some s"
  then have "fmlookup (cu_services d) i = Some s
      \<or> (\<exists>s'. fmlookup (cu_services d) i = Some s' \<and> ku_pods s = ku_pods s' @ [k])"
    by (auto simp: edge_simps split: if_splits)
  then show "distinct (ku_pods s) \<and> set (ku_pods s) \<subseteq> fset (fmdom (cu_pods
      (d\<lparr>cu_services := upd_at j (\<lambda>s. s\<lparr>ku_pods := ku_pods s @ [k]\<rparr>) (cu_services d)\<rparr>)))"
    using assms unfolding pods_inv_def by fastforce
qed

lemma pods_inv_AddPod:
  assumes "pods_inv c"
  shows "pods_inv (AddPod p c)"
proof (cases "fmlookup (cu_pods c) (usage_key (pd_name p) (pd_namespace p))")
  case None
  let ?k = "usage_key (pd_name p) (pd_namespace p)"
  let ?c1 = "c\<lparr>cu_pods := fmupd ?k (pod_usage_new p) (cu_pods c)\<rparr>"
  let ?c2 = "AddKService (mget (pd_labels p) KServiceLabel) (pd_namespace p) ?c1"
  have new: "?k \<notin> fset (fmdom (cu_pods c))" using None by (simp add: fmdom_notI)
  have inv1: "pods_inv ?c1" using assms by (fastforce simp: pods_inv_def)
  have no: "?k \<notin> set (ku_pods s)" if "fmlookup (cu_services ?c2) i = Some s" for i s
    using that assms new by (auto simp: AddKService_other pods_inv_def kservice_new_def split: if_splits)
  have "pods_inv (?c2\<lparr>cu_services := upd_at (usage_key (mget (pd_labels p) KServiceLabel) (pd_namespace p))
      (\<lambda>s. s\<lparr>ku_pods := ku_pods s @ [?k]\<rparr>) (cu_services ?c2)\<rparr>)"
    using inv1 no by (intro pods_inv_append pods_inv_AddKService) (simp_all add: edge_simps)
  then show ?thesis using None inv1 by (simp add: AddPod_def Let_def)
qed (use assms in \<open>simp add: AddPod_def Let_def\<close>)

lemma pods_inv_frame:
  "cu_services d = cu_services c \<Longrightarrow> fmdom (cu_pods d) = fmdom (cu_pods c) \<Longrightarrow> pods_inv c \<Longrightarrow> pods_inv d"
  by (simp add: pods_inv_def)

lemma pods_inv_UpdatePodMetrics: "pods_inv c \<Longrightarrow> pods_inv (UpdatePodMetrics m c)"
  unfolding UpdatePodMetrics_def Let_def
  by (rule pods_inv_frame [OF _ _ pods_inv_AddPod]) (simp_all add: edge_simps)

lemma pods_inv_FinalizePodMetrics: "pods_inv c \<Longrightarrow> pods_inv (FinalizePodMetrics c)"
  by (erule pods_inv_frame [rotated 2]) (simp_all add: FinalizePodMetrics_def)

lemma pods_inv_AddNode: "pods_inv c \<Longrightarrow> pods_inv (AddNode n c)"
  by (erule pods_inv_frame [rotated 2]) (simp_all add: AddNode_def Let_def split: option.split)

lemma pods_inv_UpdateNodeMetrics: "pods_inv c \<Longrightarrow> pods_inv (UpdateNodeMetrics m c)"
  unfolding UpdateNodeMetrics_def Let_def
  by (rule pods_inv_frame [OF _ _ pods_inv_AddNode]) simp_all

lemma pods_inv_FinalizeNodeMetrics: "pods_inv c \<Longrightarrow> pods_inv (FinalizeNodeMetrics c)"
  by (erule pods_inv_frame [rotated 2]) (simp_all add: FinalizeNodeMetrics_def)

lemma pods_inv_services:
  assumes "pods_inv c" "cu_pods d = cu_pods c"
    and "\<And>k s. fmlookup (cu_services d) k = Some s \<Longrightarrow>
      \<exists>s'. fmlookup (cu_services c) k = Some s' \<and> ku_pods s = ku_pods s'"
  shows "pods_inv d"
  using assms by (fastforce simp: pods_inv_def)

lemma pods_inv_FinalizeKServiceMetrics: "pods_inv c \<Longrightarrow> pods_inv (cluster_FinalizeKServiceMetrics c)"
  by (erule pods_inv_services) (auto simp: cluster_FinalizeKServiceMetrics_def cluster_finalize_service_def)

lemma pods_inv_FinalizeClusterMetrics: "pods_inv c \<Longrightarrow> pods_inv (FinalizeClusterMetrics c)"
  by (erule pods_inv_frame [rotated 2]) (simp_all add: FinalizeClusterMetrics_def Let_def)

lemmas pods_inv_steps = pods_inv_AddKService pods_inv_AddPod pods_inv_UpdatePodMetrics
  pods_inv_FinalizePodMetrics pods_inv_AddNode pods_inv_UpdateNodeMetrics pods_inv_FinalizeNodeMetrics
  pods_inv_FinalizeKServiceMetrics pods_inv_FinalizeClusterMetrics

end
