(* ===== verification/PromClient.thy ===== *)
theory PromClient
  imports ControllerUtils
begin

text \<open>
  pkg/workoffload/prometheus/client and queries.go: the queries, the decoding of an answer of
  the range query endpoint, the treatment of its status codes and the retries. The body of an
  answer is the JSON value it reads as; numbers keep their text, which the program never looks
  at; an object of the answer has no field twice. The HTTP transport is an argument.
\<close>

section \<open>query.go, queries.go\<close>

record prom_query =
  pq_query :: string
  pq_step :: string
  pq_lookback :: int
  pq_attempts :: "int option"

definition EvaluationPeriodInSeconds :: int where "EvaluationPeriodInSeconds = 60"
definition LookbackMultiplier :: int where "LookbackMultiplier = 5"

text \<open>The verbs of \<open>fmt.Sprintf\<close> are filled by splicing the arguments between the pieces of the format.\<close>

definition range_query :: "string \<Rightarrow> int \<Rightarrow> prom_query" where
  "range_query q lookback = \<lparr>pq_query = q, pq_step = ''1m'', pq_lookback = lookback, pq_attempts = None\<rparr>"

definition not_proxy :: string where
  "not_proxy = ''revision_name!~'' @ [CHR 34] @ ''.+'' @ EdgeProxySuffix @ ''-[0-9]+'' @ [CHR 34] @ ''}''"

definition quoted :: "string \<Rightarrow> string" where
  "quoted s = CHR 34 # s @ [CHR 34]"

definition ServiceRequestRate :: prom_query where
  "ServiceRequestRate = range_query
     (''sum by(service_name, namespace_name) (rate(activator_request_count{'' @ not_proxy @ ''[1m]))'')
     (3 * EvaluationPeriodInSeconds)"

definition ServiceRequestLatencySum :: prom_query where
  "ServiceRequestLatencySum = range_query
     (''sum by(service_name, namespace_name) (rate(activator_request_latencies_sum{'' @ not_proxy @ ''[1m]))'')
     (3 * EvaluationPeriodInSeconds)"

definition ServicePodCount :: prom_query where
  "ServicePodCount = range_query
     (''count by(service_name, namespace_name) (revision_app_request_count{'' @ not_proxy @ '')'')
     (3 * EvaluationPeriodInSeconds)"

definition latency_quantile :: "string \<Rightarrow> string" where
  "latency_quantile q =
     ''histogram_quantile('' @ q @ '', sum(rate(activator_request_latencies_bucket{response_code!=''
       @ quoted ''502'' @ '','' @ not_proxy @ ''[1m])) by(le, service_name, namespace_name))''"

definition ServiceRequestLatency95thPercentile :: prom_query where
  "ServiceRequestLatency95thPercentile =
     range_query (latency_quantile ''0.95'') (3 * 2 * EvaluationPeriodInSeconds)"

definition ServiceRequestLatency50thPercentile :: prom_query where
  "ServiceRequestLatency50thPercentile =
     range_query (latency_quantile ''0.50'') (3 * 2 * EvaluationPeriodInSeconds)"

definition ratio_query :: "prom_query \<Rightarrow> prom_query \<Rightarrow> string" where
  "ratio_query a b = ''('' @ pq_query a @ '') / ('' @ pq_query b @ '')''"

definition ServiceAverageRequestLatency :: prom_query where
  "ServiceAverageRequestLatency =
     range_query (ratio_query ServiceRequestLatencySum ServiceRequestRate) (3 * EvaluationPeriodInSeconds)"

definition ServiceRequestLatencyPercentileRatio :: prom_query where
  "ServiceRequestLatencyPercentileRatio =
     range_query (ratio_query ServiceRequestLatency95thPercentile ServiceRequestLatency50thPercentile)
       (3 * 2 * EvaluationPeriodInSeconds)"

section \<open>types.go: decoding an answer\<close>

datatype json = J_Null | J_Bool bool | J_Num string | J_Str string | J_Arr "json list"
  | J_Obj "(string \<times> json) list"

record matrix_value =
  mv_timestamp :: string
  mv_value :: string

record matrix_data =
  md_metric :: gomap
  md_data :: "matrix_value list"

record prom_response =
  pr_status :: string
  pr_data :: "(string \<times> matrix_data list) option"
  pr_error_type :: "string option"
  pr_error :: "string option"
  pr_warnings :: "string list option"

text \<open>
  \<open>encoding/json\<close>: a null leaves the target alone, a value of another type is an error
  (None); fields are found without regard to case, unknown ones are skipped.
\<close>

fun dec_string :: "string \<Rightarrow> json \<Rightarrow> string option" where
  "dec_string old (J_Str s) = Some s"
| "dec_string old J_Null = Some old"
| "dec_string old _ = None"

fun dec_string_ptr :: "json \<Rightarrow> string option option" where
  "dec_string_ptr (J_Str s) = Some (Some s)"
| "dec_string_ptr J_Null = Some None"
| "dec_string_ptr _ = None"

fun dec_list :: "(json \<Rightarrow> 'a option) \<Rightarrow> json list \<Rightarrow> 'a list option" where
  "dec_list f [] = Some []"
| "dec_list f (j # js) =
     (case f j of None \<Rightarrow> None | Some x \<Rightarrow> map_option (\<lambda>xs. x # xs) (dec_list f js))"

fun dec_slice :: "(json \<Rightarrow> 'a option) \<Rightarrow> json \<Rightarrow> 'a list option option" where
  "dec_slice f (J_Arr js) = map_option Some (dec_list f js)"
| "dec_slice f J_Null = Some None"
| "dec_slice f _ = None"

fun dec_fields :: "('a \<Rightarrow> string \<Rightarrow> json \<Rightarrow> 'a option) \<Rightarrow> (string \<times> json) list \<Rightarrow> 'a \<Rightarrow> 'a option" where
  "dec_fields f [] x = Some x"
| "dec_fields f ((k, j) # kjs) x = (case f x k j of None \<Rightarrow> None | Some y \<Rightarrow> dec_fields f kjs y)"

fun dec_object :: "('a \<Rightarrow> string \<Rightarrow> json \<Rightarrow> 'a option) \<Rightarrow> 'a \<Rightarrow> json \<Rightarrow> 'a option" where
  "dec_object f x (J_Obj kjs) = dec_fields f kjs x"
| "dec_object f x J_Null = Some x"
| "dec_object f x _ = None"

definition field_is :: "string \<Rightarrow> string \<Rightarrow> bool" where
  "field_is k name \<longleftrightarrow> to_lower k = to_lower name"

text \<open>\<open>prometheusData\<close>: the result stays undecoded; None when the field is missing.\<close>

record raw_data =
  rd_result_type :: string
  rd_result :: "json option"

definition dec_raw_data :: "raw_data \<Rightarrow> string \<Rightarrow> json \<Rightarrow> raw_data option" where
  "dec_raw_data d k j =
     (if field_is k ''resultType'' then map_option (\<lambda>s. d\<lparr>rd_result_type := s\<rparr>) (dec_string (rd_result_type d) j)
      else if field_is k ''result'' then Some (d\<lparr>rd_result := Some j\<rparr>)
      else Some d)"

record raw_response =
  rr_status :: string
  rr_data :: "raw_data option"
  rr_error_type :: "string option"
  rr_error :: "string option"
  rr_warnings :: "string list option"

definition raw_response_zero :: raw_response where
  "raw_response_zero = \<lparr>rr_status = [], rr_data = None, rr_error_type = None, rr_error = None, rr_warnings = None\<rparr>"

definition dec_raw_response :: "raw_response \<Rightarrow> string \<Rightarrow> json \<Rightarrow> raw_response option" where
  "dec_raw_response r k j =
     (if field_is k ''status'' then map_option (\<lambda>s. r\<lparr>rr_status := s\<rparr>) (dec_string (rr_status r) j)
      else if field_is k ''data'' then
        (if j = J_Null then Some (r\<lparr>rr_data := None\<rparr>)
         else map_option (\<lambda>d. r\<lparr>rr_data := Some d\<rparr>)
                (dec_object dec_raw_data \<lparr>rd_result_type = [], rd_result = None\<rparr> j))
      else if field_is k ''errorType'' then map_option (\<lambda>s. r\<lparr>rr_error_type := s\<rparr>) (dec_string_ptr j)
      else if field_is k ''error'' then map_option (\<lambda>s. r\<lparr>rr_error := s\<rparr>) (dec_string_ptr j)
      else if field_is k ''warnings'' then
        map_option (\<lambda>s. r\<lparr>rr_warnings := s\<rparr>) (dec_slice (dec_string []) j)
      else Some r)"

text \<open>\<open>prometheusMatrixData\<close>: a nil row of values is an empty list.\<close>

record raw_matrix =
  rm_metric :: gomap
  rm_data :: "json list list"

definition dec_metric :: "gomap \<Rightarrow> string \<Rightarrow> json \<Rightarrow> gomap option" where
  "dec_metric m k j = map_option (\<lambda>s. mput k s m) (dec_string [] j)"

definition dec_metric_map :: "gomap \<Rightarrow> json \<Rightarrow> gomap option" where
  "dec_metric_map old j = (if j = J_Null then Some None else dec_object dec_metric (Some (mmake old)) j)"

definition dec_raw_matrix :: "raw_matrix \<Rightarrow> string \<Rightarrow> json \<Rightarrow> raw_matrix option" where
  "dec_raw_matrix r k j =
     (if field_is k ''metric'' then map_option (\<lambda>m. r\<lparr>rm_metric := m\<rparr>) (dec_metric_map (rm_metric r) j)
      else if field_is k ''values'' then
        map_option (\<lambda>xs. r\<lparr>rm_data := map elems (elems xs)\<rparr>) (dec_slice (dec_slice Some) j)
      else Some r)"

definition dec_matrix :: "json \<Rightarrow> raw_matrix list option" where
  "dec_matrix j =
     map_option elems (dec_slice (dec_object dec_raw_matrix \<lparr>rm_metric = None, rm_data = []\<rparr>) j)"

text \<open>
  \<open>value[0].(float64)\<close>, then \<open>value[1].(string)\<close>: an index outside the row panics, a value of
  another type is an error.
\<close>

fun convert_value :: "json list \<Rightarrow> matrix_value option go" where
  "convert_value [] = Panicked ''index out of range [0] with length 0''"
| "convert_value (t # vs) =
     (case t of
        J_Num timestamp \<Rightarrow>
          (case vs of
             [] \<Rightarrow> Panicked ''index out of range [1] with length 1''
           | J_Str v # _ \<Rightarrow> Done (Some \<lparr>mv_timestamp = timestamp, mv_value = v\<rparr>)
           | _ \<Rightarrow> Done None)
      | _ \<Rightarrow> Done None)"

fun convert_all :: "('a \<Rightarrow> 'b option go) \<Rightarrow> 'a list \<Rightarrow> 'b list option go" where
  "convert_all f [] = Done (Some [])"
| "convert_all f (x # xs) =
     bind_go (f x) (\<lambda>y. case y of
        None \<Rightarrow> Done None
      | Some v \<Rightarrow> bind_go (convert_all f xs) (\<lambda>vs. Done (map_option (\<lambda>l. v # l) vs)))"

definition convert_matrix :: "raw_matrix \<Rightarrow> matrix_data option go" where
  "convert_matrix r =
     bind_go (convert_all convert_value (rm_data r)) (\<lambda>d.
       Done (map_option (\<lambda>vs. \<lparr>md_metric = rm_metric r, md_data = vs\<rparr>) d))"

definition PrometheusResultTypeMatrix :: string where "PrometheusResultTypeMatrix = ''matrix''"

definition response_of :: "raw_response \<Rightarrow> (string \<times> matrix_data list) option \<Rightarrow> prom_response" where
  "response_of r d = \<lparr>pr_status = rr_status r, pr_data = d, pr_error_type = rr_error_type r,
     pr_error = rr_error r, pr_warnings = rr_warnings r\<rparr>"

definition UnmarshalJSON :: "json \<Rightarrow> prom_response option go" where
  "UnmarshalJSON b =
     (case dec_object dec_raw_response raw_response_zero b of
        None \<Rightarrow> Done None
      | Some response \<Rightarrow>
          (case rr_data response of
             None \<Rightarrow> Done (Some (response_of response None))
           | Some d \<Rightarrow>
               if rd_result_type d \<noteq> PrometheusResultTypeMatrix then Done None
               else case Option.bind (rd_result d) dec_matrix of
                 None \<Rightarrow> Done None
               | Some result \<Rightarrow>
                   bind_go (convert_all convert_matrix result) (\<lambda>ms.
                     Done (map_option (\<lambda>data. response_of response (Some (rd_result_type d, data))) ms))))"

section \<open>client.go\<close>

datatype query_error = ServiceUnavailable | UnsuccessfulQuery string | InvalidResultType string
  | QueryFailed string

record http_request =
  hq_path :: string
  hq_query :: string
  hq_start :: string
  hq_end :: string
  hq_step :: string

record http_response =
  hr_status :: nat
  hr_body :: "json option"

text \<open>Sending a request and reading the body of its answer: an error, or a status and a body (None: no JSON).\<close>

type_synonym 'w transport = "http_request \<Rightarrow> 'w \<Rightarrow> (string + http_response) \<times> 'w"

definition make_request :: "int \<Rightarrow> prom_query \<Rightarrow> http_request" where
  "make_request endTimestamp q =
     \<lparr>hq_path = ''/api/v1/query_range'', hq_query = pq_query q,
      hq_start = show_int (endTimestamp - pq_lookback q), hq_end = show_int endTimestamp,
      hq_step = pq_step q\<rparr>"

definition read_response :: "http_response \<Rightarrow> (query_error + matrix_data list) go" where
  "read_response resp =
     (if hr_status resp = 400 then Panicked ''prometheus rejected the request''
      else if hr_status resp = 422 then Panicked ''prometheus rejected the query''
      else if hr_status resp = 503 then Done (Inl ServiceUnavailable)
      else case hr_body resp of
        None \<Rightarrow> Done (Inl (QueryFailed ''couldn't parse prometheus response''))
      | Some body \<Rightarrow>
          bind_go (UnmarshalJSON body) (\<lambda>r. case r of
             None \<Rightarrow> Done (Inl (QueryFailed ''couldn't parse prometheus response''))
           | Some pResponse \<Rightarrow>
               if pr_status pResponse \<noteq> ''success'' then Done (Inl (UnsuccessfulQuery (pr_status pResponse)))
               else case pr_data pResponse of
                 None \<Rightarrow> Done (Inl (UnsuccessfulQuery ''no result''))
               | Some (resultType, result) \<Rightarrow>
                   if resultType \<noteq> PrometheusResultTypeMatrix then Done (Inl (InvalidResultType resultType))
                   else Done (Inr result)))"

definition Query :: "'w transport \<Rightarrow> int \<Rightarrow> prom_query \<Rightarrow> 'w \<Rightarrow> ((query_error + matrix_data list) \<times> 'w) go" where
  "Query send now q w =
     (case send (make_request now q) w of
        (Inl e, w') \<Rightarrow> Done (Inl (QueryFailed e), w')
      | (Inr resp, w') \<Rightarrow> bind_go (read_response resp) (\<lambda>r. Done (r, w')))"

text \<open>The loop of \<open>QueryWithRetry\<close>: \<open>n\<close> attempts are left, \<open>clk i\<close> is the Unix time of attempt \<open>i\<close>.\<close>

fun retry_loop :: "'w transport \<Rightarrow> (nat \<Rightarrow> int) \<Rightarrow> prom_query \<Rightarrow> nat \<Rightarrow> nat \<Rightarrow>
    query_error + matrix_data list \<Rightarrow> 'w \<Rightarrow> ((query_error + matrix_data list) \<times> 'w) go" where
  "retry_loop send clk q i 0 r w = Done (r, w)"
| "retry_loop send clk q i (Suc n) r w =
     bind_go (Query send (clk i) q w) (\<lambda>rw.
       if fst rw = Inl ServiceUnavailable then retry_loop send clk q (Suc i) n (fst rw) (snd rw)
       else Done rw)"

definition attempts_of :: "prom_query \<Rightarrow> nat" where
  "attempts_of q = (case pq_attempts q of None \<Rightarrow> 1 | Some a \<Rightarrow> if 0 < a then nat a else 1)"

definition QueryWithRetry :: "'w transport \<Rightarrow> (nat \<Rightarrow> int) \<Rightarrow> prom_query \<Rightarrow> 'w \<Rightarrow>
    ((query_error + matrix_data list) \<times> 'w) go" where
  "QueryWithRetry send clk q w = retry_loop send clk q 0 (attempts_of q) (Inr []) w"

section \<open>Facts\<close>

text \<open>The answer of a Prometheus server to a range query, and that it is read back.\<close>

definition value_json :: "matrix_value \<Rightarrow> json" where
  "value_json v = J_Arr [J_Num (mv_timestamp v), J_Str (mv_value v)]"

definition metric_json :: "(string \<times> string) list \<Rightarrow> json" where
  "metric_json m = J_Obj (map (\<lambda>(k, s). (k, J_Str s)) m)"

definition series_json :: "(string \<times> string) list \<times> matrix_value list \<Rightarrow> json" where
  "series_json s = J_Obj [(''metric'', metric_json (fst s)), (''values'', J_Arr (map value_json (snd s)))]"

definition answer_json :: "((string \<times> string) list \<times> matrix_value list) list \<Rightarrow> json" where
  "answer_json ss =
     J_Obj [(''status'', J_Str ''success''),
            (''data'', J_Obj [(''resultType'', J_Str ''matrix''), (''result'', J_Arr (map series_json ss))])]"

definition series_data :: "(string \<times> string) list \<times> matrix_value list \<Rightarrow> matrix_data" where
  "series_data s =
     \<lparr>md_metric = fold (\<lambda>(k, v) m. mput k v m) (fst s) (Some fmempty), md_data = snd s\<rparr>"

lemma dec_list_map: "(\<And>x. x \<in> set xs \<Longrightarrow> f (g x) = Some (h x)) \<Longrightarrow> dec_list f (map g xs) = Some (map h xs)"
  by (induction xs) auto

lemma field_is_simps [simp]:
  "field_is ''metric'' ''metric''" "\<not> field_is ''values'' ''metric''" "field_is ''values'' ''values''"
  "field_is ''status'' ''status''" "\<not> field_is ''data'' ''status''" "field_is ''data'' ''data''"
  "field_is ''resultType'' ''resultType''" "\<not> field_is ''result'' ''resultType''" "field_is ''result'' ''result''"
  by code_simp+

lemma dec_metric_fields:
  "dec_fields dec_metric (map (\<lambda>(k, s). (k, J_Str s)) m) g = Some (fold (\<lambda>(k, v) m. mput k v m) m g)"
  by (induction m arbitrary: g) (auto simp: dec_metric_def)

lemma dec_series:
  "dec_object dec_raw_matrix \<lparr>rm_metric = None, rm_data = []\<rparr> (series_json s) =
     Some \<lparr>rm_metric = md_metric (series_data s),
           rm_data = map (\<lambda>v. [J_Num (mv_timestamp v), J_Str (mv_value v)]) (snd s)\<rparr>"
proof -
  have "dec_list (dec_slice Some) (map value_json (snd s)) =
      Some (map (\<lambda>v. Some [J_Num (mv_timestamp v), J_Str (mv_value v)]) (snd s))"
    by (rule dec_list_map) (simp add: value_json_def)
  then show ?thesis
    by (simp add: series_json_def dec_raw_matrix_def dec_metric_map_def metric_json_def
        dec_metric_fields series_data_def mmake_def comp_def)
qed

lemma convert_all_map:
  "(\<And>x. x \<in> set xs \<Longrightarrow> f (g x) = Done (Some (h x))) \<Longrightarrow> convert_all f (map g xs) = Done (Some (map h xs))"
  by (induction xs) auto

lemma convert_values:
  "convert_all convert_value (map (\<lambda>v. [J_Num (mv_timestamp v), J_Str (mv_value v)]) vs) = Done (Some vs)"
  by (subst convert_all_map [where h = id]) simp_all

lemma UnmarshalJSON_answer:
  "UnmarshalJSON (answer_json ss) = Done (Some
     \<lparr>pr_status = ''success'', pr_data = Some (PrometheusResultTypeMatrix, map series_data ss),
      pr_error_type = None, pr_error = None, pr_warnings = None\<rparr>)"
proof -
  let ?raw = "\<lambda>s. \<lparr>rm_metric = md_metric (series_data s),
           rm_data = map (\<lambda>v. [J_Num (mv_timestamp v), J_Str (mv_value v)]) (snd s)\<rparr>"
  have m: "dec_matrix (J_Arr (map series_json ss)) = Some (map ?raw ss)"
    using dec_list_map [of ss "dec_object dec_raw_matrix \<lparr>rm_metric = None, rm_data = []\<rparr>" series_json ?raw]
    by (simp add: dec_matrix_def dec_series)
  have c: "convert_all convert_matrix (map ?raw ss) = Done (Some (map series_data ss))"
    by (rule convert_all_map) (simp add: convert_matrix_def convert_values series_data_def)
  show ?thesis
    by (simp add: UnmarshalJSON_def answer_json_def dec_raw_response_def dec_raw_data_def
        raw_response_zero_def PrometheusResultTypeMatrix_def m c response_of_def)
qed

text \<open>Reading panics for the two statuses the code panics on, and for rows that are too short.\<close>

lemma convert_value_panics_iff:
  "(\<exists>e. convert_value row = Panicked e) \<longleftrightarrow> row = [] \<or> (\<exists>t. row = [J_Num t])"
  by (cases row rule: convert_value.cases) (auto split: json.splits list.splits)

text \<open>\<open>k\<close> attempts from \<open>i\<close> on found the service unavailable and led to the state \<open>w'\<close>.\<close>

fun unavailable_run :: "'w transport \<Rightarrow> (nat \<Rightarrow> int) \<Rightarrow> prom_query \<Rightarrow> nat \<Rightarrow> nat \<Rightarrow> 'w \<Rightarrow> 'w option" where
  "unavailable_run send clk q i 0 w = Some w"
| "unavailable_run send clk q i (Suc k) w =
     (case Query send (clk i) q w of
        Done (Inl ServiceUnavailable, w') \<Rightarrow> unavailable_run send clk q (Suc i) k w'
      | _ \<Rightarrow> None)"

lemma unavailable_run_SucE:
  assumes "unavailable_run send clk q i (Suc k) w = Some w'"
  obtains w1 where "Query send (clk i) q w = Done (Inl ServiceUnavailable, w1)"
    "unavailable_run send clk q (Suc i) k w1 = Some w'"
  using assms by (auto split: go.splits sum.splits query_error.splits)

lemma retry_loop_skips:
  "unavailable_run send clk q i k w = Some w' \<Longrightarrow> k \<le> n \<Longrightarrow>
    retry_loop send clk q i n r w =
      retry_loop send clk q (i + k) (n - k) (if k = 0 then r else Inl ServiceUnavailable) w'"
proof (induction k arbitrary: i n r w)
  case (Suc k)
  then obtain w1 where "Query send (clk i) q w = Done (Inl ServiceUnavailable, w1)"
    "unavailable_run send clk q (Suc i) k w1 = Some w'"
    by (elim unavailable_run_SucE)
  moreover obtain m where "n = Suc m" using Suc.prems(2) by (cases n) auto
  ultimately show ?case using Suc.IH [of "Suc i" w1 m] Suc.prems(2) by simp
qed simp

lemma attempts_of_pos: "0 < attempts_of q"
  by (simp add: attempts_of_def split: option.split)

lemma QueryWithRetry_answers:
  assumes "unavailable_run send clk q 0 k w = Some w1" "k < attempts_of q"
    and "Query send (clk k) q w1 = Done (r, w2)" "r \<noteq> Inl ServiceUnavailable"
  shows "QueryWithRetry send clk q w = Done (r, w2)"
proof -
  obtain m where "attempts_of q - k = Suc m" using assms(2) by (cases "attempts_of q - k") auto
  then show ?thesis
    using assms retry_loop_skips [OF assms(1), of "attempts_of q"] by (simp add: QueryWithRetry_def)
qed

lemma QueryWithRetry_gives_up:
  assumes "unavailable_run send clk q 0 (attempts_of q) w = Some w1"
  shows "QueryWithRetry send clk q w = Done (Inl ServiceUnavailable, w1)"
  using retry_loop_skips [OF assms order.refl] attempts_of_pos [of q] by (simp add: QueryWithRetry_def)

end
