(* ===== verification/PromStrategy.thy ===== *)
theory PromStrategy
  imports Usage PromClient
begin

text \<open>
  pkg/workoffload/strategy and pkg/workoffload/prometheus/strategy.go: the contract between the
  offload loop and a strategy, and the strategy of the program, which collects the usage of the
  cluster (\<open>Execute\<close>) and turns the latency of each service into a desired traffic
  (\<open>GetResults\<close>). The Kubernetes lists, the metrics server and the HTTP transport are the
  fields of the argument \<open>sources\<close>.
\<close>

section \<open>strategy.go\<close>

datatype traffic_action = PreserveTraffic | IncreaseTraffic | DecreaseTraffic | SetTraffic

fun action_String :: "traffic_action \<Rightarrow> string" where
  "action_String IncreaseTraffic = ''IncreaseTraffic''"
| "action_String DecreaseTraffic = ''DecreaseTraffic''"
| "action_String PreserveTraffic = ''PreserveTraffic''"
| "action_String SetTraffic = ''SetTraffic''"

record offload_result =
  or_name :: nsname
  or_service :: service
  or_action :: traffic_action
  or_desired :: int64

text \<open>\<open>WorkOffloadStrategy\<close>, with the state \<open>'s\<close> behind the interface and the world \<open>'w\<close>.\<close>

record ('s, 'w) strategy =
  sg_execute :: "'s \<Rightarrow> 'w \<Rightarrow> (string option \<times> 's \<times> 'w) go"
  sg_results :: "service list \<Rightarrow> 's \<Rightarrow> (offload_result list \<times> 's) go"

section \<open>Collecting the usage\<close>

record 'w sources =
  sr_nodes :: "'w \<Rightarrow> (string + node list) \<times> 'w"
  sr_node_metrics :: "'w \<Rightarrow> (string + node_metrics list) \<times> 'w"
  sr_namespaces :: "'w \<Rightarrow> (string + string list) \<times> 'w"
  sr_pod_metrics :: "string \<Rightarrow> 'w \<Rightarrow> (string + pod_metrics list) \<times> 'w"
  sr_pod :: "nsname \<Rightarrow> 'w \<Rightarrow> (api_error + pod) \<times> 'w"
  sr_send :: "'w transport"
  sr_clock :: "nat \<Rightarrow> int"

record prom_strategy =
  ps_cluster :: "cluster_usage option"

text \<open>The deferred \<open>Finalize...\<close> calls run on every path behind them, the failing ones included.\<close>

definition updateNodesUsage :: "'w sources \<Rightarrow> cluster_usage \<Rightarrow> 'w \<Rightarrow> string option \<times> cluster_usage \<times> 'w" where
  "updateNodesUsage src cluster w =
     (case sr_nodes src w of
        (Inl e, w1) \<Rightarrow> (Some (''cannot list nodes metrics: '' @ e), cluster, w1)
      | (Inr nodeList, w1) \<Rightarrow>
          (case sr_node_metrics src w1 of
             (Inl e, w2) \<Rightarrow> (Some (''cannot list node metrics: '' @ e), cluster, w2)
           | (Inr nodeMetricsList, w2) \<Rightarrow>
               (None, FinalizeNodeMetrics (fold UpdateNodeMetrics nodeMetricsList (fold AddNode nodeList cluster)), w2)))"

fun pods_loop :: "'w sources \<Rightarrow> pod_metrics list \<Rightarrow> cluster_usage \<Rightarrow> 'w \<Rightarrow> string option \<times> cluster_usage \<times> 'w" where
  "pods_loop src [] cluster w = (None, cluster, w)"
| "pods_loop src (podMetrics # ms) cluster w =
     (let podName = \<lparr>ns_namespace = pm_namespace podMetrics, ns_name = pm_name podMetrics\<rparr> in
      case sr_pod src podName w of
        (Inl e, w1) \<Rightarrow>
          if e = NotFound then pods_loop src ms cluster w1
          else (Some (''cannot retrieve pod '' @ nsname_str podName), cluster, w1)
      | (Inr pod, w1) \<Rightarrow> pods_loop src ms (UpdatePodMetrics podMetrics (AddPod pod cluster)) w1)"

definition updatePodsUsageInNamespace :: "'w sources \<Rightarrow> string \<Rightarrow> cluster_usage \<Rightarrow> 'w \<Rightarrow>
    string option \<times> cluster_usage \<times> 'w" where
  "updatePodsUsageInNamespace src namespace cluster w =
     (case sr_pod_metrics src namespace w of
        (Inl e, w1) \<Rightarrow> (Some (''cannot list pod metrics: '' @ e), cluster, w1)
      | (Inr podMetricsList, w1) \<Rightarrow> pods_loop src podMetricsList cluster w1)"

fun namespaces_loop :: "'w sources \<Rightarrow> string list \<Rightarrow> cluster_usage \<Rightarrow> 'w \<Rightarrow> string option \<times> cluster_usage \<times> 'w" where
  "namespaces_loop src [] cluster w = (None, cluster, w)"
| "namespaces_loop src (namespace # ns) cluster w =
     (case updatePodsUsageInNamespace src namespace cluster w of
        (Some e, c1, w1) \<Rightarrow> (Some e, c1, w1)
      | (None, c1, w1) \<Rightarrow> namespaces_loop src ns c1 w1)"

definition updatePodsUsage :: "'w sources \<Rightarrow> cluster_usage \<Rightarrow> 'w \<Rightarrow> string option \<times> cluster_usage \<times> 'w" where
  "updatePodsUsage src cluster w =
     (case sr_namespaces src w of
        (Inl e, w1) \<Rightarrow> (Some (''cannot list namespaces: '' @ e), cluster, w1)
      | (Inr namespaceList, w1) \<Rightarrow>
          (case namespaces_loop src namespaceList cluster w1 of
             (e, c1, w2) \<Rightarrow> (e, FinalizePodMetrics c1, w2)))"

definition add_series :: "matrix_data \<Rightarrow> cluster_usage \<Rightarrow> cluster_usage" where
  "add_series data cluster =
     (let namespace = mget (md_metric data) ''namespace_name'';
          serviceName = mget (md_metric data) ''service_name''
      in if serviceName = [] then cluster
         else let c1 = AddKService serviceName namespace cluster in
           c1\<lparr>cu_services := upd_at (usage_key serviceName namespace)
                (UpdateWithPercentileRatio (map mv_value (md_data data))) (cu_services c1)\<rparr>)"

definition query_error_str :: "query_error \<Rightarrow> string" where
  "query_error_str e =
     (case e of ServiceUnavailable \<Rightarrow> ''prometheus is timed out''
      | UnsuccessfulQuery s \<Rightarrow> ''prometheus query has failed: '' @ s
      | InvalidResultType s \<Rightarrow> ''prometheus query has an invalid result type: '' @ s
      | QueryFailed s \<Rightarrow> s)"

definition updateKServiceUsage :: "'w sources \<Rightarrow> cluster_usage \<Rightarrow> 'w \<Rightarrow>
    (string option \<times> cluster_usage \<times> 'w) go" where
  "updateKServiceUsage src cluster w =
     bind_go (QueryWithRetry (sr_send src) (sr_clock src) ServiceRequestLatencyPercentileRatio w) (\<lambda>rw.
       case rw of
         (Inl e, w1) \<Rightarrow> Done (Some (query_error_str e), cluster_FinalizeKServiceMetrics cluster, w1)
       | (Inr result, w1) \<Rightarrow>
           Done (None, cluster_FinalizeKServiceMetrics (fold add_series result cluster), w1))"

text \<open>The new usage replaces the old one only when every step has succeeded.\<close>

definition Execute :: "'w sources \<Rightarrow> prom_strategy \<Rightarrow> 'w \<Rightarrow> (string option \<times> prom_strategy \<times> 'w) go" where
  "Execute src s w =
     (case updateNodesUsage src NewClusterUsage w of
        (Some e, _, w1) \<Rightarrow> Done (Some e, s, w1)
      | (None, c1, w1) \<Rightarrow>
          (case updatePodsUsage src c1 w1 of
             (Some e, _, w2) \<Rightarrow> Done (Some e, s, w2)
           | (None, c2, w2) \<Rightarrow>
               bind_go (updateKServiceUsage src c2 w2) (\<lambda>r. case r of
                 (Some e, _, w3) \<Rightarrow> Done (Some e, s, w3)
               | (None, c3, w3) \<Rightarrow>
                   Done (None,
                     s\<lparr>ps_cluster := Some (UpdateFromPreviousState (ps_cluster s) (FinalizeClusterMetrics c3))\<rparr>,
                     w3))))"

section \<open>From latencies to traffic\<close>

text \<open>\<open>cv\<close> is the result of a conversion to int64 that the Go specification leaves open.\<close>

definition desired_traffic :: "(f32 \<Rightarrow> int64) \<Rightarrow> kservice_usage \<Rightarrow> int64" where
  "desired_traffic cv s =
     (if flt (ku_latency s) (ku_soft_limit s) then 0
      else if fge (ku_latency s) (ku_hard_limit s) then 100
      else let limitDiff = fsub (ku_hard_limit s) (ku_soft_limit s);
               overSoftLimit = fdiv (fsub (ku_latency s) (ku_soft_limit s)) limitDiff
           in f32_to_int64 cv (fmul (F_Fin 100) overSoftLimit))"

text \<open>
  \<open>Service: &service\<close> takes the address of the loop variable, which is one variable for the
  whole loop: when the results are read, every pointer refers to the last service. \<open>alias\<close> is
  that service.
\<close>

fun results_loop :: "(f32 \<Rightarrow> int64) \<Rightarrow> service \<Rightarrow> service list \<Rightarrow> prom_strategy \<Rightarrow>
    (offload_result list \<times> prom_strategy) go" where
  "results_loop cv alias [] s = Done ([], s)"
| "results_loop cv alias (service # ss) s =
     (case ps_cluster s of
        None \<Rightarrow> Panicked ''invalid memory address or nil pointer dereference''
      | Some c \<Rightarrow>
          let serviceName = service_nsname service; k = nsname_str serviceName in
          case fmlookup (cu_services c) k of
            None \<Rightarrow>
              bind_go (results_loop cv alias ss s) (\<lambda>rs.
                Done (\<lparr>or_name = serviceName, or_service = alias, or_action = PreserveTraffic,
                        or_desired = - 1\<rparr> # fst rs, snd rs))
          | Some u \<Rightarrow>
              let u1 = kservice_finalize (UpdateWithKService service u) in
              bind_go (results_loop cv alias ss
                  (s\<lparr>ps_cluster := Some (c\<lparr>cu_services := fmupd k u1 (cu_services c)\<rparr>)\<rparr>)) (\<lambda>rs.
                Done (\<lparr>or_name = serviceName, or_service = alias, or_action = SetTraffic,
                        or_desired = desired_traffic cv u1\<rparr> # fst rs, snd rs)))"

definition GetResults :: "(f32 \<Rightarrow> int64) \<Rightarrow> service list \<Rightarrow> prom_strategy \<Rightarrow>
    (offload_result list \<times> prom_strategy) go" where
  "GetResults cv services s =
     (if services = [] then Done ([], s) else results_loop cv (last services) services s)"

definition prometheus_strategy :: "(f32 \<Rightarrow> int64) \<Rightarrow> 'w sources \<Rightarrow> (prom_strategy, 'w) strategy" where
  "prometheus_strategy cv src = \<lparr>sg_execute = Execute src, sg_results = GetResults cv\<rparr>"

text \<open>\<open>NewStrategy\<close>: the URL parser is the argument \<open>url_ok\<close>.\<close>

definition NewStrategy :: "(string \<Rightarrow> bool) \<Rightarrow> string \<Rightarrow> string + prom_strategy" where
  "NewStrategy url_ok prometheusUrl =
     (if prometheusUrl = [] then Inl ''prometheus url is empty''
      else if \<not> url_ok prometheusUrl then Inl ''prometheus url is invalid''
      else Inr \<lparr>ps_cluster = None\<rparr>)"

section \<open>Facts: the desired traffic\<close>

lemma fnonneg_between:
  assumes "fnonneg lat" "\<not> fge lat hard" "\<not> fis_nan hard"
  shows "ffinite lat" "0 \<le> fval lat" "fis_inf hard \<or> (ffinite hard \<and> fval lat < fval hard)"
  using assms by (cases lat; cases hard; simp add: fge_def)+

lemma flt_nonneg_False:
  "fnonneg lat \<Longrightarrow> ffinite lat \<Longrightarrow> fnonneg soft \<Longrightarrow> \<not> flt lat soft \<Longrightarrow> ffinite soft \<and> 0 \<le> fval soft \<and> fval soft \<le> fval lat"
  by (cases lat; cases soft) (simp_all add: not_less)

lemma fsub_nonneg:
  assumes "ffinite x" "ffinite y" "0 \<le> fval y" "fval y \<le> fval x" "f32_ok x"
  shows "ffinite (fsub x y) \<and> fval (fsub x y) = rnd (fval x - fval y) \<and> 0 \<le> rnd (fval x - fval y)"
proof -
  have "0 \<le> rnd (fval x - fval y)" using assms by (intro f32.rd_nonneg) simp
  moreover have "rnd (fval x - fval y) \<le> rnd (fval x)" using assms by (intro rnd_mono) simp
  moreover have "rnd (fval x) = fval x" using assms by (intro rnd_repr) (simp add: f32_ok_def)
  moreover have "fval x < 2 ^ 128" using assms(5) by (simp add: f32_ok_def abs_less_iff)
  ultimately show ?thesis using fsub_finite [of x y] assms by simp
qed

lemma over_limit_finite:
  assumes "ffinite lat" "ffinite soft" "0 \<le> fval soft" "fval soft \<le> fval lat" "f32_ok lat" "f32_ok soft"
    and "ffinite hard" "fval lat < fval hard" "f32_ok hard"
  shows "ffinite (fmul (F_Fin 100) (fdiv (fsub lat soft) (fsub hard soft)))"
    and "fval (fmul (F_Fin 100) (fdiv (fsub lat soft) (fsub hard soft))) =
      rnd (100 * rnd (rnd (fval lat - fval soft) / rnd (fval hard - fval soft)))"
    and "0 \<le> rnd (100 * rnd (rnd (fval lat - fval soft) / rnd (fval hard - fval soft)))"
    and "rnd (100 * rnd (rnd (fval lat - fval soft) / rnd (fval hard - fval soft))) \<le> 100"
proof -
  let ?a = "fval lat - fval soft" and ?b = "fval hard - fval soft"
  have x: "ffinite (fsub lat soft)" "fval (fsub lat soft) = rnd ?a"
    using fsub_nonneg [of lat soft] assms by auto
  have y: "ffinite (fsub hard soft)" "fval (fsub hard soft) = rnd ?b"
    using fsub_nonneg [of hard soft] assms by auto
  have pos: "0 < rnd ?b" using assms by (intro rnd_diff_pos) (auto simp: f32_ok_def)
  have r: "0 \<le> rnd (rnd ?a / rnd ?b)" "rnd (rnd ?a / rnd ?b) \<le> 1"
    using f32.rd_ratio [of ?a ?b] assms by auto
  then have q: "ffinite (fdiv (fsub lat soft) (fsub hard soft))"
      "fval (fdiv (fsub lat soft) (fsub hard soft)) = rnd (rnd ?a / rnd ?b)"
    using fdiv_finite [of "fsub lat soft" "fsub hard soft"] x y pos by auto
  have p: "0 \<le> rnd (100 * rnd (rnd ?a / rnd ?b))" "rnd (100 * rnd (rnd ?a / rnd ?b)) \<le> 100"
    using f32.rd_percent [OF r] by auto
  then have "ffinite (fmul (F_Fin 100) (fdiv (fsub lat soft) (fsub hard soft))) \<and>
      fval (fmul (F_Fin 100) (fdiv (fsub lat soft) (fsub hard soft))) = rnd (100 * rnd (rnd ?a / rnd ?b))"
    using fmul_finite [of "F_Fin 100" "fdiv (fsub lat soft) (fsub hard soft)"] q by simp
  with p show "ffinite (fmul (F_Fin 100) (fdiv (fsub lat soft) (fsub hard soft)))"
    "fval (fmul (F_Fin 100) (fdiv (fsub lat soft) (fsub hard soft))) = rnd (100 * rnd (rnd ?a / rnd ?b))"
    "0 \<le> rnd (100 * rnd (rnd ?a / rnd ?b))" "rnd (100 * rnd (rnd ?a / rnd ?b)) \<le> 100" by auto
qed

lemma over_limit_unbounded:
  assumes "ffinite x" "ffinite soft"
  shows "fval (fmul (F_Fin 100) (fdiv x (fsub (F_Inf False) soft))) = 0"
    and "ffinite (fmul (F_Fin 100) (fdiv x (fsub (F_Inf False) soft)))"
proof -
  have "fsub (F_Inf False) soft = F_Inf False" using assms by (cases soft) (simp_all add: fsub_def)
  then have "fdiv x (fsub (F_Inf False) soft) = fzero (fsign x)"
    using assms by (cases x) (simp_all add: fdiv_def Let_def)
  then show "fval (fmul (F_Fin 100) (fdiv x (fsub (F_Inf False) soft))) = 0"
    "ffinite (fmul (F_Fin 100) (fdiv x (fsub (F_Inf False) soft)))"
    by (simp_all add: fmul_def Let_def fzero_not)
qed

text \<open>The limits of a service, as its annotations give them.\<close>

definition limits_ok :: "kservice_usage \<Rightarrow> bool" where
  "limits_ok s \<longleftrightarrow> fnonneg (ku_latency s) \<and> f32_ok (ku_latency s) \<and>
     fnonneg (ku_soft_limit s) \<and> f32_ok (ku_soft_limit s) \<and>
     \<not> fis_nan (ku_hard_limit s) \<and> f32_ok (ku_hard_limit s)"

text \<open>The value before the conversion to int64, and that it does not depend on \<open>cv\<close>.\<close>

definition desired_rat :: "kservice_usage \<Rightarrow> rat" where
  "desired_rat s =
     (if flt (ku_latency s) (ku_soft_limit s) then 0
      else if fge (ku_latency s) (ku_hard_limit s) then 100
      else fval (fmul (F_Fin 100)
        (fdiv (fsub (ku_latency s) (ku_soft_limit s)) (fsub (ku_hard_limit s) (ku_soft_limit s)))))"

lemma desired_traffic_trunc:
  assumes "limits_ok s"
  shows "desired_traffic cv s = word_of_int (trunc (desired_rat s)) \<and> 0 \<le> desired_rat s \<and> desired_rat s \<le> 100"
proof (cases "flt (ku_latency s) (ku_soft_limit s) \<or> fge (ku_latency s) (ku_hard_limit s)")
  case True
  then show ?thesis by (auto simp: desired_traffic_def desired_rat_def trunc_def)
next
  case False
  let ?v = "fmul (F_Fin 100) (fdiv (fsub (ku_latency s) (ku_soft_limit s)) (fsub (ku_hard_limit s) (ku_soft_limit s)))"
  note s = assms [unfolded limits_ok_def]
  have lat: "ffinite (ku_latency s)" "0 \<le> fval (ku_latency s)"
      "fis_inf (ku_hard_limit s) \<or> (ffinite (ku_hard_limit s) \<and> fval (ku_latency s) < fval (ku_hard_limit s))"
    using fnonneg_between [of "ku_latency s" "ku_hard_limit s"] s False by auto
  have soft: "ffinite (ku_soft_limit s)" "0 \<le> fval (ku_soft_limit s)" "fval (ku_soft_limit s) \<le> fval (ku_latency s)"
    using flt_nonneg_False [of "ku_latency s" "ku_soft_limit s"] s lat False by auto
  have v: "ffinite ?v \<and> 0 \<le> fval ?v \<and> fval ?v \<le> 100"
  proof (cases "fis_inf (ku_hard_limit s)")
    case True
    then have "ku_hard_limit s = F_Inf False"
      using False lat(1) by (cases "ku_hard_limit s"; cases "ku_latency s") (auto simp: fge_def)
    moreover have "ffinite (fsub (ku_latency s) (ku_soft_limit s))"
      using fsub_nonneg [of "ku_latency s" "ku_soft_limit s"] lat soft s by simp
    ultimately show ?thesis using over_limit_unbounded soft(1) by simp
  next
    case fin: False
    then have "ffinite (ku_hard_limit s)" "fval (ku_latency s) < fval (ku_hard_limit s)" using lat by auto
    then show ?thesis
      using over_limit_finite [of "ku_latency s" "ku_soft_limit s" "ku_hard_limit s"] lat soft s by auto
  qed
  moreover have "0 \<le> trunc (fval ?v)" "trunc (fval ?v) \<le> 100"
    using trunc_between [of "fval ?v" 100] v by auto
  moreover from this have "in_int64 (trunc (fval ?v))" by simp
  ultimately show ?thesis
    using False by (simp add: desired_traffic_def desired_rat_def Let_def f32_to_int64_def)
qed

lemma desired_traffic_bounds:
  assumes "limits_ok s"
  shows "0 \<le> sint (desired_traffic cv s) \<and> sint (desired_traffic cv s) \<le> 100"
proof -
  have "0 \<le> trunc (desired_rat s)" "trunc (desired_rat s) \<le> 100"
    using desired_traffic_trunc [OF assms] trunc_between [of "desired_rat s" 100] by auto
  moreover from this have "sint (word_of_int (trunc (desired_rat s)) :: int64) = trunc (desired_rat s)"
    by (intro sint_int64) simp
  ultimately show ?thesis using desired_traffic_trunc [OF assms] by simp
qed

text \<open>More latency never asks for less traffic.\<close>

lemma desired_rat_mono:
  assumes "limits_ok s" "limits_ok (s\<lparr>ku_latency := l\<rparr>)"
    and "ffinite (ku_latency s)" "ffinite l" "fval (ku_latency s) \<le> fval l"
    and "ffinite (ku_soft_limit s)" "ffinite (ku_hard_limit s)"
  shows "desired_rat s \<le> desired_rat (s\<lparr>ku_latency := l\<rparr>)"
proof -
  let ?s = "ku_soft_limit s" and ?h = "ku_hard_limit s" and ?x = "ku_latency s"
  note ok = assms(1,2) [unfolded limits_ok_def, simplified]
  have b: "desired_rat (s\<lparr>ku_latency := l\<rparr>) \<ge> 0" "desired_rat s \<le> 100"
    using desired_traffic_trunc [OF assms(1)] desired_traffic_trunc [OF assms(2)] by auto
  show ?thesis
  proof (cases "flt ?x ?s \<or> fge l ?h")
    case True
    then show ?thesis
    proof
      assume "flt ?x ?s"
      then show ?thesis using b(1) by (simp add: desired_rat_def)
    next
      assume h: "fge l ?h"
      show ?thesis
      proof (cases "flt l ?s")
        case True
        then have "flt ?x ?s" using assms by (simp add: flt_finite)
        then show ?thesis using b(1) by (simp add: desired_rat_def)
      next
        case False
        then show ?thesis using h b(2) by (simp add: desired_rat_def)
      qed
    qed
  next
    case False
    then have xs: "fval ?s \<le> fval ?x" and lh: "fval l < fval ?h"
      using assms by (auto simp: flt_finite fge_finite)
    have s0: "0 \<le> fval ?s" using ok assms(6) by (simp add: fnonneg_finite)
    have pos: "0 < rnd (fval ?h - fval ?s)"
      using ok xs lh assms(5) by (intro rnd_diff_pos) (auto simp: f32_ok_def)
    have "rnd (fval ?x - fval ?s) / rnd (fval ?h - fval ?s) \<le> rnd (fval l - fval ?s) / rnd (fval ?h - fval ?s)"
      using pos assms(5) by (intro divide_right_mono rnd_mono) simp_all
    then have "rnd (100 * rnd (rnd (fval ?x - fval ?s) / rnd (fval ?h - fval ?s)))
        \<le> rnd (100 * rnd (rnd (fval l - fval ?s) / rnd (fval ?h - fval ?s)))"
      by (intro rnd_mono mult_left_mono) simp_all
    then show ?thesis
      using False assms xs lh s0 ok over_limit_finite(2) [of ?x ?s ?h] over_limit_finite(2) [of l ?s ?h]
      by (simp add: desired_rat_def flt_finite fge_finite)
  qed
qed

lemma trunc_mono: "q \<le> r \<Longrightarrow> 0 \<le> q \<Longrightarrow> trunc q \<le> trunc r"
  by (simp add: trunc_def floor_mono)

section \<open>Facts: GetResults\<close>

text \<open>What a service's usage becomes, and the result it leads to.\<close>

definition refreshed :: "service \<Rightarrow> kservice_usage \<Rightarrow> kservice_usage" where
  "refreshed service u = kservice_finalize (UpdateWithKService service u)"

definition result_for :: "(f32 \<Rightarrow> int64) \<Rightarrow> service \<Rightarrow> cluster_usage \<Rightarrow> service \<Rightarrow> offload_result" where
  "result_for cv alias c service =
     (case fmlookup (cu_services c) (nsname_str (service_nsname service)) of
        None \<Rightarrow> \<lparr>or_name = service_nsname service, or_service = alias, or_action = PreserveTraffic, or_desired = - 1\<rparr>
      | Some u \<Rightarrow> \<lparr>or_name = service_nsname service, or_service = alias, or_action = SetTraffic,
                    or_desired = desired_traffic cv (refreshed service u)\<rparr>)"

definition refresh_entry :: "service \<Rightarrow> cluster_usage \<Rightarrow> cluster_usage" where
  "refresh_entry service c =
     c\<lparr>cu_services := upd_at (nsname_str (service_nsname service)) (refreshed service) (cu_services c)\<rparr>"

lemma results_loop_Cons:
  "results_loop cv alias (v # ss) (s\<lparr>ps_cluster := Some c\<rparr>) =
     bind_go (results_loop cv alias ss (s\<lparr>ps_cluster := Some (refresh_entry v c)\<rparr>)) (\<lambda>rs.
       Done (result_for cv alias c v # fst rs, snd rs))"
  by (cases "fmlookup (cu_services c) (nsname_str (service_nsname v))")
    (simp_all add: Let_def refresh_entry_def upd_at_def result_for_def refreshed_def)

lemma refresh_other:
  "k \<noteq> nsname_str (service_nsname v) \<Longrightarrow> fmlookup (cu_services (refresh_entry v c)) k = fmlookup (cu_services c) k"
  by (simp add: refresh_entry_def edge_simps)

lemma results_loop_distinct:
  assumes "distinct (map (\<lambda>v. nsname_str (service_nsname v)) ss)"
  shows "results_loop cv alias ss (s\<lparr>ps_cluster := Some c\<rparr>) =
    Done (map (result_for cv alias c) ss, s\<lparr>ps_cluster := Some (fold refresh_entry ss c)\<rparr>)"
  using assms
proof (induction ss arbitrary: c)
  case (Cons v ss)
  have "result_for cv alias (refresh_entry v c) x = result_for cv alias c x" if "x \<in> set ss" for x
  proof -
    have "nsname_str (service_nsname x) \<noteq> nsname_str (service_nsname v)"
      using Cons.prems that by (auto simp: image_iff)
    then show ?thesis by (simp add: result_for_def refresh_other)
  qed
  then have "map (result_for cv alias (refresh_entry v c)) ss = map (result_for cv alias c) ss" by simp
  then show ?case using Cons by (simp only: results_loop_Cons) simp
qed simp

lemma GetResults_distinct:
  assumes "ps_cluster s = Some c" "distinct (map (\<lambda>v. nsname_str (service_nsname v)) ss)" "ss \<noteq> []"
  shows "GetResults cv ss s =
    Done (map (result_for cv (last ss) c) ss, s\<lparr>ps_cluster := Some (fold refresh_entry ss c)\<rparr>)"
proof -
  have "s = s\<lparr>ps_cluster := Some c\<rparr>" using assms(1) by simp
  then show ?thesis
    using results_loop_distinct [OF assms(2), of cv "last ss" c s] assms(3) by (simp add: GetResults_def)
qed

lemma results_loop_service:
  "results_loop cv alias ss s = Done (rs, s') \<Longrightarrow> r \<in> set rs \<Longrightarrow> or_service r = alias"
proof (induction ss arbitrary: s rs s')
  case (Cons v ss)
  then obtain c where "ps_cluster s = Some c" by (auto split: option.splits)
  then have "s = s\<lparr>ps_cluster := Some c\<rparr>" by simp
  with Cons.prems(1) have "bind_go (results_loop cv alias ss (s\<lparr>ps_cluster := Some (refresh_entry v c)\<rparr>))
      (\<lambda>rs. Done (result_for cv alias c v # fst rs, snd rs)) = Done (rs, s')"
    by (metis results_loop_Cons)
  then obtain rs' where "results_loop cv alias ss (s\<lparr>ps_cluster := Some (refresh_entry v c)\<rparr>) = Done (rs', s')"
    "rs = result_for cv alias c v # rs'"
    by (auto simp: bind_go_Done_iff)
  then show ?case
    using Cons.IH [of _ rs' s'] Cons.prems(2) by (auto simp: result_for_def split: option.split)
qed simp

section \<open>Facts: Execute\<close>

lemma fold_inv: "P c \<Longrightarrow> (\<And>x d. P d \<Longrightarrow> P (f x d)) \<Longrightarrow> P (fold f xs c)"
  by (induction xs arbitrary: c) auto

lemma pods_inv_add_series:
  assumes "pods_inv c"
  shows "pods_inv (add_series data c)"
proof -
  let ?d = "AddKService (mget (md_metric data) ''service_name'') (mget (md_metric data) ''namespace_name'') c"
  have "pods_inv (?d\<lparr>cu_services := upd_at k (UpdateWithPercentileRatio ds) (cu_services ?d)\<rparr>)" for k ds
    by (rule pods_inv_services [OF pods_inv_AddKService [OF assms]])
      (auto simp: edge_simps UpdateWithPercentileRatio_def split: if_splits)
  then show ?thesis using assms by (simp add: add_series_def Let_def)
qed

text \<open>The three phases, and what the finished usage looks like.\<close>

lemma updateKServiceUsage_None:
  assumes "updateKServiceUsage src c w = Done (None, c', w')"
  shows "\<exists>result. QueryWithRetry (sr_send src) (sr_clock src) ServiceRequestLatencyPercentileRatio w = Done (Inr result, w')
    \<and> c' = cluster_FinalizeKServiceMetrics (fold add_series result c)"
proof -
  obtain r w1 where q: "QueryWithRetry (sr_send src) (sr_clock src) ServiceRequestLatencyPercentileRatio w = Done (r, w1)"
    using assms by (auto simp: updateKServiceUsage_def bind_go_Done_iff)
  then show ?thesis using assms by (cases r) (auto simp: updateKServiceUsage_def)
qed

lemma Execute_Done_None:
  assumes "Execute src s w = Done (None, s', w')"
  obtains c1 c2 w1 w2 result where
    "updateNodesUsage src NewClusterUsage w = (None, c1, w1)"
    "updatePodsUsage src c1 w1 = (None, c2, w2)"
    "QueryWithRetry (sr_send src) (sr_clock src) ServiceRequestLatencyPercentileRatio w2 = Done (Inr result, w')"
    "ps_cluster s' =
       Some (FinalizeClusterMetrics (cluster_FinalizeKServiceMetrics (fold add_series result c2)))"
  using assms
  by (auto simp: Execute_def bind_go_Done_iff UpdateFromPreviousState_def
      split: prod.splits option.splits dest!: updateKServiceUsage_None)

lemma Execute_error_keeps: "Execute src s w = Done (Some e, s', w') \<Longrightarrow> s' = s"
  by (auto simp: Execute_def bind_go_Done_iff split: prod.splits option.splits)

text \<open>
  What the steps that collect the usage keep, they keep together; what the two last steps keep as
  well, every usage that an execution installs has.
\<close>

locale collected_usage =
  fixes P :: "cluster_usage \<Rightarrow> bool"
  assumes start: "P NewClusterUsage"
    and add_node: "P c \<Longrightarrow> P (AddNode n c)"
    and update_node: "P c \<Longrightarrow> P (UpdateNodeMetrics nm c)"
    and finalize_nodes: "P c \<Longrightarrow> P (FinalizeNodeMetrics c)"
    and add_pod: "P c \<Longrightarrow> P (AddPod p c)"
    and update_pod: "P c \<Longrightarrow> P (UpdatePodMetrics pm c)"
    and finalize_pods: "P c \<Longrightarrow> P (FinalizePodMetrics c)"
    and series: "P c \<Longrightarrow> P (add_series d c)"
begin

lemma keeps_pods_loop: "P c \<Longrightarrow> pods_loop src ms c w = (e, c', w') \<Longrightarrow> P c'"
  by (induction src ms c w rule: pods_loop.induct)
    (auto simp: Let_def add_pod update_pod split: prod.splits sum.splits if_splits)

lemma keeps_namespaces_loop: "P c \<Longrightarrow> namespaces_loop src ns c w = (e, c', w') \<Longrightarrow> P c'"
  by (induction src ns c w rule: namespaces_loop.induct)
    (auto simp: updatePodsUsageInNamespace_def split: prod.splits sum.splits option.splits dest: keeps_pods_loop)

lemma keeps_updateNodesUsage: "updateNodesUsage src c w = (e, c', w') \<Longrightarrow> P c \<Longrightarrow> P c'"
  by (auto simp: updateNodesUsage_def split: prod.splits sum.splits
      intro!: finalize_nodes fold_inv [where P = P] update_node add_node)

lemma keeps_updatePodsUsage: "updatePodsUsage src c w = (e, c', w') \<Longrightarrow> P c \<Longrightarrow> P c'"
  by (auto simp: updatePodsUsage_def split: prod.splits sum.splits
      intro!: finalize_pods dest: keeps_namespaces_loop)

lemma Execute_collects:
  assumes "Execute src s w = Done (None, s', w')"
  shows "\<exists>c. P c \<and> ps_cluster s' = Some (FinalizeClusterMetrics (cluster_FinalizeKServiceMetrics c))"
proof -
  obtain c1 c2 w1 w2 result where c:
    "updateNodesUsage src NewClusterUsage w = (None, c1, w1)" "updatePodsUsage src c1 w1 = (None, c2, w2)"
    and s': "ps_cluster s' = Some (FinalizeClusterMetrics (cluster_FinalizeKServiceMetrics (fold add_series result c2)))"
    using assms by (rule Execute_Done_None)
  have "P (fold add_series result c2)"
    using c start by (intro fold_inv [where P = P] series) (blast intro: keeps_updateNodesUsage keeps_updatePodsUsage)
  with s' show ?thesis by blast
qed

end

locale executed_usage = collected_usage +
  assumes finalize_services: "P c \<Longrightarrow> P (cluster_FinalizeKServiceMetrics c)"
    and finalize_cluster: "P c \<Longrightarrow> P (FinalizeClusterMetrics c)"
begin

lemma Execute_keeps:
  assumes "Execute src s w = Done (None, s', w')"
  shows "\<exists>c. ps_cluster s' = Some c \<and> P c"
  using Execute_collects [OF assms] finalize_services finalize_cluster by blast

end

interpretation pods: executed_usage pods_inv
  by unfold_locales (simp_all add: pods_inv_new pods_inv_steps pods_inv_add_series)

text \<open>The totals of the cluster are set last: until then they are zero.\<close>

lemma totals_AddKService [edge_simps]:
  "cu_cpu (AddKService n ns c) = cu_cpu c" "cu_memory (AddKService n ns c) = cu_memory c"
  by (simp_all add: AddKService_def Let_def split: option.split)

definition no_totals :: "cluster_usage \<Rightarrow> bool" where
  "no_totals c \<longleftrightarrow> um_capacity (cu_cpu c) = 0 \<and> um_capacity (cu_memory c) = 0"

lemma no_totals_steps:
  "no_totals NewClusterUsage"
  "no_totals c \<Longrightarrow> no_totals (AddNode n c)"
  "no_totals c \<Longrightarrow> no_totals (UpdateNodeMetrics nm c)"
  "no_totals c \<Longrightarrow> no_totals (FinalizeNodeMetrics c)"
  "no_totals c \<Longrightarrow> no_totals (AddPod p c)"
  "no_totals c \<Longrightarrow> no_totals (UpdatePodMetrics pm c)"
  "no_totals c \<Longrightarrow> no_totals (FinalizePodMetrics c)"
  "no_totals c \<Longrightarrow> no_totals (add_series d c)"
  by (auto simp: no_totals_def NewClusterUsage_def metric_zero_def AddNode_def UpdateNodeMetrics_def
      FinalizeNodeMetrics_def AddPod_def UpdatePodMetrics_def FinalizePodMetrics_def add_series_def
      Let_def edge_simps split: option.splits)

interpretation totals: collected_usage no_totals
  by unfold_locales (rule no_totals_steps; assumption?)+

lemma Execute_service_capacity:
  assumes "Execute src s w = Done (None, s', w')" "ps_cluster s' = Some c" "fmlookup (cu_services c) k = Some u"
  shows "um_capacity (ku_cpu u) = 0 \<and> um_capacity (ku_memory u) = 0"
  using totals.Execute_collects [OF assms(1)] assms(2,3)
  by (auto simp: FinalizeClusterMetrics_def cluster_FinalizeKServiceMetrics_def Let_def
      cluster_finalize_service_def metric_finalize_def no_totals_def)

end
