(* ===== verification/TrafficStore.thy ===== *)
theory TrafficStore
  imports KubeModel
begin

text \<open>
  pkg/workoffload/store/store.go: the store that carries the traffic split from the offload
  loop to the service controller. Every operation takes the reading of \<open>time.Now()\<close> it makes
  (nanoseconds); the lock makes each operation one step. The locale \<open>traffic_store\<close> is what
  the two clients rely on; it is interpreted on the store of this theory.
\<close>

section \<open>State and operations\<close>

definition StoreCleanupPeriod :: int where "StoreCleanupPeriod = 30 * 60 * second"
definition StoreMaxItemTtl :: int where "StoreMaxItemTtl = 60 * 60 * second"

record store_item =
  si_timestamp :: int
  si_key :: string
  si_value :: int64

text \<open>The map is nil until \<open>Start\<close> makes it.\<close>

record store =
  st_data :: "(string, store_item) fmap option"

definition store_new :: store where
  "store_new = \<lparr>st_data = None\<rparr>"

definition store_lookup :: "store \<Rightarrow> string \<Rightarrow> store_item option" where
  "store_lookup s key = (case st_data s of None \<Rightarrow> None | Some d \<Rightarrow> fmlookup d key)"

definition store_expired :: "int \<Rightarrow> store_item \<Rightarrow> bool" where
  "store_expired now item \<longleftrightarrow> \<not> (now < si_timestamp item + StoreMaxItemTtl)"

definition store_cleanUp :: "int \<Rightarrow> store \<Rightarrow> store" where
  "store_cleanUp now s =
     (case st_data s of
        None \<Rightarrow> s
      | Some d \<Rightarrow>
          let keysToRemove =
                ffilter (\<lambda>key. case fmlookup d key of None \<Rightarrow> False | Some item \<Rightarrow> store_expired now item)
                  (fmdom d)
          in s\<lparr>st_data := Some (fmdrop_fset keysToRemove d)\<rparr>)"

definition store_Start :: "store \<Rightarrow> store" where
  "store_Start s = (case st_data s of None \<Rightarrow> s\<lparr>st_data := Some fmempty\<rparr> | Some _ \<Rightarrow> s)"

definition store_Set :: "int \<Rightarrow> string \<Rightarrow> int64 \<Rightarrow> store \<Rightarrow> store go" where
  "store_Set now key v s =
     (case st_data s of
        None \<Rightarrow> Panicked ''assignment to entry in nil map''
      | Some d \<Rightarrow>
          Done (s\<lparr>st_data := Some (fmupd key \<lparr>si_timestamp = now, si_key = key, si_value = v\<rparr> d)\<rparr>))"

definition store_Get :: "string \<Rightarrow> store \<Rightarrow> int64 \<times> bool" where
  "store_Get key s =
     (case store_lookup s key of None \<Rightarrow> (0, False) | Some item \<Rightarrow> (si_value item, True))"

definition store_GetLastUpdateTimestamp :: "int \<Rightarrow> string \<Rightarrow> store \<Rightarrow> int \<times> bool" where
  "store_GetLastUpdateTimestamp now key s =
     (case store_lookup s key of None \<Rightarrow> (now, False) | Some item \<Rightarrow> (si_timestamp item, True))"

text \<open>The history of a started store: the calls of its clients and the ticks of its cleaning loop.\<close>

datatype store_event = SetEvent int string int64 | CleanUpEvent int

fun event_time :: "store_event \<Rightarrow> int" where
  "event_time (SetEvent now k v) = now"
| "event_time (CleanUpEvent now) = now"

fun store_step :: "store \<Rightarrow> store_event \<Rightarrow> store go" where
  "store_step s (SetEvent now k v) = store_Set now k v s"
| "store_step s (CleanUpEvent now) = Done (store_cleanUp now s)"

fun store_run :: "store \<Rightarrow> store_event list \<Rightarrow> store go" where
  "store_run s [] = Done s"
| "store_run s (e # es) = bind_go (store_step s e) (\<lambda>s'. store_run s' es)"

section \<open>Facts about the operations\<close>

definition started :: "store \<Rightarrow> bool" where
  "started s \<longleftrightarrow> st_data s \<noteq> None"

text \<open>The Key of an item is the key it is stored under.\<close>

definition store_inv :: "store \<Rightarrow> bool" where
  "store_inv s \<longleftrightarrow> (\<forall>k item. store_lookup s k = Some item \<longrightarrow> si_key item = k)"

lemma store_lookup_Set:
  "store_Set now k v s = Done s' \<Longrightarrow> store_lookup s' k' =
     (if k' = k then Some \<lparr>si_timestamp = now, si_key = k, si_value = v\<rparr> else store_lookup s k')"
  by (auto simp: store_Set_def store_lookup_def split: option.splits)

lemma store_lookup_cleanUp:
  "store_lookup (store_cleanUp now s) k =
     (case store_lookup s k of
        None \<Rightarrow> None | Some item \<Rightarrow> if store_expired now item then None else Some item)"
  by (auto simp: store_cleanUp_def store_lookup_def Let_def fmdomI split: option.splits)

lemma store_lookup_Start [simp]: "store_lookup (store_Start s) k = store_lookup s k"
  by (simp add: store_Start_def store_lookup_def split: option.split)

lemma started_Start [simp]: "started (store_Start s)"
  by (simp add: store_Start_def started_def split: option.split)

lemma started_Set: "store_Set now k v s = Done s' \<Longrightarrow> started s'"
  by (auto simp: store_Set_def started_def split: option.splits)

lemma store_Set_Done: "started s \<Longrightarrow> \<exists>s'. store_Set now k v s = Done s'"
  by (auto simp: store_Set_def started_def)

lemma store_Set_panics_iff: "(\<exists>e. store_Set now k v s = Panicked e) \<longleftrightarrow> \<not> started s"
  by (auto simp: store_Set_def started_def split: option.splits)

lemma started_cleanUp: "started (store_cleanUp now s) = started s"
  by (auto simp: store_cleanUp_def started_def Let_def split: option.splits)

lemma store_inv_new: "store_inv store_new"
  by (simp add: store_inv_def store_lookup_def store_new_def)

lemma store_inv_Start: "store_inv s \<Longrightarrow> store_inv (store_Start s)"
  by (simp add: store_inv_def)

lemma store_inv_Set: "store_inv s \<Longrightarrow> store_Set now k v s = Done s' \<Longrightarrow> store_inv s'"
  by (auto simp: store_inv_def store_lookup_Set split: if_splits)

lemma store_inv_cleanUp: "store_inv s \<Longrightarrow> store_inv (store_cleanUp now s)"
  by (auto simp: store_inv_def store_lookup_cleanUp split: option.splits if_splits)

lemma store_step_started:
  "started s \<Longrightarrow> \<exists>s'. store_step s e = Done s' \<and> started s'"
proof (cases e)
  case (SetEvent now k v)
  assume "started s"
  then obtain s' where "store_Set now k v s = Done s'" using store_Set_Done by blast
  with SetEvent started_Set show ?thesis by auto
qed (simp add: started_cleanUp)

lemma store_step_inv: "store_step s e = Done s' \<Longrightarrow> store_inv s \<Longrightarrow> store_inv s'"
  by (cases e) (auto intro: store_inv_Set store_inv_cleanUp)

lemma store_run_started: "started s \<Longrightarrow> \<exists>s'. store_run s es = Done s' \<and> started s'"
proof (induction es arbitrary: s)
  case (Cons e es)
  then obtain s1 where "store_step s e = Done s1" "started s1"
    using store_step_started by blast
  with Cons.IH [of s1] show ?case by simp
qed simp

lemma store_run_inv: "store_run s es = Done s' \<Longrightarrow> store_inv s \<Longrightarrow> store_inv s'"
  by (induction es arbitrary: s) (auto simp: bind_go_Done_iff intro: store_step_inv)

text \<open>An item is untouched by steps on other keys before it expires.\<close>

fun is_set_of :: "string \<Rightarrow> store_event \<Rightarrow> bool" where
  "is_set_of k (SetEvent now k' v) = (k' = k)"
| "is_set_of k (CleanUpEvent now) = False"

lemma store_step_keeps:
  assumes "store_step s e = Done s'" and "store_lookup s k = Some item"
    and "\<not> is_set_of k e" and "event_time e < si_timestamp item + StoreMaxItemTtl"
  shows "store_lookup s' k = Some item"
  using assms by (cases e) (auto simp: store_lookup_Set store_lookup_cleanUp store_expired_def)

lemma store_run_keeps:
  assumes "store_run s es = Done s'" and "store_lookup s k = Some item"
    and "list_all (\<lambda>e. \<not> is_set_of k e \<and> event_time e < si_timestamp item + StoreMaxItemTtl) es"
  shows "store_lookup s' k = Some item"
  using assms
  by (induction es arbitrary: s) (auto simp: bind_go_Done_iff dest: store_step_keeps)

text \<open>Without a Set of its key, an item never comes back.\<close>

lemma store_run_absent:
  assumes "store_run s es = Done s'" and "store_lookup s k = None"
    and "list_all (\<lambda>e. \<not> is_set_of k e) es"
  shows "store_lookup s' k = None"
  using assms
proof (induction es arbitrary: s)
  case (Cons e es)
  then obtain s1 where s1: "store_step s e = Done s1" "store_run s1 es = Done s'"
    by (auto simp: bind_go_Done_iff)
  have "store_lookup s1 k = None"
    using s1(1) Cons.prems by (cases e) (auto simp: store_lookup_Set store_lookup_cleanUp)
  with Cons s1 show ?case by simp
qed simp

section \<open>The contract of the clients\<close>

text \<open>
  Reading after a write, no panic on a ready store. A client of the store is a loop that reads
  the entry of each element of a list and perhaps writes it back; \<open>store_loop\<close> proves once
  what such a loop does.
\<close>

locale traffic_store =
  fixes set :: "int \<Rightarrow> string \<Rightarrow> int64 \<Rightarrow> 's \<Rightarrow> 's go"
    and get :: "string \<Rightarrow> 's \<Rightarrow> int64 \<times> bool"
    and ready :: "'s \<Rightarrow> bool"
  assumes set_ready: "ready s \<Longrightarrow> \<exists>s'. set now k v s = Done s' \<and> ready s'"
    and get_set: "set now k v s = Done s' \<Longrightarrow> get k' s' = (if k' = k then (v, True) else get k' s)"

locale store_loop = traffic_store set get ready
  for set :: "int \<Rightarrow> string \<Rightarrow> int64 \<Rightarrow> 's \<Rightarrow> 's go"
    and get :: "string \<Rightarrow> 's \<Rightarrow> int64 \<times> bool"
    and ready :: "'s \<Rightarrow> bool" +
  fixes key :: "'a \<Rightarrow> string"
    and new :: "'a \<Rightarrow> int64 \<times> bool \<Rightarrow> int64 option"
    and clk :: "nat \<Rightarrow> int"
    and loop :: "nat \<Rightarrow> 'a list \<Rightarrow> 's \<Rightarrow> 's go"
  assumes loop_Nil: "loop n [] s = Done s"
    and loop_Cons: "loop n (x # xs) s =
      bind_go (case new x (get (key x) s) of None \<Rightarrow> Done s | Some v \<Rightarrow> set (clk n) (key x) v s)
        (loop (Suc n) xs)"
begin

lemma loop_ready: "ready s \<Longrightarrow> \<exists>s'. loop n xs s = Done s' \<and> ready s'"
proof (induction xs arbitrary: n s)
  case Nil
  then show ?case by (simp add: loop_Nil)
next
  case (Cons x xs)
  show ?case
  proof (cases "new x (get (key x) s)")
    case None
    then show ?thesis using Cons by (simp add: loop_Cons)
  next
    case (Some v)
    obtain s1 where "set (clk n) (key x) v s = Done s1" "ready s1"
      using set_ready [OF Cons.prems] by blast
    then show ?thesis using Some Cons.IH [of s1 "Suc n"] by (simp add: loop_Cons)
  qed
qed

lemma loop_ConsE:
  assumes "loop n (x # xs) s = Done s'"
  obtains s1 where "loop (Suc n) xs s1 = Done s'"
    and "\<And>k. get k s1 = (if k = key x
           then (case new x (get (key x) s) of None \<Rightarrow> get k s | Some v \<Rightarrow> (v, True)) else get k s)"
proof (cases "new x (get (key x) s)")
  case None
  show ?thesis by (rule that [of s]) (use assms None in \<open>auto simp: loop_Cons\<close>)
next
  case (Some v)
  then obtain s1 where s1: "set (clk n) (key x) v s = Done s1" "loop (Suc n) xs s1 = Done s'"
    using assms by (auto simp: loop_Cons bind_go_Done_iff)
  show ?thesis by (rule that [of s1]) (use s1 Some get_set [OF s1(1)] in auto)
qed

lemma loop_other: "loop n xs s = Done s' \<Longrightarrow> k \<notin> key ` List.set xs \<Longrightarrow> get k s' = get k s"
proof (induction xs arbitrary: n s)
  case (Cons x xs)
  obtain s1 where "loop (Suc n) xs s1 = Done s'" "get k s1 = get k s"
    using Cons.prems by (auto elim!: loop_ConsE)
  with Cons show ?case by simp
qed (simp add: loop_Nil)

lemma loop_distinct:
  "loop n xs s = Done s' \<Longrightarrow> distinct (map key xs) \<Longrightarrow> x \<in> List.set xs \<Longrightarrow>
    get (key x) s' =
      (case new x (get (key x) s) of None \<Rightarrow> get (key x) s | Some v \<Rightarrow> (v, True))"
proof (induction xs arbitrary: n s)
  case (Cons y ys)
  obtain s1 where s1: "loop (Suc n) ys s1 = Done s'"
    and g: "\<And>k. get k s1 = (if k = key y
           then (case new y (get (key y) s) of None \<Rightarrow> get k s | Some v \<Rightarrow> (v, True)) else get k s)"
    using loop_ConsE [OF Cons.prems(1)] by metis
  show ?case
  proof (cases "x = y")
    case True
    then have "key x \<notin> key ` List.set ys" using Cons.prems(2) by simp
    then show ?thesis using loop_other [OF s1, of "key y"] g [of "key y"] unfolding True by simp
  next
    case False
    then have x: "x \<in> List.set ys" using Cons.prems(3) by simp
    then have "key x \<in> key ` List.set ys" by (rule imageI)
    then have "key x \<noteq> key y" using Cons.prems(2) by auto
    then have e: "get (key x) s1 = get (key x) s" by (simp add: g)
    show ?thesis using Cons.IH [OF s1 _ x] Cons.prems(2) unfolding e by simp
  qed
qed simp

lemma loop_invariant:
  assumes "loop n xs s = Done s'" and "P (get k s)"
    and "\<And>x old v. x \<in> List.set xs \<Longrightarrow> new x old = Some v \<Longrightarrow> key x = k \<Longrightarrow> P (v, True)"
  shows "P (get k s')"
  using assms
proof (induction xs arbitrary: n s)
  case (Cons x xs)
  obtain s1 where s1: "loop (Suc n) xs s1 = Done s'"
    and g: "get k s1 = (if k = key x
           then (case new x (get (key x) s) of None \<Rightarrow> get k s | Some v \<Rightarrow> (v, True)) else get k s)"
    using Cons.prems(1) by (auto elim!: loop_ConsE)
  have "P (get k s1)"
  proof (cases "k = key x \<and> new x (get (key x) s) \<noteq> None")
    case True
    then obtain v where v: "new x (get (key x) s) = Some v" by blast
    have "P (v, True)" by (rule Cons.prems(3) [OF _ v]) (use True in simp_all)
    then show ?thesis using True v g by simp
  next
    case False
    then have "get k s1 = get k s" by (auto simp: g)
    then show ?thesis using Cons.prems(2) by simp
  qed
  then show ?case by (rule Cons.IH [OF s1]) (use Cons.prems(3) in auto)
qed (simp add: loop_Nil)

end

interpretation ts: traffic_store store_Set store_Get started
proof unfold_locales
  show "\<exists>s'. store_Set now k v s = Done s' \<and> started s'" if "started s" for s now k v
    using store_Set_Done [OF that] started_Set by blast
  show "store_Get k' s' = (if k' = k then (v, True) else store_Get k' s)"
    if "store_Set now k v s = Done s'" for s s' now k v k'
    using store_lookup_Set [OF that] by (simp add: store_Get_def)
qed

end
