(* ===== verification/Offload.thy ===== *)
theory Offload
  imports PromStrategy TrafficStore
begin

text \<open>
  pkg/workoffload/runnable.go, the evaluation: \<open>run\<close> executes the strategy, recovers the
  traffic of services the store does not know, and moves the stored traffic of every service
  towards what the strategy wants. Both loops are clients of the store: the locale
  \<open>store_loop\<close> is interpreted on each. \<open>clk n\<close> is the reading of the clock at the
  \<open>n\<close>-th call of the store.
\<close>

section \<open>Operations\<close>

definition TrafficInertiaAnnotation :: string where
  "TrafficInertiaAnnotation = ''strategy.edge.jevv.dev/traffic-inertia''"
definition TrafficInertiaDefaultValue :: f32 where "TrafficInertiaDefaultValue = F_Fin (3 / 4)"

definition service_key :: "service \<Rightarrow> string" where
  "service_key s = nsname_str (service_nsname s)"

text \<open>The annotation is used exactly when it does not parse.\<close>

definition recovered_traffic :: "service \<Rightarrow> int64" where
  "recovered_traffic service =
     (case om_annotations (svc_meta service) of
        None \<Rightarrow> 0
      | Some _ \<Rightarrow>
          (case parse_int (mget (om_annotations (svc_meta service)) EdgeProxyTrafficAnnotation) of
             (previousTraffic, err) \<Rightarrow> if err \<noteq> None then word_of_int previousTraffic else 0))"

fun recover_loop :: "(nat \<Rightarrow> int) \<Rightarrow> nat \<Rightarrow> service list \<Rightarrow> store \<Rightarrow> store go" where
  "recover_loop clk n [] st = Done st"
| "recover_loop clk n (service # ss) st =
     (if snd (store_Get (service_key service) st) then recover_loop clk (Suc n) ss st
      else bind_go (store_Set (clk n) (service_key service) (recovered_traffic service) st)
             (recover_loop clk (Suc n) ss))"

definition inertia_of :: "service \<Rightarrow> f32" where
  "inertia_of service =
     (let inertiaAnnotation = mget (om_annotations (svc_meta service)) TrafficInertiaAnnotation in
      if inertiaAnnotation \<noteq> []
      then (case parse_float32 inertiaAnnotation of None \<Rightarrow> TrafficInertiaDefaultValue | Some v \<Rightarrow> v)
      else TrafficInertiaDefaultValue)"

definition blend :: "(f32 \<Rightarrow> int64) \<Rightarrow> f32 \<Rightarrow> int64 \<Rightarrow> int64 \<Rightarrow> int64" where
  "blend cv inertia traffic desired =
     f32_to_int64 cv
       (fadd (fmul (f32_of_int64 traffic) inertia)
             (fmul (f32_of_int64 desired) (fsub (F_Fin 1) inertia)))"

definition clamp :: "int64 \<Rightarrow> int64" where
  "clamp traffic = (if 100 < sint traffic then 100 else if sint traffic < 0 then 0 else traffic)"

fun next_traffic :: "(f32 \<Rightarrow> int64) \<Rightarrow> offload_result \<Rightarrow> int64 \<times> bool \<Rightarrow> int64 option" where
  "next_traffic cv result (stored, exists) =
     (let traffic = (if exists then stored else 0) in
      case or_action result of
        PreserveTraffic \<Rightarrow> None
      | SetTraffic \<Rightarrow> Some (clamp (blend cv (inertia_of (or_service result)) traffic (or_desired result)))
      | IncreaseTraffic \<Rightarrow> Some (clamp (traffic + 10))
      | DecreaseTraffic \<Rightarrow> Some (clamp (traffic - 2)))"

fun apply_loop :: "(f32 \<Rightarrow> int64) \<Rightarrow> (nat \<Rightarrow> int) \<Rightarrow> nat \<Rightarrow> offload_result list \<Rightarrow> store \<Rightarrow> store go" where
  "apply_loop cv clk n [] st = Done st"
| "apply_loop cv clk n (result # rs) st =
     (case next_traffic cv result (store_Get (nsname_str (or_name result)) st) of
        None \<Rightarrow> apply_loop cv clk (Suc n) rs st
      | Some traffic \<Rightarrow>
          bind_go (store_Set (clk n) (nsname_str (or_name result)) traffic st) (apply_loop cv clk (Suc n) rs))"

text \<open>The state of the runnable: the strategy's own, and the store it shares.\<close>

record 's offload =
  of_strategy :: 's
  of_store :: store

definition run :: "(f32 \<Rightarrow> int64) \<Rightarrow> (nat \<Rightarrow> int) \<Rightarrow> ('s, 'w) strategy \<Rightarrow> service list \<Rightarrow> 's offload \<Rightarrow> 'w \<Rightarrow>
    (string option \<times> 's offload \<times> 'w) go" where
  "run cv clk sg services t w =
     (if services = [] then Done (None, t, w)
      else bind_go (sg_execute sg (of_strategy t) w) (\<lambda>r. case r of
        (Some e, s1, w1) \<Rightarrow> Done (Some (''could not execute strategy: '' @ e), t\<lparr>of_strategy := s1\<rparr>, w1)
      | (None, s1, w1) \<Rightarrow>
          bind_go (recover_loop clk 0 services (of_store t)) (\<lambda>st1.
            bind_go (sg_results sg services s1) (\<lambda>rs.
              bind_go (apply_loop cv clk (length services) (fst rs) st1) (\<lambda>st2.
                Done (None, \<lparr>of_strategy = snd rs, of_store = st2\<rparr>, w1))))))"

section \<open>Both loops are clients of the store\<close>

definition recover_new :: "service \<Rightarrow> int64 \<times> bool \<Rightarrow> int64 option" where
  "recover_new service old = (if snd old then None else Some (recovered_traffic service))"

interpretation rec: store_loop store_Set store_Get started service_key recover_new clk "recover_loop clk"
  for clk
proof unfold_locales
  fix n s
  show "recover_loop clk n [] s = Done s" by simp
next
  fix n x xs s
  show "recover_loop clk n (x # xs) s =
      bind_go (case recover_new x (store_Get (service_key x) s) of
          None \<Rightarrow> Done s | Some v \<Rightarrow> store_Set (clk n) (service_key x) v s) (recover_loop clk (Suc n) xs)"
    by (simp add: recover_new_def)
qed

interpretation app: store_loop store_Set store_Get started "\<lambda>r. nsname_str (or_name r)" "next_traffic cv" clk
    "apply_loop cv clk"
  for cv clk
proof unfold_locales
  fix n s
  show "apply_loop cv clk n [] s = Done s" by simp
next
  fix n x xs s
  show "apply_loop cv clk n (x # xs) s =
      bind_go (case next_traffic cv x (store_Get (nsname_str (or_name x)) s) of
          None \<Rightarrow> Done s | Some v \<Rightarrow> store_Set (clk n) (nsname_str (or_name x)) v s) (apply_loop cv clk (Suc n) xs)"
    by (simp split: option.split)
qed

section \<open>Facts: one step of the traffic\<close>

lemma clamp_bounds: "0 \<le> sint (clamp t) \<and> sint (clamp t) \<le> 100"
  by (simp add: clamp_def)

lemma clamp_id: "0 \<le> sint t \<Longrightarrow> sint t \<le> 100 \<Longrightarrow> clamp t = t"
  by (simp add: clamp_def)

lemma next_traffic_bounds: "next_traffic cv r old = Some v \<Longrightarrow> 0 \<le> sint v \<and> sint v \<le> 100"
  by (cases old) (auto simp: Let_def clamp_bounds split: traffic_action.splits)

lemma next_traffic_None_iff: "next_traffic cv r old = None \<longleftrightarrow> or_action r = PreserveTraffic"
  by (cases old) (auto simp: Let_def split: traffic_action.splits)

text \<open>With the default inertia the arithmetic is exact.\<close>

lemma blend_default:
  assumes "0 \<le> sint t" "sint t \<le> 100" "0 \<le> sint d" "sint d \<le> 100"
  shows "blend cv TrafficInertiaDefaultValue t d = word_of_int ((3 * sint t + sint d) div 4)"
proof -
  have ft: "f32_of_int64 t = F_Fin (of_int (sint t))" and fd: "f32_of_int64 d = F_Fin (of_int (sint d))"
    using assms by (simp_all add: f32_of_int64_small)
  have one: "fsub (F_Fin 1) (F_Fin (3 / 4)) = F_Fin (1 / 4)" by code_simp
  have a: "fmul (F_Fin (of_int (sint t))) (F_Fin (3 / 4)) = F_Fin (of_int (3 * sint t) / 4)"
    using round32_quarter [of "3 * sint t"] assms
    by (simp add: fmul_def Let_def fzero_def mult.commute [of _ 3])
  have b: "fmul (F_Fin (of_int (sint d))) (F_Fin (1 / 4)) = F_Fin (of_int (sint d) / 4)"
    using round32_quarter [of "sint d"] assms
    by (simp add: fmul_def Let_def fzero_def)
  have c: "fadd (F_Fin (of_int (3 * sint t) / 4)) (F_Fin (of_int (sint d) / 4))
      = F_Fin (of_int (3 * sint t + sint d) / 4)"
    using round32_quarter [of "3 * sint t + sint d"] assms by (simp add: add_divide_distrib)
  have tr: "trunc (of_int (3 * sint t + sint d) / 4) = (3 * sint t + sint d) div 4"
    using assms floor_divide_of_int_eq [of "3 * sint t + sint d" 4, where 'a = rat]
    by (simp add: trunc_def)
  have "in_int64 ((3 * sint t + sint d) div 4)" using assms by linarith
  then show ?thesis
    unfolding blend_def TrafficInertiaDefaultValue_def ft fd one a b c f32_to_int64_def
    by (simp only: fis_simps fval.simps tr) simp
qed

lemma mix_bounds:
  assumes "0 \<le> (t :: int)" "t \<le> 100" "0 \<le> d" "d \<le> 100"
  shows "0 \<le> (3 * t + d) div 4" "(3 * t + d) div 4 \<le> 100" "t \<le> 97 \<Longrightarrow> (3 * t + d) div 4 \<le> 97"
  using assms by linarith+

lemma sint_blend_default:
  assumes "0 \<le> sint t" "sint t \<le> 100" "0 \<le> sint d" "sint d \<le> 100"
  shows "sint (blend cv TrafficInertiaDefaultValue t d) = (3 * sint t + sint d) div 4"
  using mix_bounds [OF assms] by (simp add: blend_default [OF assms])

text \<open>
  Repeating it: a stored traffic of at most 97 never gets above 97, and from 0 with a desired
  traffic of 100 it takes 14 evaluations to get there.
\<close>

definition evaluate_default :: "(f32 \<Rightarrow> int64) \<Rightarrow> int64 \<Rightarrow> int64 \<Rightarrow> int64" where
  "evaluate_default cv d t = clamp (blend cv TrafficInertiaDefaultValue t d)"

lemma evaluate_default:
  assumes "0 \<le> sint t" "sint t \<le> 100" "0 \<le> sint d" "sint d \<le> 100"
  shows "sint (evaluate_default cv d t) = (3 * sint t + sint d) div 4"
  using mix_bounds [OF assms] sint_blend_default [OF assms, of cv]
  by (simp add: evaluate_default_def clamp_id)

lemma evaluate_default_iterate:
  assumes "0 \<le> sint t" "sint t \<le> 100" "0 \<le> sint d" "sint d \<le> 100"
  shows "sint ((evaluate_default cv d ^^ n) t) = ((\<lambda>x. (3 * x + sint d) div 4) ^^ n) (sint t) \<and>
    0 \<le> sint ((evaluate_default cv d ^^ n) t) \<and> sint ((evaluate_default cv d ^^ n) t) \<le> 100"
proof (induction n)
  case (Suc n)
  then have b: "0 \<le> sint ((evaluate_default cv d ^^ n) t)" "sint ((evaluate_default cv d ^^ n) t) \<le> 100"
    by auto
  then show ?case
    using evaluate_default [OF b assms(3,4), of cv] mix_bounds [OF b assms(3,4)] Suc by simp
qed (use assms in simp)

section \<open>Facts: the loops\<close>

lemma recover_loop_get:
  assumes "recover_loop clk n ss st = Done st'" "distinct (map service_key ss)" "s \<in> set ss"
  shows "store_Get (service_key s) st' =
    (if snd (store_Get (service_key s) st) then store_Get (service_key s) st else (recovered_traffic s, True))"
  using rec.loop_distinct [OF assms] by (simp add: recover_new_def)

lemma recover_loop_other:
  "recover_loop clk n ss st = Done st' \<Longrightarrow> k \<notin> service_key ` set ss \<Longrightarrow> store_Get k st' = store_Get k st"
  by (rule rec.loop_other)

lemma apply_loop_get:
  assumes "apply_loop cv clk n rs st = Done st'" "distinct (map (\<lambda>r. nsname_str (or_name r)) rs)" "r \<in> set rs"
  shows "store_Get (nsname_str (or_name r)) st' =
    (case next_traffic cv r (store_Get (nsname_str (or_name r)) st) of
       None \<Rightarrow> store_Get (nsname_str (or_name r)) st | Some v \<Rightarrow> (v, True))"
  using assms by (rule app.loop_distinct)

text \<open>A stored traffic is a percentage.\<close>

definition percent_pair :: "int64 \<times> bool \<Rightarrow> bool" where
  "percent_pair p \<longleftrightarrow> 0 \<le> sint (fst p) \<and> sint (fst p) \<le> 100"

lemma apply_loop_percent:
  "apply_loop cv clk n rs st = Done st' \<Longrightarrow> percent_pair (store_Get k st) \<Longrightarrow> percent_pair (store_Get k st')"
  by (erule app.loop_invariant) (auto simp: percent_pair_def dest: next_traffic_bounds)

definition annotation_in_range :: "service \<Rightarrow> bool" where
  "annotation_in_range s \<longleftrightarrow>
     snd (parse_int (mget (om_annotations (svc_meta s)) EdgeProxyTrafficAnnotation)) \<noteq> Some ErrRange"

text \<open>Recovering yields 0 for every annotation but the ones out of range: there it is an extreme.\<close>

lemma recovered_traffic_in_range: "annotation_in_range s \<Longrightarrow> recovered_traffic s = 0"
  using parse_int_syntax [of "mget (om_annotations (svc_meta s)) EdgeProxyTrafficAnnotation"]
  by (cases "parse_int (mget (om_annotations (svc_meta s)) EdgeProxyTrafficAnnotation)")
    (auto simp: recovered_traffic_def annotation_in_range_def split: option.split, metis num_error.exhaust of_int_0)

lemma recovered_traffic_out_of_range:
  assumes "om_annotations (svc_meta s) \<noteq> None" "\<not> annotation_in_range s"
  shows "sint (recovered_traffic s) = int64_max \<or> sint (recovered_traffic s) = int64_min"
  using assms parse_int_range [of "mget (om_annotations (svc_meta s)) EdgeProxyTrafficAnnotation"]
  by (cases "parse_int (mget (om_annotations (svc_meta s)) EdgeProxyTrafficAnnotation)")
    (auto simp: recovered_traffic_def annotation_in_range_def)

lemma recover_loop_percent:
  "recover_loop clk n ss st = Done st' \<Longrightarrow> list_all annotation_in_range ss \<Longrightarrow>
    percent_pair (store_Get k st) \<Longrightarrow> percent_pair (store_Get k st')"
  by (erule rec.loop_invariant)
    (auto simp: percent_pair_def recover_new_def recovered_traffic_in_range list_all_iff split: if_splits)

section \<open>Facts: run\<close>

lemma run_Nil: "run cv clk sg [] t w = Done (None, t, w)"
  by (simp add: run_def)

lemma run_error:
  "services \<noteq> [] \<Longrightarrow> sg_execute sg (of_strategy t) w = Done (Some e, s1, w1) \<Longrightarrow>
    run cv clk sg services t w = Done (Some (''could not execute strategy: '' @ e), t\<lparr>of_strategy := s1\<rparr>, w1)"
  by (simp add: run_def)

lemma run_DoneE:
  assumes "run cv clk sg services t w = Done (e, t', w')"
  obtains (skip) "of_store t' = of_store t"
  | (eval) s1 st1 rs where "sg_execute sg (of_strategy t) w = Done (None, s1, w')"
      "recover_loop clk 0 services (of_store t) = Done st1"
      "sg_results sg services s1 = Done rs"
      "apply_loop cv clk (length services) (fst rs) st1 = Done (of_store t')"
proof (cases "services = []")
  case False
  then obtain o1 s1 w1 where x: "sg_execute sg (of_strategy t) w = Done (o1, s1, w1)"
    using assms by (auto simp: run_def bind_go_Done_iff)
  show thesis
  proof (cases o1)
    case None
    then show thesis
      using x assms False by (auto simp: run_def bind_go_Done_iff intro: eval)
  next
    case (Some a)
    then show thesis using x assms False by (auto simp: run_def intro: skip)
  qed
qed (use assms in \<open>auto simp: run_def intro: skip\<close>)

lemma run_percent:
  assumes "run cv clk sg services t w = Done (e, t', w')" "list_all annotation_in_range services"
    and "percent_pair (store_Get k (of_store t))"
  shows "percent_pair (store_Get k (of_store t'))"
  using assms(1)
  by (cases rule: run_DoneE) (use assms(2,3) recover_loop_percent apply_loop_percent in \<open>metis | simp\<close>)+

lemma run_result:
  assumes "services \<noteq> []" "sg_execute sg (of_strategy t) w = Done (None, s1, w1)"
    and "recover_loop clk 0 services (of_store t) = Done st1"
    and "sg_results sg services s1 = Done (rs, s2)"
    and "distinct (map (\<lambda>r. nsname_str (or_name r)) rs)" "r \<in> set rs"
    and "next_traffic cv r (store_Get (nsname_str (or_name r)) st1) = Some v"
    and "run cv clk sg services t w = Done (e, t', w')"
  shows "store_Get (nsname_str (or_name r)) (of_store t') = (v, True)"
proof -
  have "apply_loop cv clk (length services) rs st1 = Done (of_store t')"
    using assms by (auto simp: run_def bind_go_Done_iff)
  then show ?thesis using apply_loop_get [of cv clk _ rs st1] assms by fastforce
qed

lemma run_started:
  assumes "started (of_store t)" "services \<noteq> []" "sg_execute sg (of_strategy t) w = Done (None, s1, w1)"
    and "sg_results sg services s1 = Done (rs, s2)"
  shows "\<exists>st'. run cv clk sg services t w = Done (None, \<lparr>of_strategy = s2, of_store = st'\<rparr>, w1) \<and> started st'"
proof -
  obtain st1 where st1: "recover_loop clk 0 services (of_store t) = Done st1" "started st1"
    using rec.loop_ready [OF assms(1)] by blast
  obtain st2 where "apply_loop cv clk (length services) rs st1 = Done st2" "started st2"
    using app.loop_ready [OF st1(2)] by blast
  then show ?thesis using assms st1 by (simp add: run_def)
qed

end
