(* ===== verification/KService.thy ===== *)
theory KService
  imports Mirroring Offload
begin

text \<open>
  The controller of Knative services: kservice_controller.go (merging the remote service into
  the local one), kconfiguration_reconciler.go (the configuration that runs the edge proxy) and
  kservice_reconciler.go (the traffic split between the local revision and the proxy). The two
  reconcilers are the preprocessors of the mirror. The traffic store is read only; it is the
  field \<open>kr_store\<close>.
\<close>

section \<open>State\<close>

record 'w kservice_reconciler =
  kr_client :: "(service, 'w) kclient option"
  kr_remote :: "(service, 'w) kclient option"
  kr_configurations :: "(configuration, 'w) kclient"
  kr_remote_url :: string
  kr_proxy_image :: string
  kr_http_proxy :: string
  kr_envs :: "string list option"
  kr_store :: store

section \<open>kservice_controller.go\<close>

definition kServiceHasComputeOffloadLabel :: "service option \<Rightarrow> bool" where
  "kServiceHasComputeOffloadLabel service =
     (case service of
        None \<Rightarrow> False
      | Some s \<Rightarrow>
          (case mlookup (om_labels (svc_meta s)) EdgeOffloadLabel of
             None \<Rightarrow> False
           | Some value \<Rightarrow> to_lower value = ''true''))"

definition copied_annotation :: "string \<Rightarrow> bool" where
  "copied_annotation key \<longleftrightarrow> has_prefix key ''edge.jevv.dev/'' \<or> has_prefix key ''strategy.edge.jevv.dev/''"

definition merge_annotations :: "string \<Rightarrow> service \<Rightarrow> gomap \<Rightarrow> gomap" where
  "merge_annotations remoteUrl src annotations0 =
     (let annotations1 = Some (mmake annotations0);
          annotations2 = (case svc_url_host src of
            None \<Rightarrow> annotations1 | Some host \<Rightarrow> mput RemoteHostAnnotation host annotations1);
          annotations3 = mput RemoteUrlAnnotation remoteUrl annotations2
      in Some (mmake annotations3 ++\<^sub>f fmfilter copied_annotation (mmake (om_annotations (svc_meta src)))))"

definition mark_template :: "revision_template \<Rightarrow> revision_template" where
  "mark_template t = t\<lparr>rt_labels := mput EdgeLocalLabel ''true'' (rt_labels t)\<rparr>"

definition kservice_kindMerger :: "string \<Rightarrow> service \<Rightarrow> service \<Rightarrow> service" where
  "kservice_kindMerger remoteUrl src dst =
     dst\<lparr>svc_meta := (svc_meta dst)
           \<lparr>om_name := om_name (svc_meta src), om_namespace := om_namespace (svc_meta src),
            om_labels := om_labels (svc_meta src),
            om_annotations := merge_annotations remoteUrl src (om_annotations (svc_meta dst))\<rparr>,
         svc_template := mark_template (svc_template src)\<rparr>"

definition findServiceFromConfiguration :: "configuration option \<Rightarrow> nsname list" where
  "findServiceFromConfiguration obj =
     (case obj of
        None \<Rightarrow> []
      | Some configuration \<Rightarrow>
          [\<lparr>ns_namespace = om_namespace (cfg_meta configuration),
            ns_name = GetServiceNameFromConfiguration configuration\<rparr>])"

section \<open>kconfiguration_reconciler.go\<close>

definition proxy_container :: "'w kservice_reconciler \<Rightarrow> service \<Rightarrow> container \<Rightarrow> container" where
  "proxy_container r service c =
     c\<lparr>ct_name := ''edge-proxy'', ct_image := kr_proxy_image r,
       ct_env := Some
         [\<lparr>ev_name = ''REMOTE_URL'', ev_value = mget (om_annotations (svc_meta service)) RemoteUrlAnnotation\<rparr>,
          \<lparr>ev_name = ''REMOTE_HOST'', ev_value = mget (om_annotations (svc_meta service)) RemoteHostAnnotation\<rparr>,
          \<lparr>ev_name = ''REMOTE_PROXY'', ev_value = kr_http_proxy r\<rparr>]\<rparr>"

definition build_containers :: "'w kservice_reconciler \<Rightarrow> service \<Rightarrow> container list option \<Rightarrow> container list option" where
  "build_containers r service containers =
     (case elems containers of
        [] \<Rightarrow> Some [proxy_container r service container_zero]
      | c # cs \<Rightarrow> Some (proxy_container r service c # cs))"

definition buildConfiguration :: "'w kservice_reconciler \<Rightarrow> nsname \<Rightarrow> configuration \<Rightarrow> service \<Rightarrow> configuration" where
  "buildConfiguration r namespacedName configuration service =
     configuration\<lparr>cfg_meta := (cfg_meta configuration)
         \<lparr>om_name := ns_name namespacedName, om_namespace := ns_namespace namespacedName,
          om_labels :=
            mput ManagedByLabel ''knative-edge''
              (mput CreatedByLabel ''knative-edge''
                (mput ManagedLabel ''true''
                  (mput EdgeLocalLabel ''true'' (om_labels (cfg_meta configuration))))),
          om_annotations :=
            mput LastGenerationAnnotation (sprint_int64 (om_generation (svc_meta service)))
              (om_annotations (cfg_meta configuration))\<rparr>,
       cfg_template := (cfg_template configuration)
         \<lparr>rt_containers := build_containers r service (rt_containers (cfg_template configuration)),
          rt_concurrency := Some 8,
          rt_labels := mput ManagedLabel ''true'' (mput EdgeLocalLabel ''true'' (rt_labels (cfg_template configuration))),
          rt_annotations :=
            mput ''autoscaling.knative.dev/max-scale'' ''5''
              (mput ''autoscaling.knative.dev/min-scale'' ''3'' (rt_annotations (cfg_template configuration)))\<rparr>\<rparr>"

definition configuration_name :: "service \<Rightarrow> nsname" where
  "configuration_name service = GetConfigurationNamespacedName (service_nsname service)"

definition make_annotations :: "configuration \<Rightarrow> configuration" where
  "make_annotations c =
     c\<lparr>cfg_meta := (cfg_meta c)\<lparr>om_annotations := Some (mmake (om_annotations (cfg_meta c)))\<rparr>\<rparr>"

text \<open>The copy that is written, and \<open>shouldUpdate\<close>: the comparison comes before the second stamp.\<close>

definition next_configuration ::
  "'w kservice_reconciler \<Rightarrow> service \<Rightarrow> configuration \<Rightarrow> configuration \<times> bool"
where
  "next_configuration r service localConfiguration =
     (let built = buildConfiguration r (configuration_name service) (make_annotations localConfiguration) service
      in (built\<lparr>cfg_meta := UpdateLastRemoteGenerationAnnotation (cfg_meta built) (svc_meta service)\<rparr>,
          localConfiguration \<noteq> built))"

definition reconcileKConfiguration ::
  "'w kservice_reconciler \<Rightarrow> service option \<Rightarrow> 'w \<Rightarrow> (ctrl_result \<times> go_error option) \<times> 'w"
where
  "reconcileKConfiguration r svc w =
     (case svc of
        None \<Rightarrow> ((result_zero, None), w)
      | Some service \<Rightarrow>
          if om_resource_version (svc_meta service) = [] then ((requeue_in second, None), w)
          else
            let g = kc_get (kr_configurations r) (configuration_name service) w in
            case hard_error g of
              Some e \<Rightarrow> ((result_zero, Some (ErrApi e)), w)
            | None \<Rightarrow>
                let missing = isl g; localConfiguration = got configuration_zero g in
                if \<not> kServiceHasComputeOffloadLabel (Some service) then
                  if missing then ((result_zero, None), w)
                  else
                    (case kc_delete (kr_configurations r) (make_annotations localConfiguration) w of
                       (None, w') \<Rightarrow> ((result_zero, None), w')
                     | (Some e, w') \<Rightarrow>
                         if e = NotFound then ((result_zero, None), w') else ((result_zero, Some (ErrApi e)), w'))
                else
                  case next_configuration r service localConfiguration of (configuration, shouldUpdate) \<Rightarrow>
                    if missing then
                      (case kc_create (kr_configurations r) configuration w of
                         (Inr _, w') \<Rightarrow> ((requeue_in second, None), w')
                       | (Inl e, w') \<Rightarrow>
                           if e = Conflict then ((requeue_now, None), w') else ((result_zero, Some (ErrApi e)), w'))
                    else if shouldUpdate then
                      (case kc_update (kr_configurations r) configuration w of
                         (Inr _, w') \<Rightarrow> ((requeue_in second, None), w')
                       | (Inl e, w') \<Rightarrow>
                           if e = Conflict then ((requeue_now, None), w') else ((result_zero, Some (ErrApi e)), w'))
                    else ((result_zero, None), w))"

section \<open>kservice_reconciler.go\<close>

definition previous_split :: "service \<Rightarrow> int64" where
  "previous_split service =
     (case om_annotations (svc_meta service) of
        None \<Rightarrow> 0
      | Some _ \<Rightarrow>
          (case parse_int (mget (om_annotations (svc_meta service)) EdgeProxyTrafficAnnotation) of
             (previousTraffic, err) \<Rightarrow> if err \<noteq> None then word_of_int previousTraffic else 0))"

definition traffic_split :: "store \<Rightarrow> service \<Rightarrow> int64" where
  "traffic_split st service =
     (let stored = store_Get (service_key service) st;
          trafficSplit = (if snd stored then fst stored else previous_split service)
      in case mlookup (om_annotations (svc_meta service)) EdgeFixedTrafficAnnotation of
           None \<Rightarrow> trafficSplit
         | Some fixedTraffic \<Rightarrow>
             (case parse_int fixedTraffic of
                (fixedTrafficSplit, None) \<Rightarrow> word_of_int fixedTrafficSplit
              | (_, Some _) \<Rightarrow> trafficSplit))"

definition latest_target :: "service \<Rightarrow> int64 \<Rightarrow> traffic_target" where
  "latest_target service trafficSplit =
     (case GetLatestRevisionTarget (Some service) of
        Some target \<Rightarrow> target\<lparr>tt_percent := Some (100 - trafficSplit)\<rparr>
      | None \<Rightarrow> target_zero\<lparr>tt_latest_revision := Some True, tt_percent := Some (100 - trafficSplit)\<rparr>)"

definition set_traffic :: "service \<Rightarrow> traffic_target \<Rightarrow> traffic_target \<Rightarrow> int64 \<Rightarrow> service" where
  "set_traffic service latest proxy trafficSplit =
     service\<lparr>svc_traffic := Some [latest, proxy],
       svc_meta := (svc_meta service)
         \<lparr>om_annotations := mput EdgeProxyTrafficAnnotation (sprint_int64 trafficSplit)
             (om_annotations (svc_meta service))\<rparr>\<rparr>"

definition proxy_target :: "service \<Rightarrow> configuration \<Rightarrow> int64 \<Rightarrow> traffic_target" where
  "proxy_target service configuration trafficSplit =
     (case GetEdgeProxyTarget (Some service) of
        Some target \<Rightarrow>
          target\<lparr>tt_revision_name := GetTargetNameFromConfiguration configuration,
                 tt_tag := GetTargetTagFromConfiguration (Some configuration),
                 tt_percent := Some trafficSplit\<rparr>
      | None \<Rightarrow>
          target_zero\<lparr>tt_revision_name := GetTargetNameFromConfiguration configuration,
                      tt_tag := GetTargetTagFromConfiguration (Some configuration),
                      tt_percent := Some trafficSplit\<rparr>)"

text \<open>A service without a proxy target waits until the configuration has a ready revision.\<close>

definition reconcileKService ::
  "'w kservice_reconciler \<Rightarrow> service option \<Rightarrow> 'w \<Rightarrow> (ctrl_result \<times> go_error option \<times> service option) \<times> 'w"
where
  "reconcileKService r svc w =
     (case svc of
        None \<Rightarrow> ((result_zero, None, None), w)
      | Some service \<Rightarrow>
          let g = kc_get (kr_configurations r) (configuration_name service) w in
          if \<not> kServiceHasComputeOffloadLabel (Some service) then
            (case g of
               Inl e \<Rightarrow>
                 if e = NotFound then ((result_zero, None, snd (RemoveEdgeProxyTarget svc)), w)
                 else ((result_zero, Some (ErrApi e), svc), w)
             | Inr configuration \<Rightarrow>
                 (case kc_delete (kr_configurations r) configuration w of
                    (None, w') \<Rightarrow> ((result_zero, None, snd (RemoveEdgeProxyTarget svc)), w')
                  | (Some e, w') \<Rightarrow>
                      if e = Conflict then ((requeue_now, None, svc), w')
                      else if e = NotFound then ((result_zero, None, snd (RemoveEdgeProxyTarget svc)), w')
                      else ((result_zero, Some (ErrApi e), svc), w')))
          else
            (case g of
               Inl e \<Rightarrow>
                 if e = NotFound then ((requeue_in (5 * second), None, svc), w)
                 else ((result_zero, Some (ErrApi e), svc), w)
             | Inr configuration \<Rightarrow>
                 let trafficSplit = traffic_split (kr_store r) service in
                 if GetEdgeProxyTarget svc = None \<and> GetTargetNameFromConfiguration configuration = []
                 then ((requeue_in (5 * second), None, svc), w)
                 else ((requeue_in (EvaluationPeriodInSeconds * second), None,
                        Some (set_traffic service (latest_target service trafficSplit)
                                (proxy_target service configuration trafficSplit) trafficSplit)), w)))"

section \<open>The mirror\<close>

definition set_svc_meta :: "object_meta \<Rightarrow> service \<Rightarrow> service" where
  "set_svc_meta m s = s\<lparr>svc_meta := m\<rparr>"

definition pre_configuration :: "'w kservice_reconciler \<Rightarrow> (service, 'w) preprocessor" where
  "pre_configuration r service w =
     (case reconcileKConfiguration r (Some service) w of ((res, err), w') \<Rightarrow> ((res, err, service), w'))"

definition pre_service :: "'w kservice_reconciler \<Rightarrow> (service, 'w) preprocessor" where
  "pre_service r service w =
     (case reconcileKService r (Some service) w of
        ((res, err, s'), w') \<Rightarrow> ((res, err, case s' of None \<Rightarrow> service | Some x \<Rightarrow> x), w'))"

text \<open>\<open>SetupWithManager\<close> fills the mirror; the reconciler calls it.\<close>

definition kservice_mirror :: "'w kservice_reconciler \<Rightarrow> (service, 'w) mirror" where
  "kservice_mirror r =
     \<lparr>mr_client = kr_client r, mr_remote = kr_remote r, mr_zero = service_zero, mr_meta = svc_meta,
      mr_set_meta = set_svc_meta, mr_merger = kservice_kindMerger (kr_remote_url r),
      mr_preprocessors = Some [pre_configuration r, pre_service r], mr_envs = kr_envs r\<rparr>"

definition kservice_Reconcile :: "'w kservice_reconciler \<Rightarrow> nsname \<Rightarrow> 'w \<Rightarrow> (ctrl_result \<times> go_error option) \<times> 'w" where
  "kservice_Reconcile r req w = Reconcile (kservice_mirror r) req w"

section \<open>Facts: merging\<close>

lemma constants_copied [simp]:
  "copied_annotation RemoteUrlAnnotation" "copied_annotation RemoteHostAnnotation"
  "copied_annotation LastGenerationAnnotation" "copied_annotation LastRemoteGenerationAnnotation"
  "copied_annotation EdgeProxyTrafficAnnotation" "copied_annotation EdgeFixedTrafficAnnotation"
  "copied_annotation TrafficInertiaAnnotation"
  by code_simp+

text \<open>The value a merge gives to an annotation, if it gives one: else the local value stays.\<close>

definition merged_value :: "string \<Rightarrow> service \<Rightarrow> string \<Rightarrow> string option" where
  "merged_value url s k =
     (if copied_annotation k \<and> mlookup (om_annotations (svc_meta s)) k \<noteq> None
      then mlookup (om_annotations (svc_meta s)) k
      else if k = RemoteUrlAnnotation then Some url
      else if k = RemoteHostAnnotation then svc_url_host s
      else None)"

lemma merge_annotations_lookup:
  "mlookup (merge_annotations url s a) k =
     (case merged_value url s k of Some v \<Rightarrow> Some v | None \<Rightarrow> mlookup a k)"
proof -
  have "fmlookup (mmake m) k = mlookup m k" for m k
    by (cases m) (simp_all add: mmake_def)
  then show ?thesis
    by (auto simp: merge_annotations_def merged_value_def Let_def fmlookup_dom_iff split: option.splits)
qed

lemma merge_annotations_not_None [simp]: "merge_annotations url s a \<noteq> None"
  by (simp add: merge_annotations_def Let_def)

lemma merge_annotations_fix_iff:
  "merge_annotations url s a = a \<longleftrightarrow> a \<noteq> None \<and> (\<forall>k v. merged_value url s k = Some v \<longrightarrow> mlookup a k = Some v)"
  (is "_ \<longleftrightarrow> ?R")
proof
  assume "merge_annotations url s a = a"
  then show ?R
    using merge_annotations_not_None [of url s a] merge_annotations_lookup [of url s a]
    by (metis option.simps(5))
next
  assume ?R
  then show "merge_annotations url s a = a"
    by (intro gomap_eqI) (auto simp: merge_annotations_lookup split: option.split)
qed

lemma merge_annotations_idem: "merge_annotations url s (merge_annotations url s a) = merge_annotations url s a"
  unfolding merge_annotations_fix_iff by (simp add: merge_annotations_lookup)

text \<open>Writing a key that the remote does not set keeps a merge settled.\<close>

lemma merge_annotations_put:
  assumes "merge_annotations url s a = a" "k \<noteq> RemoteUrlAnnotation" "k \<noteq> RemoteHostAnnotation"
    and "mlookup (om_annotations (svc_meta s)) k = None"
  shows "merge_annotations url s (mput k v a) = mput k v a"
proof -
  have "merged_value url s k = None" using assms(2-4) by (simp add: merged_value_def)
  then show ?thesis using assms(1) by (auto simp: merge_annotations_fix_iff)
qed

definition kservice_settled :: "string \<Rightarrow> service \<Rightarrow> service \<Rightarrow> bool" where
  "kservice_settled url s y \<longleftrightarrow>
     om_name (svc_meta y) = om_name (svc_meta s) \<and> om_namespace (svc_meta y) = om_namespace (svc_meta s) \<and>
     merge_annotations url s (om_annotations (svc_meta y)) = om_annotations (svc_meta y) \<and>
     svc_template y = mark_template (svc_template s)"

interpretation ks: keeping_kind svc_meta set_svc_meta "kservice_kindMerger url" "kservice_settled url"
  for url
proof unfold_locales
  fix m m' x s d v y
  show "svc_meta (set_svc_meta m x) = m" "set_svc_meta (svc_meta x) x = x"
    "set_svc_meta m (set_svc_meta m' x) = set_svc_meta m x"
    by (simp_all add: set_svc_meta_def)
  show "om_name (svc_meta (kservice_kindMerger url s d)) = om_name (svc_meta s)"
    "om_namespace (svc_meta (kservice_kindMerger url s d)) = om_namespace (svc_meta s)"
    "om_labels (svc_meta (kservice_kindMerger url s d)) = om_labels (svc_meta s)"
    "om_resource_version (svc_meta (kservice_kindMerger url s d)) = om_resource_version (svc_meta d)"
    by (simp_all add: kservice_kindMerger_def)
  show "kservice_settled url s (kservice_kindMerger url s d)"
    by (simp add: kservice_settled_def kservice_kindMerger_def merge_annotations_idem)
  show "kservice_kindMerger url s y = set_svc_meta ((svc_meta y)\<lparr>om_labels := om_labels (svc_meta s)\<rparr>) y"
    if "kservice_settled url s y"
    using that by (simp add: kservice_settled_def kservice_kindMerger_def set_svc_meta_def)
  show "kservice_settled url s (restored svc_meta set_svc_meta v (written svc_meta set_svc_meta s x))"
    if "marks_free (svc_meta s)" "kservice_settled url s x"
    using that
    by (simp add: kservice_settled_def restored_def written_def set_svc_meta_def edge_simps marks_free_def
        merge_annotations_put constants_distinct)
qed

section \<open>Facts: the traffic split\<close>

lemma previous_split_recovered: "previous_split = recovered_traffic"
  by (rule ext) (simp add: previous_split_def recovered_traffic_def)

text \<open>The two percentages add up to 100, as int64 values and, for a split in range, as numbers.\<close>

lemma latest_target_percent: "tt_percent (latest_target s v) = Some (100 - v)"
  by (simp add: latest_target_def split: option.split)

lemma latest_target_latest: "tt_latest_revision (latest_target s v) = Some True"
  by (auto simp: latest_target_def GetLatestRevisionTarget_def split: option.split dest: find_Some_mem)

lemma proxy_target_fields:
  "tt_percent (proxy_target s c v) = Some v"
  "tt_tag (proxy_target s c v) = GetTargetTagFromConfiguration (Some c)"
  "tt_revision_name (proxy_target s c v) = GetTargetNameFromConfiguration c"
  by (simp_all add: proxy_target_def split: option.split)

lemma sint_rest:
  "(0 \<le> sint (100 - v) \<and> sint (100 - v) \<le> 100) \<longleftrightarrow> (0 \<le> sint (v :: int64) \<and> sint v \<le> 100)"
proof
  assume a: "0 \<le> sint v \<and> sint v \<le> 100"
  then have "sint (100 - v) = 100 - sint v"
    using sint_int64_diff [of 100 v] by simp
  with a show "0 \<le> sint (100 - v) \<and> sint (100 - v) \<le> 100" by simp
next
  assume a: "0 \<le> sint (100 - v) \<and> sint (100 - v) \<le> 100"
  then have "sint (100 - (100 - v)) = 100 - sint (100 - v)"
    using sint_int64_diff [of 100 "100 - v"] by simp
  with a show "0 \<le> sint v \<and> sint v \<le> 100" by simp
qed

text \<open>What a successful run leaves behind.\<close>

lemma reconcileKService_splits:
  assumes "kServiceHasComputeOffloadLabel (Some s)"
    and "kc_get (kr_configurations r) (configuration_name s) w = Inr c"
    and "GetEdgeProxyTarget (Some s) \<noteq> None \<or> GetTargetNameFromConfiguration c \<noteq> []"
  shows "reconcileKService r (Some s) w =
    ((requeue_in (60 * second), None,
      Some (set_traffic s (latest_target s (traffic_split (kr_store r) s))
              (proxy_target s c (traffic_split (kr_store r) s)) (traffic_split (kr_store r) s))), w)"
  using assms by (auto simp: reconcileKService_def Let_def EvaluationPeriodInSeconds_def)

lemma traffic_split_stored:
  "mlookup (om_annotations (svc_meta s)) EdgeFixedTrafficAnnotation = None \<Longrightarrow>
    store_Get (service_key s) st = (v, True) \<Longrightarrow> traffic_split st s = v"
  by (simp add: traffic_split_def)

lemma traffic_split_fixed:
  "mlookup (om_annotations (svc_meta s)) EdgeFixedTrafficAnnotation = Some a \<Longrightarrow>
    parse_int a = (i, None) \<Longrightarrow> traffic_split st s = word_of_int i"
  by (simp add: traffic_split_def)

text \<open>A service that carries the split already is left as it is.\<close>

lemma set_traffic_fix:
  assumes "svc_traffic m = Some [latest, proxy]"
    and "tt_latest_revision latest = Some True" "tt_percent latest = Some (100 - v)" "\<not> is_proxy_target latest"
    and "tt_tag proxy = GetTargetTagFromConfiguration (Some c)" "tt_percent proxy = Some v"
    and "tt_revision_name proxy = GetTargetNameFromConfiguration c"
    and "mlookup (om_annotations (svc_meta m)) EdgeProxyTrafficAnnotation = Some (sprint_int64 v)"
  shows "set_traffic m (latest_target m v) (proxy_target m c v) v = m"
proof -
  have "is_proxy_target proxy" using assms(5) by (simp add: is_proxy_target_def proxy_tag_of_configuration)
  then have "proxy_target m c v = proxy"
    using assms by (simp add: proxy_target_def GetEdgeProxyTarget_def)
  moreover have "latest_target m v = latest"
    using assms by (simp add: latest_target_def GetLatestRevisionTarget_def)
  ultimately show ?thesis
    using assms(1) mput_idem [OF assms(8)] by (simp add: set_traffic_def)
qed

section \<open>Facts: the configuration\<close>

lemma buildConfiguration_fields:
  "om_name (cfg_meta (buildConfiguration r n c s)) = ns_name n"
  "om_namespace (cfg_meta (buildConfiguration r n c s)) = ns_namespace n"
  "mlookup (om_labels (cfg_meta (buildConfiguration r n c s))) ManagedLabel = Some ''true''"
  "cfg_latest_ready (buildConfiguration r n c s) = cfg_latest_ready c"
  "rt_concurrency (cfg_template (buildConfiguration r n c s)) = Some 8"
  by (simp_all add: buildConfiguration_def)

lemma build_containers_again: "build_containers r s (build_containers r s cs) = build_containers r s cs"
  by (simp add: build_containers_def proxy_container_def split: list.split)

lemma build_containers_shape:
  "\<exists>c cs. build_containers r s xs = Some (c # cs) \<and> ct_image c = kr_proxy_image r \<and> cs = tl (elems xs)"
  by (simp add: build_containers_def proxy_container_def split: list.split)

lemma mput_again [simp]: "k \<noteq> k' \<Longrightarrow> mput k v (mput k' v' (mput k v m)) = mput k' v' (mput k v m)"
  by (rule mput_idem) simp

lemma label_chain_again:
  "mput ManagedByLabel a (mput CreatedByLabel b (mput ManagedLabel d (mput EdgeLocalLabel e
     (mput ManagedByLabel a (mput CreatedByLabel b (mput ManagedLabel d (mput EdgeLocalLabel e m))))))) =
   mput ManagedByLabel a (mput CreatedByLabel b (mput ManagedLabel d (mput EdgeLocalLabel e m)))"
  by (rule gomap_eqI) simp_all

text \<open>
  What the API server hands back for a written configuration: its resource version, generation
  and ready revision are the server's.
\<close>

definition served :: "string \<Rightarrow> int64 \<Rightarrow> string \<Rightarrow> configuration \<Rightarrow> configuration" where
  "served v g ready c =
     c\<lparr>cfg_meta := (cfg_meta c)\<lparr>om_resource_version := v, om_generation := g\<rparr>, cfg_latest_ready := ready\<rparr>"

lemma next_configuration_stable:
  "\<not> snd (next_configuration r s (served v g ready (fst (next_configuration r s c))))"
proof -
  let ?n = "configuration_name s"
  let ?c = "served v g ready (fst (next_configuration r s c))"
  have mm: "Some (mmake (mput k x m)) = mput k x m" for k x m by (simp add: mput_def mmake_def)
  have "buildConfiguration r ?n (make_annotations ?c) s = ?c"
    by (simp add: next_configuration_def Let_def buildConfiguration_def make_annotations_def served_def
        UpdateLastRemoteGenerationAnnotation_def mm build_containers_again label_chain_again)
  then show ?thesis by (simp add: next_configuration_def [of r s ?c] Let_def)
qed

text \<open>The configuration depends on the name, the generation and the two remote annotations of the service only.\<close>

lemma next_configuration_cong:
  assumes "service_nsname a = service_nsname b" "om_generation (svc_meta a) = om_generation (svc_meta b)"
    and "mget (om_annotations (svc_meta a)) RemoteUrlAnnotation = mget (om_annotations (svc_meta b)) RemoteUrlAnnotation"
    and "mget (om_annotations (svc_meta a)) RemoteHostAnnotation = mget (om_annotations (svc_meta b)) RemoteHostAnnotation"
    and "kr_proxy_image r = kr_proxy_image r'" "kr_http_proxy r = kr_http_proxy r'"
  shows "snd (next_configuration r a c) = snd (next_configuration r' b c)"
proof -
  have "proxy_container r a = proxy_container r' b"
    using assms by (intro ext) (simp add: proxy_container_def)
  then have "build_containers r a = build_containers r' b"
    by (intro ext) (simp add: build_containers_def split: list.split)
  then show ?thesis
    using assms by (simp add: next_configuration_def buildConfiguration_def configuration_name_def Let_def)
qed

lemma reconcileKConfiguration_quiet:
  assumes "om_resource_version (svc_meta s) \<noteq> []" "kServiceHasComputeOffloadLabel (Some s)"
    and "kc_get (kr_configurations r) (configuration_name s) w = Inr c" "\<not> snd (next_configuration r s c)"
  shows "reconcileKConfiguration r (Some s) w = ((result_zero, None), w)"
  using assms by (cases "next_configuration r s c") (simp add: reconcileKConfiguration_def)

section \<open>Facts: a settled service\<close>

lemma kservice_mirror_simps [simp]:
  "mr_client (kservice_mirror r) = kr_client r" "mr_remote (kservice_mirror r) = kr_remote r"
  "mr_meta (kservice_mirror r) = svc_meta" "mr_set_meta (kservice_mirror r) = set_svc_meta"
  "mr_merger (kservice_mirror r) = kservice_kindMerger (kr_remote_url r)"
  "mr_preprocessors (kservice_mirror r) = Some [pre_configuration r, pre_service r]"
  "mr_envs (kservice_mirror r) = kr_envs r" "mr_zero (kservice_mirror r) = service_zero"
  by (simp_all add: kservice_mirror_def)

lemma kservice_preprocess_quiet:
  assumes "om_resource_version (svc_meta m) \<noteq> []" "kServiceHasComputeOffloadLabel (Some m)"
    and "kc_get (kr_configurations r) (configuration_name m) w = Inr c" "\<not> snd (next_configuration r m c)"
    and "GetEdgeProxyTarget (Some m) \<noteq> None"
    and "set_traffic m (latest_target m (traffic_split (kr_store r) m))
           (proxy_target m c (traffic_split (kr_store r) m)) (traffic_split (kr_store r) m) = m"
  shows "run_preprocessors [pre_configuration r, pre_service r] result_zero m w =
    ((requeue_in (60 * second), None, m), w)"
proof -
  have "reconcileKConfiguration r (Some m) w = ((result_zero, None), w)"
    by (rule reconcileKConfiguration_quiet [OF assms(1-4)])
  moreover have "reconcileKService r (Some m) w = ((requeue_in (60 * second), None, Some m), w)"
    using reconcileKService_splits [OF assms(2,3)] assms(5,6) by simp
  ultimately show ?thesis
    by (simp add: pre_configuration_def pre_service_def merge_result_def result_zero_def requeue_in_def)
qed

text \<open>The service that a reconcile writes when the store has a value and the proxy is ready.\<close>

definition placed :: "'w kservice_reconciler \<Rightarrow> configuration \<Rightarrow> service \<Rightarrow> service \<Rightarrow> service" where
  "placed r c s d =
     (let merged = kservice_kindMerger (kr_remote_url r) s d; split = traffic_split (kr_store r) merged
      in set_traffic merged (latest_target merged split) (proxy_target merged c split) split)"

lemma placed_settled:
  assumes "mlookup (om_annotations (svc_meta s)) EdgeProxyTrafficAnnotation = None"
  shows "kservice_settled (kr_remote_url r) s (placed r c s d)"
  using assms ks.merge_settles [of "kr_remote_url r" s d]
  by (simp add: placed_def Let_def kservice_settled_def set_traffic_def merge_annotations_put)

lemma placed_fields:
  "om_labels (svc_meta (placed r c s d)) = om_labels (svc_meta s)"
  "service_nsname (placed r c s d) = service_nsname s"
  "mlookup (om_annotations (svc_meta (placed r c s d))) EdgeFixedTrafficAnnotation =
     mlookup (om_annotations (svc_meta (kservice_kindMerger (kr_remote_url r) s d))) EdgeFixedTrafficAnnotation"
  by (simp_all add: placed_def Let_def set_traffic_def kservice_kindMerger_def service_nsname_def meta_nsname_def
      constants_distinct [symmetric])

lemma traffic_split_cong:
  assumes "snd (store_Get (service_key a) st)" "service_key a = service_key b"
    and "mlookup (om_annotations (svc_meta a)) EdgeFixedTrafficAnnotation =
         mlookup (om_annotations (svc_meta b)) EdgeFixedTrafficAnnotation"
  shows "traffic_split st a = traffic_split st b"
  using assms by (simp add: traffic_split_def)

lemma kservice_steady:
  assumes free: "marks_free (svc_meta s)" "mlookup (om_annotations (svc_meta s)) EdgeProxyTrafficAnnotation = None"
    and label: "kServiceHasComputeOffloadLabel (Some s)"
    and stored: "snd (store_Get (service_key s) (kr_store r))"
    and y_def: "y = restored svc_meta set_svc_meta v (written svc_meta set_svc_meta s (placed r c s d))"
    and v: "v \<noteq> []"
    and m_def: "m = kservice_kindMerger (kr_remote_url r) s y"
    and conf: "kc_get (kr_configurations r) (configuration_name s) w = Inr c" "\<not> snd (next_configuration r m c)"
    and latest: "\<forall>t \<in> set (elems (svc_traffic d)). tt_latest_revision t = Some True \<longrightarrow> \<not> is_proxy_target t"
  shows "mirror_prepare (kservice_mirror r) s y w =
    ((requeue_in (60 * second), None, written svc_meta set_svc_meta s m, False), w)"
proof -
  let ?merged = "kservice_kindMerger (kr_remote_url r) s d"
  let ?v = "traffic_split (kr_store r) ?merged"
  have settled: "kservice_settled (kr_remote_url r) s (placed r c s d)" by (rule placed_settled [OF free(2)])
  have settled_y: "kservice_settled (kr_remote_url r) s y"
    unfolding y_def by (rule ks.settled_written [OF free(1) settled])
  then have m: "m = set_svc_meta ((svc_meta y)\<lparr>om_labels := om_labels (svc_meta s)\<rparr>) y"
    unfolding m_def by (rule ks.settled_merge)
  have names: "service_nsname m = service_nsname s" "service_nsname ?merged = service_nsname s"
    by (simp_all add: m_def kservice_kindMerger_def service_nsname_def meta_nsname_def)
  then have keys: "service_key m = service_key s" "service_key ?merged = service_key s"
      "configuration_name m = configuration_name s"
    by (simp_all add: service_key_def configuration_name_def)
  have traffic: "svc_traffic m = Some [latest_target ?merged ?v, proxy_target ?merged c ?v]"
    by (simp add: m y_def set_svc_meta_def restored_def written_def placed_def Let_def set_traffic_def)
  have ann: "mlookup (om_annotations (svc_meta m)) k = mlookup (om_annotations (svc_meta (placed r c s d))) k"
    if "k \<noteq> LastGenerationAnnotation" "k \<noteq> LastRemoteGenerationAnnotation" for k
    using that by (simp add: m y_def set_svc_meta_def restored_def written_def edge_simps)
  have "traffic_split (kr_store r) m = ?v"
    using stored keys ann [of EdgeFixedTrafficAnnotation] placed_fields(3) [of r c s d]
    by (intro traffic_split_cong) (simp_all add: constants_distinct)
  moreover have "mlookup (om_annotations (svc_meta m)) EdgeProxyTrafficAnnotation = Some (sprint_int64 ?v)"
    using ann [of EdgeProxyTrafficAnnotation] by (simp add: placed_def Let_def set_traffic_def)
  moreover have "\<not> is_proxy_target (latest_target ?merged ?v)"
    using latest by (auto simp: latest_target_def kservice_kindMerger_def GetLatestRevisionTarget_def is_proxy_target_def
        target_zero_def EdgeProxyPreffix_def has_prefix_def split: option.split dest!: find_Some_mem)
  ultimately have unchanged: "set_traffic m (latest_target m (traffic_split (kr_store r) m))
      (proxy_target m c (traffic_split (kr_store r) m)) (traffic_split (kr_store r) m) = m"
    using traffic by (simp add: set_traffic_fix latest_target_latest latest_target_percent proxy_target_fields)
  have "is_proxy_target (proxy_target ?merged c ?v)"
    by (simp add: is_proxy_target_def proxy_target_fields proxy_tag_of_configuration)
  then have "GetEdgeProxyTarget (Some m) \<noteq> None"
    using traffic by (simp add: GetEdgeProxyTarget_def)
  moreover have "om_resource_version (svc_meta m) \<noteq> []" "om_labels (svc_meta m) = om_labels (svc_meta s)"
    using v by (simp_all add: m y_def set_svc_meta_def restored_def)
  moreover from this have "kServiceHasComputeOffloadLabel (Some m)"
    using label by (simp add: kServiceHasComputeOffloadLabel_def)
  ultimately have pre: "run_preprocessors [pre_configuration r, pre_service r] result_zero m w =
      ((requeue_in (60 * second), None, m), w)"
    using conf keys(3) unchanged by (intro kservice_preprocess_quiet) simp_all
  show ?thesis
    using ks.prepare_steady [OF _ _ _ free(1) settled placed_fields(1) y_def, of "kservice_mirror r" w "requeue_in (60 * second)" w]
      pre unfolding m_def by simp
qed

end
