(* ===== verification/OffloadLoop.thy ===== *)
theory OffloadLoop
  imports KService ListServices
begin

text \<open>
  \<open>Start\<close> of pkg/workoffload/runnable.go: the loop that lists the services and runs the strategy
  every evaluation period, next to the cleaning loop of the store that it shares. A history of
  the two loops is a list of \<open>loop_event\<close>s: a tick with what \<open>listServices\<close> returned, a cleaning of
  the store between two ticks, and the moment the loop sees its context cancelled. The lemmas join the strategy,
  the evaluation, the store and the service controller.
\<close>

section \<open>Start\<close>

definition offload_Start ::
  "(string \<Rightarrow> bool) \<Rightarrow> string \<Rightarrow> store option \<Rightarrow> string + prom_strategy offload"
where
  "offload_Start url_ok prometheusUrl st =
     (case NewStrategy url_ok prometheusUrl of
        Inl e \<Rightarrow> Inl e
      | Inr s \<Rightarrow>
          (case st of
             None \<Rightarrow> Inl ''no traffic split store provided''
           | Some x \<Rightarrow> Inr \<lparr>of_strategy = s, of_store = x\<rparr>))"

text \<open>Errors of the listing and of the run are logged, and the loop goes on.\<close>

definition loop_tick ::
  "(f32 \<Rightarrow> int64) \<Rightarrow> (nat \<Rightarrow> int) \<Rightarrow> ('s, 'w) strategy \<Rightarrow> service list \<Rightarrow> string option \<Rightarrow> 's offload \<Rightarrow> 'w \<Rightarrow>
    ('s offload \<times> 'w) go"
where
  "loop_tick cv clk sg services err t w =
     (case err of
        Some e \<Rightarrow> Done (t, w)
      | None \<Rightarrow> bind_go (run cv clk sg services t w) (\<lambda>r. Done (snd r)))"

datatype loop_event = Tick "service list" "string option" | Sweep int | Stop

fun offload_loop ::
  "(f32 \<Rightarrow> int64) \<Rightarrow> (nat \<Rightarrow> nat \<Rightarrow> int) \<Rightarrow> ('s, 'w) strategy \<Rightarrow> nat \<Rightarrow> bool \<Rightarrow> loop_event list \<Rightarrow> 's offload \<Rightarrow> 'w \<Rightarrow>
    ('s offload \<times> 'w) go"
where
  "offload_loop cv clk sg n running [] t w = Done (t, w)"
| "offload_loop cv clk sg n running (Stop # es) t w = offload_loop cv clk sg n False es t w"
| "offload_loop cv clk sg n running (Sweep now # es) t w =
     offload_loop cv clk sg n running es (t\<lparr>of_store := store_cleanUp now (of_store t)\<rparr>) w"
| "offload_loop cv clk sg n running (Tick services err # es) t w =
     (if running
      then bind_go (loop_tick cv (clk n) sg services err t w) (\<lambda>r. offload_loop cv clk sg (Suc n) True es (fst r) (snd r))
      else offload_loop cv clk sg n False es t w)"

section \<open>The store over the history of the loop\<close>

fun event_services :: "loop_event \<Rightarrow> service list" where
  "event_services (Tick services err) = services"
| "event_services (Sweep now) = []"
| "event_services Stop = []"

lemma store_Get_cleanUp: "store_Get k (store_cleanUp now s) = store_Get k s \<or> store_Get k (store_cleanUp now s) = (0, False)"
  by (auto simp: store_Get_def store_lookup_cleanUp split: option.split)

lemma loop_tick_percent:
  assumes "loop_tick cv clk sg services err t w = Done (t', w')" "list_all annotation_in_range services"
    and "percent_pair (store_Get k (of_store t))"
  shows "percent_pair (store_Get k (of_store t'))"
  using assms by (auto simp: loop_tick_def bind_go_Done_iff split: option.splits dest: run_percent)

lemma loop_percent:
  assumes "offload_loop cv clk sg n running es t w = Done (t', w')"
    and "list_all (\<lambda>e. list_all annotation_in_range (event_services e)) es"
    and "percent_pair (store_Get k (of_store t))"
  shows "percent_pair (store_Get k (of_store t'))"
  using assms
proof (induction es arbitrary: n running t w)
  case (Cons e es)
  show ?case
  proof (cases e)
    case (Sweep now)
    have "percent_pair (store_Get k (store_cleanUp now (of_store t)))"
      using store_Get_cleanUp [of k now "of_store t"] Cons.prems(3) by (auto simp: percent_pair_def)
    then show ?thesis using Cons.prems Sweep by (intro Cons.IH [of n running "t\<lparr>of_store := store_cleanUp now (of_store t)\<rparr>" w]) simp_all
  next
    case (Tick services err)
    show ?thesis
    proof (cases running)
      case True
      then obtain t1 w1 where t1: "loop_tick cv (clk n) sg services err t w = Done (t1, w1)"
          "offload_loop cv clk sg (Suc n) True es t1 w1 = Done (t', w')"
        using Cons.prems(1) Tick by (auto simp: bind_go_Done_iff)
      have "percent_pair (store_Get k (of_store t1))"
        using t1(1) Cons.prems(2,3) Tick by (auto intro: loop_tick_percent)
      then show ?thesis using t1(2) Cons.prems(2) by (intro Cons.IH [of "Suc n" True t1 w1]) simp_all
    qed (use Cons Tick in auto)
  qed (use Cons in auto)
qed simp

section \<open>The loop does not panic\<close>

definition calm :: "('s, 'w) strategy \<Rightarrow> bool" where
  "calm sg \<longleftrightarrow>
     (\<forall>s w. \<exists>r. sg_execute sg s w = Done r) \<and>
     (\<forall>s w s1 w1 services. sg_execute sg s w = Done (None, s1, w1) \<longrightarrow> (\<exists>r. sg_results sg services s1 = Done r))"

lemma loop_tick_started:
  assumes "calm sg" "started (of_store t)"
  shows "\<exists>t' w'. loop_tick cv clk sg services err t w = Done (t', w') \<and> started (of_store t')"
proof (cases "err = None \<and> services \<noteq> []")
  case True
  obtain o1 s1 w1 where x: "sg_execute sg (of_strategy t) w = Done (o1, s1, w1)"
    using assms(1) unfolding calm_def by (metis prod_cases3)
  show ?thesis
  proof (cases o1)
    case None
    then obtain rs s2 where "sg_results sg services s1 = Done (rs, s2)"
      using assms(1) x unfolding calm_def by (metis surj_pair)
    then show ?thesis
      using run_started [OF assms(2), of services sg w s1 w1 rs s2 cv clk] True x None by (auto simp: loop_tick_def)
  next
    case (Some e)
    then show ?thesis using True x assms(2) by (simp add: loop_tick_def run_error)
  qed
qed (use assms(2) in \<open>auto simp: loop_tick_def run_Nil split: option.split\<close>)

lemma loop_started:
  assumes "calm sg" "started (of_store t)"
  shows "\<exists>t' w'. offload_loop cv clk sg n running es t w = Done (t', w') \<and> started (of_store t')"
  using assms(2)
proof (induction es arbitrary: n running t w)
  case (Cons e es)
  show ?case
  proof (cases e)
    case (Tick services err)
    obtain t1 w1 where "loop_tick cv (clk n) sg services err t w = Done (t1, w1)" "started (of_store t1)"
      using loop_tick_started [OF assms(1) Cons.prems] by blast
    then show ?thesis using Cons Tick by simp
  qed (use Cons in \<open>simp_all add: started_cleanUp\<close>)
qed simp

lemma results_loop_Done:
  "ps_cluster s \<noteq> None \<Longrightarrow> \<exists>r. results_loop cv alias ss s = Done r"
proof (induction ss arbitrary: s)
  case (Cons v ss)
  then obtain c where c: "ps_cluster s = Some c" by blast
  show ?case
  proof (cases "fmlookup (cu_services c) (nsname_str (service_nsname v))")
    case None
    obtain r where "results_loop cv alias ss s = Done r" using Cons by blast
    then show ?thesis using c None by simp
  next
    case (Some u)
    let ?s = "s\<lparr>ps_cluster := Some (c\<lparr>cu_services := fmupd (nsname_str (service_nsname v))
        (kservice_finalize (UpdateWithKService v u)) (cu_services c)\<rparr>)\<rparr>"
    obtain r where "results_loop cv alias ss ?s = Done r" using Cons.IH [of ?s] by auto
    then show ?thesis using c Some by (simp add: Let_def)
  qed
qed simp

lemma retry_loop_Done:
  assumes "\<And>now w. \<exists>r. Query send now q w = Done r"
  shows "\<exists>r. retry_loop send clk q i n r0 w = Done r"
proof (induction n arbitrary: i r0 w)
  case (Suc n)
  obtain r w1 where "Query send (clk i) q w = Done (r, w1)" using assms [of "clk i" w] by (metis surj_pair)
  then show ?case using Suc [of "Suc i" r w1] by auto
qed simp

lemma prometheus_calm:
  assumes "\<And>now w. \<exists>r. Query (sr_send src) now ServiceRequestLatencyPercentileRatio w = Done r"
  shows "calm (prometheus_strategy cv src)"
proof -
  have u: "\<exists>r. updateKServiceUsage src c w = Done r" for c w
  proof -
    obtain r w1 where "QueryWithRetry (sr_send src) (sr_clock src) ServiceRequestLatencyPercentileRatio w = Done (r, w1)"
      using retry_loop_Done [OF assms] unfolding QueryWithRetry_def by (metis surj_pair)
    then show ?thesis by (cases r) (simp_all add: updateKServiceUsage_def)
  qed
  have "\<exists>r. Execute src s w = Done r" for s w
  proof -
    obtain e1 c1 w1 where n: "updateNodesUsage src NewClusterUsage w = (e1, c1, w1)" by (rule prod_cases3)
    obtain e2 c2 w2 where p: "updatePodsUsage src c1 w1 = (e2, c2, w2)" by (rule prod_cases3)
    obtain e3 c3 w3 where "updateKServiceUsage src c2 w2 = Done (e3, c3, w3)" using u by (metis prod_cases3)
    then show ?thesis
      using n p by (cases e1; cases e2; cases e3) (simp_all add: Execute_def)
  qed
  moreover have "\<exists>r. GetResults cv services s1 = Done r" if "Execute src s w = Done (None, s1, w1)" for s w s1 w1 services
  proof -
    have "ps_cluster s1 \<noteq> None" by (rule Execute_Done_None [OF that]) simp
    then show ?thesis using results_loop_Done [of s1 cv "last services" services] by (simp add: GetResults_def)
  qed
  ultimately show ?thesis by (auto simp: calm_def prometheus_strategy_def)
qed

section \<open>From the usage to the stored traffic\<close>

text \<open>
  The annotations of a service give usable limits: the decay is a number between 0 and 1, the
  soft limit is not negative, the hard limit is not NaN.
\<close>

definition sane_limits :: "service \<Rightarrow> bool" where
  "sane_limits v \<longleftrightarrow>
     (let u = UpdateWithKService v (kservice_new [] []) in
      ffinite (ku_decay u) \<and> 0 \<le> fval (ku_decay u) \<and> fval (ku_decay u) \<le> 1 \<and>
      fnonneg (ku_soft_limit u) \<and> \<not> fis_nan (ku_hard_limit u))"

lemma sane_limits_ok:
  assumes "sane_limits v" "ku_latencies u = Some ls" "list_all (\<lambda>l. fnonneg l \<and> f32_ok l) ls"
  shows "limits_ok (kservice_finalize (UpdateWithKService v u))"
proof -
  have ok: "f32_ok LatencyRatioSoftLimitDefault" "f32_ok LatencyRatioHardLimitDefault"
    using repr_quarter [of 7] repr_int [of 4]
    by (simp_all add: LatencyRatioSoftLimitDefault_def LatencyRatioHardLimitDefault_def f32_ok_def)
  have "fnonneg (ku_latency (kservice_finalize (UpdateWithKService v u))) \<and>
      f32_ok (ku_latency (kservice_finalize (UpdateWithKService v u)))"
    using assms by (intro kservice_finalize_nonneg [where ls = ls])
      (simp_all add: sane_limits_def Let_def UpdateWithKService_def)
  then show ?thesis
    using assms(1) annotation_float_ok [OF ok(1)] annotation_float_ok [OF ok(2)]
    by (simp add: limits_ok_def sane_limits_def Let_def edge_simps) (simp add: UpdateWithKService_def Let_def)
qed

text \<open>
  One tick with the Prometheus strategy. \<open>old\<close> is what the evaluation finds in the store: the
  stored value or, for a new service, the recovered one.
\<close>

definition traffic_before :: "store \<Rightarrow> service \<Rightarrow> int64" where
  "traffic_before st s =
     (if snd (store_Get (service_key s) st) then fst (store_Get (service_key s) st) else recovered_traffic s)"

lemma service_key_map: "map (\<lambda>v. nsname_str (service_nsname v)) ss = map service_key ss"
  by (simp add: service_key_def)

lemma tick_traffic:
  assumes run: "run cv clk (prometheus_strategy cv src) ss t w = Done (None, t', w')"
    and ex: "Execute src (of_strategy t) w = Done (None, s1, w1)" "ps_cluster s1 = Some c"
    and ss: "distinct (map service_key ss)" "s \<in> set ss"
    and u: "fmlookup (cu_services c) (service_key s) = Some u" "ku_latencies u = Some ls"
      "list_all (\<lambda>l. fnonneg l \<and> f32_ok l) ls" "sane_limits s"
    and inertia: "mget (om_annotations (svc_meta (last ss))) TrafficInertiaAnnotation = []"
    and old: "0 \<le> sint (traffic_before (of_store t) s)" "sint (traffic_before (of_store t) s) \<le> 100"
    and d: "d = desired_traffic cv (refreshed s u)"
  shows "0 \<le> sint d" "sint d \<le> 100"
    "store_Get (service_key s) (of_store t') =
      (word_of_int ((3 * sint (traffic_before (of_store t) s) + sint d) div 4), True)"
proof -
  show d100: "0 \<le> sint d" "sint d \<le> 100"
    using desired_traffic_bounds [OF sane_limits_ok [OF u(4,2,3)], of cv] by (simp_all add: d refreshed_def)
  have ne: "ss \<noteq> []" using ss(2) by auto
  let ?rs = "map (result_for cv (last ss) c) ss"
  let ?r = "result_for cv (last ss) c s"
  have res: "GetResults cv ss s1 = Done (?rs, s1\<lparr>ps_cluster := Some (fold refresh_entry ss c)\<rparr>)"
    using GetResults_distinct [OF ex(2) _ ne, of cv] ss(1) by (simp add: service_key_map)
  have names: "map (\<lambda>r. nsname_str (or_name r)) ?rs = map service_key ss"
    by (simp add: result_for_def service_key_def split: option.split)
  have dist: "distinct (map (\<lambda>r. nsname_str (or_name r)) ?rs)" using ss(1) by (simp only: names)
  have key: "nsname_str (or_name ?r) = service_key s"
    by (simp add: result_for_def service_key_def split: option.split)
  obtain st1 where st1: "recover_loop clk 0 ss (of_store t) = Done st1"
    using run ne ex by (auto simp: run_def prometheus_strategy_def bind_go_Done_iff)
  have get1: "store_Get (service_key s) st1 = (traffic_before (of_store t) s, True)"
    using recover_loop_get [OF st1 ss] by (auto simp: traffic_before_def prod_eq_iff)
  have r: "or_action ?r = SetTraffic" "or_service ?r = last ss" "or_desired ?r = d"
    using u(1) by (simp_all add: result_for_def d service_key_def)
  let ?b = "blend cv TrafficInertiaDefaultValue (traffic_before (of_store t) s) d"
  have b: "?b = word_of_int ((3 * sint (traffic_before (of_store t) s) + sint d) div 4)"
    by (rule blend_default [OF old d100])
  have "clamp ?b = ?b"
    using mix_bounds [OF old d100] sint_blend_default [OF old d100, of cv] by (intro clamp_id) simp_all
  then have "next_traffic cv ?r (store_Get (nsname_str (or_name ?r)) st1) = Some ?b"
    using r inertia by (simp add: key get1 inertia_of_def)
  then have "store_Get (nsname_str (or_name ?r)) (of_store t') = (?b, True)"
    using ss(2) ex(1) res
    by (intro run_result [OF ne _ st1 _ dist _ _ run, of s1 w1]) (simp_all add: prometheus_strategy_def)
  then show "store_Get (service_key s) (of_store t') =
      (word_of_int ((3 * sint (traffic_before (of_store t) s) + sint d) div 4), True)"
    by (simp only: key b)
qed

end
