(* ===== verification/SimpleMirrors.thy ===== *)
theory SimpleMirrors
  imports Mirroring
begin

text \<open>
  The three controllers whose mirror has no preprocessors: ConfigMaps, Secrets and Namespaces
  (configmap_controller.go, secret_controller.go, namespace_controller.go). \<open>Reconcile\<close> calls
  a merger with the two objects it has just made, never with nil, so the nil guards of the
  mergers do not arise. Each kind interprets the contract of a merger that replaces the
  annotations.
\<close>

section \<open>ConfigMap\<close>

record configmap =
  cm_meta :: object_meta
  cm_data :: gomap
  cm_binary_data :: gomap
  cm_other :: string

definition configmap_zero :: configmap where
  "configmap_zero = \<lparr>cm_meta = meta_zero, cm_data = None, cm_binary_data = None, cm_other = []\<rparr>"

definition set_cm_meta :: "object_meta \<Rightarrow> configmap \<Rightarrow> configmap" where
  "set_cm_meta m x = x\<lparr>cm_meta := m\<rparr>"

definition copy_meta :: "object_meta \<Rightarrow> object_meta \<Rightarrow> object_meta" where
  "copy_meta src dst =
     dst\<lparr>om_name := om_name src, om_namespace := om_namespace src,
         om_annotations := om_annotations src, om_labels := om_labels src\<rparr>"

definition configmap_kindMerger :: "configmap \<Rightarrow> configmap \<Rightarrow> configmap" where
  "configmap_kindMerger src dst =
     dst\<lparr>cm_meta := copy_meta (cm_meta src) (cm_meta dst), cm_data := cm_data src\<rparr>"

definition configmap_mirror ::
  "(configmap, 'w) kclient option \<Rightarrow> (configmap, 'w) kclient option \<Rightarrow> string list option
    \<Rightarrow> (configmap, 'w) mirror"
where
  "configmap_mirror c rc envs =
     \<lparr>mr_client = c, mr_remote = rc, mr_zero = configmap_zero, mr_meta = cm_meta,
      mr_set_meta = set_cm_meta, mr_merger = configmap_kindMerger, mr_preprocessors = None,
      mr_envs = envs\<rparr>"

lemma copy_meta_simps [edge_simps]:
  "om_name (copy_meta s d) = om_name s" "om_namespace (copy_meta s d) = om_namespace s"
  "om_annotations (copy_meta s d) = om_annotations s" "om_labels (copy_meta s d) = om_labels s"
  "om_resource_version (copy_meta s d) = om_resource_version d"
  "om_generation (copy_meta s d) = om_generation d"
  by (simp_all add: copy_meta_def)

interpretation cm: replacing_kind cm_meta set_cm_meta configmap_kindMerger
  by unfold_locales (simp_all add: set_cm_meta_def configmap_kindMerger_def edge_simps)

section \<open>Secret\<close>

record secret =
  sec_meta :: object_meta
  sec_data :: gomap
  sec_type :: string
  sec_other :: string

definition secret_zero :: secret where
  "secret_zero = \<lparr>sec_meta = meta_zero, sec_data = None, sec_type = [], sec_other = []\<rparr>"

definition set_sec_meta :: "object_meta \<Rightarrow> secret \<Rightarrow> secret" where
  "set_sec_meta m x = x\<lparr>sec_meta := m\<rparr>"

definition secret_kindMerger :: "secret \<Rightarrow> secret \<Rightarrow> secret" where
  "secret_kindMerger src dst =
     dst\<lparr>sec_meta := copy_meta (sec_meta src) (sec_meta dst), sec_data := sec_data src\<rparr>"

definition secret_mirror ::
  "(secret, 'w) kclient option \<Rightarrow> (secret, 'w) kclient option \<Rightarrow> string list option
    \<Rightarrow> (secret, 'w) mirror"
where
  "secret_mirror c rc envs =
     \<lparr>mr_client = c, mr_remote = rc, mr_zero = secret_zero, mr_meta = sec_meta,
      mr_set_meta = set_sec_meta, mr_merger = secret_kindMerger, mr_preprocessors = None,
      mr_envs = envs\<rparr>"

interpretation sec: replacing_kind sec_meta set_sec_meta secret_kindMerger
  by unfold_locales (simp_all add: set_sec_meta_def secret_kindMerger_def edge_simps)

section \<open>Namespace\<close>

record namespace_obj =
  nsp_meta :: object_meta
  nsp_other :: string

definition namespace_zero :: namespace_obj where
  "namespace_zero = \<lparr>nsp_meta = meta_zero, nsp_other = []\<rparr>"

definition set_nsp_meta :: "object_meta \<Rightarrow> namespace_obj \<Rightarrow> namespace_obj" where
  "set_nsp_meta m x = x\<lparr>nsp_meta := m\<rparr>"

definition namespace_kindMerger :: "namespace_obj \<Rightarrow> namespace_obj \<Rightarrow> namespace_obj" where
  "namespace_kindMerger src dst = dst\<lparr>nsp_meta := copy_meta (nsp_meta src) (nsp_meta dst)\<rparr>"

definition namespace_mirror ::
  "(namespace_obj, 'w) kclient option \<Rightarrow> (namespace_obj, 'w) kclient option \<Rightarrow> string list option
    \<Rightarrow> (namespace_obj, 'w) mirror"
where
  "namespace_mirror c rc envs =
     \<lparr>mr_client = c, mr_remote = rc, mr_zero = namespace_zero, mr_meta = nsp_meta,
      mr_set_meta = set_nsp_meta, mr_merger = namespace_kindMerger, mr_preprocessors = None,
      mr_envs = envs\<rparr>"

interpretation nsp: replacing_kind nsp_meta set_nsp_meta namespace_kindMerger
  by unfold_locales (simp_all add: set_nsp_meta_def namespace_kindMerger_def edge_simps)

section \<open>The handlers\<close>

text \<open>\<open>Reconcile\<close> of the three controllers: the mirror's, with the time it took logged.\<close>

definition configmap_Reconcile ::
  "(configmap, 'w) kclient option \<Rightarrow> (configmap, 'w) kclient option \<Rightarrow> string list option \<Rightarrow> nsname \<Rightarrow> 'w
    \<Rightarrow> (ctrl_result \<times> go_error option) \<times> 'w"
where
  "configmap_Reconcile c rc envs req w = Reconcile (configmap_mirror c rc envs) req w"

definition secret_Reconcile ::
  "(secret, 'w) kclient option \<Rightarrow> (secret, 'w) kclient option \<Rightarrow> string list option \<Rightarrow> nsname \<Rightarrow> 'w
    \<Rightarrow> (ctrl_result \<times> go_error option) \<times> 'w"
where
  "secret_Reconcile c rc envs req w = Reconcile (secret_mirror c rc envs) req w"

definition namespace_Reconcile ::
  "(namespace_obj, 'w) kclient option \<Rightarrow> (namespace_obj, 'w) kclient option \<Rightarrow> string list option \<Rightarrow> nsname \<Rightarrow> 'w
    \<Rightarrow> (ctrl_result \<times> go_error option) \<times> 'w"
where
  "namespace_Reconcile c rc envs req w = Reconcile (namespace_mirror c rc envs) req w"

section \<open>Facts\<close>

lemma mirror_simps [simp]:
  "mr_client (configmap_mirror c rc envs) = c" "mr_remote (configmap_mirror c rc envs) = rc"
  "mr_meta (configmap_mirror c rc envs) = cm_meta"
  "mr_set_meta (configmap_mirror c rc envs) = set_cm_meta"
  "mr_merger (configmap_mirror c rc envs) = configmap_kindMerger"
  "mr_preprocessors (configmap_mirror c rc envs) = None"
  "mr_zero (configmap_mirror c rc envs) = configmap_zero"
  "mr_envs (configmap_mirror c rc envs) = envs"
  "mr_client (secret_mirror c' rc' envs) = c'" "mr_remote (secret_mirror c' rc' envs) = rc'"
  "mr_meta (secret_mirror c' rc' envs) = sec_meta"
  "mr_set_meta (secret_mirror c' rc' envs) = set_sec_meta"
  "mr_merger (secret_mirror c' rc' envs) = secret_kindMerger"
  "mr_preprocessors (secret_mirror c' rc' envs) = None"
  "mr_zero (secret_mirror c' rc' envs) = secret_zero"
  "mr_envs (secret_mirror c' rc' envs) = envs"
  by (simp_all add: configmap_mirror_def secret_mirror_def)

lemma written_fields:
  "cm_data (written cm_meta set_cm_meta k x) = cm_data x"
  "cm_binary_data (written cm_meta set_cm_meta k x) = cm_binary_data x"
  "sec_data (written sec_meta set_sec_meta k' x') = sec_data x'"
  "sec_type (written sec_meta set_sec_meta k' x') = sec_type x'"
  by (simp_all add: written_def set_cm_meta_def set_sec_meta_def)

text \<open>A merger of this family only ever writes the four metadata fields and the data.\<close>

lemma merger_frame:
  "cm_binary_data (configmap_kindMerger s d) = cm_binary_data d"
  "cm_other (configmap_kindMerger s d) = cm_other d"
  "sec_type (secret_kindMerger s' d') = sec_type d'"
  "sec_other (secret_kindMerger s' d') = sec_other d'"
  "nsp_other (namespace_kindMerger s'' d'') = nsp_other d''"
  by (simp_all add: configmap_kindMerger_def secret_kindMerger_def namespace_kindMerger_def)

end
