(* ===== verification/Watches.thy ===== *)
theory Watches
  imports KService SimpleMirrors
begin

text \<open>
  Which events lead to a reconcile: \<open>NewControllerManagedBy\<close> of mirroring_reconciler.go and the
  \<open>SetupWithManager\<close> of the controllers, with the event handlers and the predicates of
  controller-runtime that they name. An event of a source is given to every watch of that
  source; it must pass all predicates of the watch, in order, and its handler makes the
  requests. The lemmas say that a controller does not react to its own updates and does react to
  the changes of others.
\<close>

section \<open>Predicates and handlers of controller-runtime\<close>

fun ResourceVersionChangedPredicate :: "event \<Rightarrow> bool" where
  "ResourceVersionChangedPredicate (UpdateEvent old new) =
     (case old of
        None \<Rightarrow> False
      | Some x \<Rightarrow>
          (case new of
             None \<Rightarrow> False
           | Some y \<Rightarrow> om_resource_version (kobj_meta y) \<noteq> om_resource_version (kobj_meta x)))"
| "ResourceVersionChangedPredicate _ = True"

definition request_for :: "kobject option \<Rightarrow> nsname list" where
  "request_for obj = (case obj of None \<Rightarrow> [] | Some x \<Rightarrow> [meta_nsname (kobj_meta x)])"

fun EnqueueRequestForObject :: "event \<Rightarrow> nsname list" where
  "EnqueueRequestForObject (CreateEvent obj) = request_for obj"
| "EnqueueRequestForObject (UpdateEvent old new) = (if new \<noteq> None then request_for new else request_for old)"
| "EnqueueRequestForObject (DeleteEvent obj) = request_for obj"
| "EnqueueRequestForObject (GenericEvent obj) = request_for obj"

text \<open>Requests that an event has already led to are not added again.\<close>

fun EnqueueRequestsFromMapFunc :: "(kobject option \<Rightarrow> nsname list) \<Rightarrow> event \<Rightarrow> nsname list" where
  "EnqueueRequestsFromMapFunc toRequests (CreateEvent obj) = remdups (toRequests obj)"
| "EnqueueRequestsFromMapFunc toRequests (UpdateEvent old new) = remdups (toRequests old @ toRequests new)"
| "EnqueueRequestsFromMapFunc toRequests (DeleteEvent obj) = remdups (toRequests obj)"
| "EnqueueRequestsFromMapFunc toRequests (GenericEvent obj) = remdups (toRequests obj)"

section \<open>Watches\<close>

datatype watch_source = LocalKind | RemoteKind | LocalConfigurations

record watch =
  wt_source :: watch_source
  wt_predicates :: "(event \<Rightarrow> bool go) list"
  wt_handler :: "event \<Rightarrow> nsname list"

fun passes :: "(event \<Rightarrow> bool go) list \<Rightarrow> event \<Rightarrow> bool go" where
  "passes [] e = Done True"
| "passes (p # ps) e = bind_go (p e) (\<lambda>b. if b then passes ps e else Done False)"

fun deliver :: "watch list \<Rightarrow> watch_source \<Rightarrow> event \<Rightarrow> nsname list go" where
  "deliver [] src e = Done []"
| "deliver (x # xs) src e =
     (if wt_source x = src
      then bind_go (passes (wt_predicates x) e) (\<lambda>b.
             bind_go (deliver xs src e) (\<lambda>rest. Done ((if b then wt_handler x e else []) @ rest)))
      else deliver xs src e)"

section \<open>The watches of the controllers\<close>

definition NewControllerManagedBy :: "(event \<Rightarrow> bool go) list \<Rightarrow> watch list" where
  "NewControllerManagedBy predicates =
     [\<lparr>wt_source = LocalKind,
       wt_predicates = [IsManagedByEdgeControllers, \<lambda>e. Done (NotChangedByEdgeControllers e)],
       wt_handler = EnqueueRequestForObject\<rparr>,
      \<lparr>wt_source = RemoteKind,
       wt_predicates = predicates @ [\<lambda>e. Done (ResourceVersionChangedPredicate e)],
       wt_handler = EnqueueRequestForObject\<rparr>]"

definition configuration_requests :: "kobject option \<Rightarrow> nsname list" where
  "configuration_requests obj =
     (case obj of Some (KConfiguration c) \<Rightarrow> findServiceFromConfiguration (Some c) | _ \<Rightarrow> [])"

text \<open>\<open>predicate.NewPredicateFuncs(utils.IsEdgeProxyConfiguration)\<close>: on an update, the new object.\<close>

fun proxy_configuration_filter :: "event \<Rightarrow> bool" where
  "proxy_configuration_filter (CreateEvent obj) = IsEdgeProxyConfiguration (map_option kobj_meta obj)"
| "proxy_configuration_filter (UpdateEvent old new) = IsEdgeProxyConfiguration (map_option kobj_meta new)"
| "proxy_configuration_filter (DeleteEvent obj) = IsEdgeProxyConfiguration (map_option kobj_meta obj)"
| "proxy_configuration_filter (GenericEvent obj) = IsEdgeProxyConfiguration (map_option kobj_meta obj)"

definition kservice_SetupWithManager ::
  "'s option \<Rightarrow> (event \<Rightarrow> bool go) list \<Rightarrow> string + watch list"
where
  "kservice_SetupWithManager store predicates =
     (case store of
        None \<Rightarrow> Inl ''no traffic split store provided''
      | Some _ \<Rightarrow>
          Inr (NewControllerManagedBy predicates @
            [\<lparr>wt_source = LocalConfigurations,
              wt_predicates = [\<lambda>e. Done (LatestReadyRevisionChangedPredicate e), \<lambda>e. Done (proxy_configuration_filter e)],
              wt_handler = EnqueueRequestsFromMapFunc configuration_requests\<rparr>]))"

section \<open>Facts\<close>

lemma passes_pure: "passes (map (\<lambda>p e. Done (p e)) ps) e = Done (list_all (\<lambda>p. p e) ps)"
  by (induction ps) simp_all

lemma deliver_append:
  "deliver (xs @ ys) src e = bind_go (deliver xs src e) (\<lambda>a. bind_go (deliver ys src e) (\<lambda>b. Done (a @ b)))"
proof (induction xs)
  case Nil
  then show ?case by (cases "deliver ys src e") simp_all
next
  case (Cons x xs)
  then show ?case
    by (cases "passes (wt_predicates x) e"; cases "deliver xs src e"; cases "deliver ys src e") simp_all
qed

lemma deliver_local:
  "deliver (NewControllerManagedBy predicates) LocalKind e =
     bind_go (IsManagedByEdgeControllers e) (\<lambda>m.
       Done (if m \<and> NotChangedByEdgeControllers e then EnqueueRequestForObject e else []))"
  by (cases "IsManagedByEdgeControllers e") (simp_all add: NewControllerManagedBy_def)

lemma deliver_remote:
  "deliver (NewControllerManagedBy [\<lambda>e. Done (p e)]) RemoteKind e =
     Done (if p e \<and> ResourceVersionChangedPredicate e then EnqueueRequestForObject e else [])"
  by (simp add: NewControllerManagedBy_def)

lemma deliver_configurations:
  assumes "kservice_SetupWithManager store predicates = Inr ws"
  shows "deliver ws LocalConfigurations e =
     Done (if LatestReadyRevisionChangedPredicate e \<and> proxy_configuration_filter e
           then EnqueueRequestsFromMapFunc configuration_requests e else [])"
    and "deliver ws LocalKind e = deliver (NewControllerManagedBy predicates) LocalKind e"
    and "deliver ws RemoteKind e = deliver (NewControllerManagedBy predicates) RemoteKind e"
proof -
  have ws: "ws = NewControllerManagedBy predicates @
      [\<lparr>wt_source = LocalConfigurations,
        wt_predicates = [\<lambda>e. Done (LatestReadyRevisionChangedPredicate e), \<lambda>e. Done (proxy_configuration_filter e)],
        wt_handler = EnqueueRequestsFromMapFunc configuration_requests\<rparr>]"
    using assms by (simp add: kservice_SetupWithManager_def split: option.splits)
  have right: "bind_go x (\<lambda>a. Done a) = x" for x :: "nsname list go" by (cases x) simp_all
  show "deliver ws LocalKind e = deliver (NewControllerManagedBy predicates) LocalKind e"
    and "deliver ws RemoteKind e = deliver (NewControllerManagedBy predicates) RemoteKind e"
    by (simp_all add: ws deliver_append right)
  show "deliver ws LocalConfigurations e =
     Done (if LatestReadyRevisionChangedPredicate e \<and> proxy_configuration_filter e
           then EnqueueRequestsFromMapFunc configuration_requests e else [])"
    by (simp add: ws deliver_append) (simp add: NewControllerManagedBy_def)
qed

lemma managed_update:
  "IsManagedByEdgeControllers (UpdateEvent old (Some x)) = Done (IsManagedObject (kobj_meta x))"
  by (simp add: managed_filter_def)

text \<open>
  An update of a managed object passes unless its generation mark is the version of the object
  that it replaces.
\<close>

lemma local_update_requests:
  assumes "IsManagedObject (kobj_meta y)"
    and "mlookup (om_annotations (kobj_meta y)) LastGenerationAnnotation = Some mark"
  shows "deliver (NewControllerManagedBy predicates) LocalKind (UpdateEvent (Some x) (Some y)) =
    Done (if om_resource_version (kobj_meta x) = mark then [] else [meta_nsname (kobj_meta y)])"
proof -
  have "om_annotations (kobj_meta y) \<noteq> None" using assms(2) by (cases "om_annotations (kobj_meta y)") simp_all
  then show ?thesis
    using assms by (auto simp: deliver_local managed_update request_for_def mget_def simp del: IsManagedByEdgeControllers.simps)
qed

context mirror_kind
begin

text \<open>
  What a reconcile writes is marked with the version that it read: the update event of the write
  is dropped, and every later change that leaves the mark alone passes.
\<close>

lemma own_update_silent:
  assumes wrap: "\<And>z. kobj_meta (wrap z) = meta z"
    and x: "om_resource_version (meta x) = om_resource_version (meta l)"
    and y: "y = restored meta set_meta v (written meta set_meta k x)"
  shows "deliver (NewControllerManagedBy predicates) LocalKind (UpdateEvent (Some (wrap l)) (Some (wrap y))) = Done []"
proof -
  have "IsManagedObject (meta y)"
    using written_marks(1) [of k x] by (simp add: y restored_def meta_set IsManagedObject_iff)
  moreover have "mlookup (om_annotations (meta y)) LastGenerationAnnotation = Some (om_resource_version (meta l))"
    using written_marks(3) [of k x] x by (simp add: y restored_def meta_set)
  ultimately show ?thesis
    using local_update_requests [of "wrap y" "om_resource_version (meta l)" predicates "wrap l"] by (simp add: wrap)
qed

lemma foreign_update_seen:
  assumes wrap: "\<And>z. kobj_meta (wrap z) = meta z"
    and y: "y = restored meta set_meta v (written meta set_meta k x)" "v \<noteq> om_resource_version (meta x)"
    and z: "IsManagedObject (meta z)"
      "mlookup (om_annotations (meta z)) LastGenerationAnnotation = mlookup (om_annotations (meta y)) LastGenerationAnnotation"
  shows "deliver (NewControllerManagedBy predicates) LocalKind (UpdateEvent (Some (wrap y)) (Some (wrap z))) =
    Done [meta_nsname (meta z)]"
proof -
  have "mlookup (om_annotations (meta z)) LastGenerationAnnotation = Some (om_resource_version (meta x))"
    using written_marks(3) [of k x] z(2) by (simp add: y restored_def meta_set)
  moreover have "om_resource_version (meta y) = v" by (simp add: y restored_def meta_set)
  ultimately show ?thesis
    using local_update_requests [of "wrap z" "om_resource_version (meta x)" predicates "wrap y"] z(1) y(2)
    by (simp add: wrap)
qed

end

lemma deleted_copy_seen:
  "IsManagedObject (kobj_meta x) \<Longrightarrow>
   deliver (NewControllerManagedBy predicates) LocalKind (DeleteEvent (Some x)) = Done [meta_nsname (kobj_meta x)]"
  by (simp add: deliver_local managed_filter_def request_for_def)

text \<open>A new ready revision of a proxy's configuration leads to a request for its service.\<close>

lemma ready_revision_requests:
  assumes "kservice_SetupWithManager store predicates = Inr ws"
    and "meta_nsname (cfg_meta c) = GetConfigurationNamespacedName n"
    and "meta_nsname (cfg_meta c') = GetConfigurationNamespacedName n"
  shows "deliver ws LocalConfigurations (UpdateEvent (Some (KConfiguration c)) (Some (KConfiguration c'))) =
    Done (if cfg_latest_ready c = cfg_latest_ready c' then [] else [n])"
proof -
  have name: "om_name (cfg_meta d) = ns_name n @ EdgeProxySuffix" "om_namespace (cfg_meta d) = ns_namespace n"
    if "meta_nsname (cfg_meta d) = GetConfigurationNamespacedName n" for d
    using that by (cases n; simp add: meta_nsname_def GetConfigurationNamespacedName_def)+
  have "configuration_requests (Some (KConfiguration d)) = [n]"
    if "meta_nsname (cfg_meta d) = GetConfigurationNamespacedName n" for d
    using name [OF that]
    by (cases n) (simp add: configuration_requests_def findServiceFromConfiguration_def GetServiceNameFromConfiguration_def)
  then show ?thesis
    using assms(2,3) name [OF assms(3)]
    by (simp add: deliver_configurations(1) [OF assms(1)] IsEdgeProxyConfiguration_def)
qed

text \<open>The preprocessors of the service controller leave the version of the object alone.\<close>

lemma pre_service_version:
  assumes "pre_service r s w = ((res, err, s'), w')"
  shows "om_resource_version (svc_meta s') = om_resource_version (svc_meta s)"
  using assms
  by (auto simp: pre_service_def reconcileKService_def RemoveEdgeProxyTarget_def set_traffic_def Let_def
      split: if_splits sum.splits option.splits prod.splits)

lemma kservice_preprocess_version:
  assumes "run_preprocessors [pre_configuration r, pre_service r] result s w = ((res, None, s'), w')"
  shows "om_resource_version (svc_meta s') = om_resource_version (svc_meta s)"
  using assms
  by (auto simp: pre_configuration_def dest: pre_service_version split: prod.splits option.splits)

lemma kservice_writes:
  assumes "mirror_prepare (kservice_mirror r) k l w = ((res, None, obj, upd), w')"
  obtains x where "obj = written svc_meta set_svc_meta k x"
    "om_resource_version (svc_meta x) = om_resource_version (svc_meta l)"
proof -
  let ?m = "kservice_kindMerger (kr_remote_url r) k l"
  obtain res' err x w1 where p: "run_preprocessors [pre_configuration r, pre_service r] result_zero ?m w = ((res', err, x), w1)"
    by (metis prod_cases3 surj_pair)
  have "err = None"
    using assms p by (cases err) (auto simp: mirror_prepare_def Let_def)
  then have "obj = written svc_meta set_svc_meta k x"
    using ks.prepare_obj [of "kservice_mirror r" "kr_remote_url r" k l w res' x w1] assms p by simp
  moreover have "om_resource_version (svc_meta x) = om_resource_version (svc_meta l)"
    using kservice_preprocess_version [of r result_zero ?m w res' x w1] p \<open>err = None\<close>
    by (simp add: ks.merge_version)
  ultimately show ?thesis by (rule that)
qed

end
