(* ===== verification/ApiServer.thy ===== *)
theory ApiServer
  imports SimpleMirrors
begin

text \<open>
  The mirrors against an API server. \<open>serves\<close> is the documented behaviour of the server for one
  kind, as far as the reconciler relies on it: reads return what is stored, a write of a free
  name creates, a write with the stored resource version replaces, a deletion removes; the server
  may set any field but the name, labels, annotations and the content that was sent.
  \<open>mirror_spec\<close> is the contract of a mirror in terms of the two clusters alone; the lemmas show
  that one \<open>Reconcile\<close> implements it. A server in memory shows that the hypotheses can hold.
\<close>

section \<open>The contract of the server\<close>

definition accepted :: "('o \<Rightarrow> object_meta) \<Rightarrow> ('o \<Rightarrow> 'c) \<Rightarrow> 'o \<Rightarrow> 'o \<Rightarrow> bool" where
  "accepted meta content sent stored \<longleftrightarrow>
     content stored = content sent \<and> meta_nsname (meta stored) = meta_nsname (meta sent) \<and>
     om_labels (meta stored) = om_labels (meta sent) \<and> om_annotations (meta stored) = om_annotations (meta sent)"

definition reads :: "('o \<Rightarrow> object_meta) \<Rightarrow> ('o, 'w) kclient \<Rightarrow> ('w \<Rightarrow> nsname \<Rightarrow> 'o option) \<Rightarrow> bool" where
  "reads meta c view \<longleftrightarrow>
     (\<forall>n w. kc_get c n w = (case view w n of None \<Rightarrow> Inl NotFound | Some x \<Rightarrow> Inr x)) \<and>
     (\<forall>n w x. view w n = Some x \<longrightarrow> meta_nsname (meta x) = n)"

definition creates :: "('o \<Rightarrow> object_meta) \<Rightarrow> ('o \<Rightarrow> 'c) \<Rightarrow> ('o, 'w) kclient \<Rightarrow> ('w \<Rightarrow> nsname \<Rightarrow> 'o option) \<Rightarrow> bool" where
  "creates meta content c view \<longleftrightarrow>
     (\<forall>x w. view w (meta_nsname (meta x)) = None \<and> om_resource_version (meta x) = [] \<longrightarrow>
       (\<exists>y w'. kc_create c x w = (Inr y, w') \<and> accepted meta content x y \<and>
          view w' = (view w)(meta_nsname (meta x) \<mapsto> y)))"

definition updates :: "('o \<Rightarrow> object_meta) \<Rightarrow> ('o \<Rightarrow> 'c) \<Rightarrow> ('o, 'w) kclient \<Rightarrow> ('w \<Rightarrow> nsname \<Rightarrow> 'o option) \<Rightarrow> bool" where
  "updates meta content c view \<longleftrightarrow>
     (\<forall>x z w. view w (meta_nsname (meta x)) = Some z \<and> om_resource_version (meta z) = om_resource_version (meta x) \<longrightarrow>
       (\<exists>y w'. kc_update c x w = (Inr y, w') \<and> accepted meta content x y \<and>
          view w' = (view w)(meta_nsname (meta x) \<mapsto> y)))"

definition deletes :: "('o \<Rightarrow> object_meta) \<Rightarrow> ('o, 'w) kclient \<Rightarrow> ('w \<Rightarrow> nsname \<Rightarrow> 'o option) \<Rightarrow> bool" where
  "deletes meta c view \<longleftrightarrow>
     (\<forall>x z w. view w (meta_nsname (meta x)) = Some z \<longrightarrow>
       (\<exists>w'. kc_delete c x w = (None, w') \<and> view w' = (view w)(meta_nsname (meta x) := None)))"

definition serves :: "('o \<Rightarrow> object_meta) \<Rightarrow> ('o \<Rightarrow> 'c) \<Rightarrow> ('o, 'w) kclient \<Rightarrow> ('w \<Rightarrow> nsname \<Rightarrow> 'o option) \<Rightarrow> bool" where
  "serves meta content c view \<longleftrightarrow>
     reads meta c view \<and> creates meta content c view \<and> updates meta content c view \<and> deletes meta c view"

text \<open>Writes through \<open>c\<close> do not change what another client sees.\<close>

definition isolated :: "('o, 'w) kclient \<Rightarrow> ('w \<Rightarrow> 'v) \<Rightarrow> bool" where
  "isolated c view \<longleftrightarrow>
     (\<forall>x w. view (snd (kc_create c x w)) = view w \<and> view (snd (kc_update c x w)) = view w \<and>
        view (snd (kc_delete c x w)) = view w)"

text \<open>
  What the server refuses: an object that exists cannot be created, one that is missing cannot be
  changed, one that has changed since it was read (optimistic concurrency) cannot be replaced.
\<close>

definition refuses :: "('o \<Rightarrow> object_meta) \<Rightarrow> ('o, 'w) kclient \<Rightarrow> ('w \<Rightarrow> nsname \<Rightarrow> 'o option) \<Rightarrow> bool" where
  "refuses meta c view \<longleftrightarrow>
     (\<forall>x w. view w (meta_nsname (meta x)) \<noteq> None \<longrightarrow> kc_create c x w = (Inl AlreadyExists, w)) \<and>
     (\<forall>x w. view w (meta_nsname (meta x)) = None \<longrightarrow> kc_update c x w = (Inl NotFound, w)) \<and>
     (\<forall>x z w. view w (meta_nsname (meta x)) = Some z \<and> om_resource_version (meta z) \<noteq> om_resource_version (meta x)
        \<longrightarrow> kc_update c x w = (Inl Conflict, w)) \<and>
     (\<forall>x w. view w (meta_nsname (meta x)) = None \<longrightarrow> kc_delete c x w = (Some NotFound, w))"

text \<open>A write makes a new version of the object.\<close>

definition renews :: "('o \<Rightarrow> object_meta) \<Rightarrow> ('o, 'w) kclient \<Rightarrow> bool" where
  "renews meta c \<longleftrightarrow>
     (\<forall>x y w w'. kc_create c x w = (Inr y, w') \<or> kc_update c x w = (Inr y, w') \<longrightarrow>
        om_resource_version (meta y) \<noteq> om_resource_version (meta x))"

lemma refuses_simps:
  assumes "refuses meta c view"
  shows "view w (meta_nsname (meta x)) = Some y \<Longrightarrow> kc_create c x w = (Inl AlreadyExists, w)"
    and "view w (meta_nsname (meta x)) = None \<Longrightarrow> kc_update c x w = (Inl NotFound, w)"
    and "view w (meta_nsname (meta x)) = Some z \<Longrightarrow> om_resource_version (meta z) \<noteq> om_resource_version (meta x)
      \<Longrightarrow> kc_update c x w = (Inl Conflict, w)"
    and "view w (meta_nsname (meta x)) = None \<Longrightarrow> kc_delete c x w = (Some NotFound, w)"
  using assms by (simp_all add: refuses_def)

lemma serves_get:
  assumes "reads meta c view"
  shows "view w n = None \<Longrightarrow> kc_get c n w = Inl NotFound" and "view w n = Some x \<Longrightarrow> kc_get c n w = Inr x"
    and "view w n = Some x \<Longrightarrow> meta_nsname (meta x) = n"
  using assms by (simp_all add: reads_def)

lemma serves_create:
  assumes "serves meta content c view" "view w n = None" "meta_nsname (meta x) = n" "om_resource_version (meta x) = []"
  obtains y w' where "kc_create c x w = (Inr y, w')" "accepted meta content x y" "view w' = (view w)(n \<mapsto> y)"
proof -
  have "view w (meta_nsname (meta x)) = None \<and> om_resource_version (meta x) = []" using assms by simp
  then obtain y w' where "kc_create c x w = (Inr y, w')" "accepted meta content x y"
      "view w' = (view w)(meta_nsname (meta x) \<mapsto> y)"
    using assms(1) unfolding serves_def creates_def by blast
  then show ?thesis using that assms(3) by simp
qed

lemma serves_update:
  assumes "serves meta content c view" "view w n = Some z" "meta_nsname (meta x) = n"
    and "om_resource_version (meta x) = om_resource_version (meta z)"
  obtains y w' where "kc_update c x w = (Inr y, w')" "accepted meta content x y" "view w' = (view w)(n \<mapsto> y)"
proof -
  have "view w (meta_nsname (meta x)) = Some z \<and> om_resource_version (meta z) = om_resource_version (meta x)"
    using assms by simp
  then obtain y w' where "kc_update c x w = (Inr y, w')" "accepted meta content x y"
      "view w' = (view w)(meta_nsname (meta x) \<mapsto> y)"
    using assms(1) unfolding serves_def updates_def by blast
  then show ?thesis using that assms(3) by simp
qed

lemma serves_delete:
  assumes "serves meta content c view" "view w n = Some z" "meta_nsname (meta x) = n"
  obtains w' where "kc_delete c x w = (None, w')" "view w' = (view w)(n := None)"
proof -
  have "view w (meta_nsname (meta x)) = Some z" using assms by simp
  then obtain w' where "kc_delete c x w = (None, w')" "view w' = (view w)(meta_nsname (meta x) := None)"
    using assms(1) unfolding serves_def deletes_def by blast
  then show ?thesis using that assms(3) by simp
qed

section \<open>The contract of a mirror\<close>

text \<open>The remote object whose copy is due, if a copy is due at all.\<close>

definition mirror_spec :: "('o \<Rightarrow> object_meta) \<Rightarrow> string list option \<Rightarrow> 'o option \<Rightarrow> 'o option \<Rightarrow> 'o option" where
  "mirror_spec meta envs remote local =
     (case remote of
        None \<Rightarrow> None
      | Some k \<Rightarrow>
          (case local of
             None \<Rightarrow> Some k
           | Some l \<Rightarrow> if IsManagedObject (meta l) \<and> \<not> HasEdgeSyncLabel (meta k) envs then None else Some k))"

definition copy_of :: "('o \<Rightarrow> object_meta) \<Rightarrow> ('o \<Rightarrow> 'c) \<Rightarrow> 'o \<Rightarrow> 'o \<Rightarrow> bool" where
  "copy_of meta content k y \<longleftrightarrow>
     content y = content k \<and> meta_nsname (meta y) = meta_nsname (meta k) \<and>
     om_labels (meta y) = om_labels (UpdateLabels (meta k)) \<and>
     mlookup (om_annotations (meta y)) LastRemoteGenerationAnnotation = Some (om_resource_version (meta k))"

definition implements :: "('o \<Rightarrow> object_meta) \<Rightarrow> ('o \<Rightarrow> 'c) \<Rightarrow> 'o option \<Rightarrow> 'o option \<Rightarrow> bool" where
  "implements meta content spec local \<longleftrightarrow>
     (case spec of None \<Rightarrow> local = None | Some k \<Rightarrow> (\<exists>y. local = Some y \<and> copy_of meta content k y))"

lemma copy_of_managed: "copy_of meta content k y \<Longrightarrow> IsManagedObject (meta y)"
  using IsManagedObject_UpdateLabels [of "meta k"] by (simp add: copy_of_def IsManagedObject_iff)

lemma copy_of_sync: "copy_of meta content k y \<Longrightarrow> HasEdgeSyncLabel (meta y) envs = HasEdgeSyncLabel (meta k) envs"
  using HasEdgeSyncLabel_UpdateLabels [of "meta k" envs] by (simp add: copy_of_def HasEdgeSyncLabel_iff)

lemma copy_of_accepted: "copy_of meta content k x \<Longrightarrow> accepted meta content x y \<Longrightarrow> copy_of meta content k y"
  by (simp add: copy_of_def accepted_def)

text \<open>Applied to its own result, the contract asks for the same again unless the label is missing.\<close>

lemma mirror_spec_stable:
  assumes "implements meta content (mirror_spec meta envs (Some k) local) local'"
    and "HasEdgeSyncLabel (meta k) envs"
  shows "mirror_spec meta envs (Some k) local' = Some k"
  using assms by (auto simp: mirror_spec_def split: option.splits)

section \<open>A mirror implements its contract\<close>

locale mirrored_kind = mirror_kind +
  fixes content :: "'a \<Rightarrow> 'c"
  assumes content_merge: "content (merger s d) = content s"
    and content_set: "content (set_meta m x) = content x"
begin

lemma written_meta:
  "om_labels (meta (written meta set_meta k (merger k l))) = om_labels (UpdateLabels (meta k))"
  "meta_nsname (meta (written meta set_meta k (merger k l))) = meta_nsname (meta k)"
  "om_resource_version (meta (written meta set_meta k (merger k l))) = om_resource_version (meta l)"
  by (simp_all add: meta_written merge_labels merge_name merge_namespace merge_version meta_nsname_def
      UpdateLabels_def UpdateLastGenerationAnnotation_def UpdateLastRemoteGenerationAnnotation_def)

lemma copy_written: "copy_of meta content k (written meta set_meta k (merger k l))"
proof -
  have "content (written meta set_meta k (merger k l)) = content k"
    by (simp add: written_def content_set content_merge)
  then show ?thesis by (simp add: copy_of_def written_meta written_marks)
qed

lemma copy_stamp: "copy_of meta content k (stamp meta set_meta k (merger k l))"
proof -
  have "content (stamp meta set_meta k (merger k l)) = content k"
    by (simp add: stamp_def content_set content_merge)
  then show ?thesis
    by (simp add: copy_of_def stamp_def meta_set merge_labels merge_name merge_namespace meta_nsname_def
        UpdateLabels_def UpdateLastRemoteGenerationAnnotation_def)
qed

lemma reconcile_implements:
  assumes c: "mr_client r = Some c" "mr_remote r = Some rc"
    and r: "mr_meta r = meta" "mr_set_meta r = set_meta" "mr_merger r = merger" "mr_preprocessors r = None"
      "om_resource_version (meta (mr_zero r)) = []"
    and local: "serves meta content c lview" and remote: "reads meta rc rview" and iso: "isolated c rview"
  shows "\<exists>w'. Reconcile r req w = ((result_zero, None), w') \<and>
    implements meta content (mirror_spec meta (mr_envs r) (rview w req) (lview w req)) (lview w' req) \<and>
    (\<forall>n. n \<noteq> req \<longrightarrow> lview w' n = lview w n) \<and> rview w' = rview w"
proof -
  have lr: "reads meta c lview" using local by (simp add: serves_def)
  note lget = serves_get [OF lr, of w req] and rget = serves_get [OF remote, of w req]
  have gone: ?thesis if l: "lview w req = Some l" and run: "Reconcile r req w = mirror_write c False False True l result_zero w"
    and spec: "mirror_spec meta (mr_envs r) (rview w req) (lview w req) = None" for l
  proof -
    obtain w' where w': "kc_delete c l w = (None, w')" "lview w' = (lview w)(req := None)"
      using serves_delete [OF local l lget(3) [OF l]] by blast
    then show ?thesis
      using run spec iso [unfolded isolated_def, rule_format, of l w] by (simp add: mirror_write_def implements_def)
  qed
  show ?thesis
  proof (cases "rview w req")
    case None
    show ?thesis
    proof (cases "lview w req")
      case None
      with \<open>rview w req = None\<close> show ?thesis
        using Reconcile_both_missing [OF c] lget rget by (simp add: implements_def mirror_spec_def)
    next
      case (Some l)
      with \<open>rview w req = None\<close> show ?thesis
        using Reconcile_remote_gone [OF c] lget rget by (intro gone) (simp_all add: mirror_spec_def)
    qed
  next
    case (Some k)
    note k = Some
    let ?x = "\<lambda>l. written meta set_meta k (merger k l)"
    have req: "meta_nsname (meta (?x l)) = req" for l
      using copy_written [of k l] rget(3) [OF k] by (simp add: copy_of_def)
    show ?thesis
    proof (cases "lview w req")
      case None
      obtain upd where p: "mirror_prepare r k (mr_zero r) w = ((result_zero, None, ?x (mr_zero r), upd), w)"
        using prepare_plain [OF r(1-4)] by blast
      obtain y w' where w': "kc_create c (?x (mr_zero r)) w = (Inr y, w')"
          "accepted meta content (?x (mr_zero r)) y" "lview w' = (lview w)(req \<mapsto> y)"
        using serves_create [OF local None req, of "mr_zero r"] r(5) written_meta(3) [of k "mr_zero r"] by auto
      have "Reconcile r req w = ((result_zero, None), w')"
        using Reconcile_create [OF c rget(2) [OF k] lget(1) [OF None] p] w'(1) by (simp add: mirror_write_def)
      then show ?thesis
        using None k w' copy_of_accepted [OF copy_written w'(2)] iso [unfolded isolated_def, rule_format, of "?x (mr_zero r)" w]
        by (simp add: implements_def mirror_spec_def)
    next
      case (Some l)
      show ?thesis
      proof (cases "IsManagedObject (meta l) \<and> \<not> HasEdgeSyncLabel (meta k) (mr_envs r)")
        case True
        then show ?thesis
          using Some k Reconcile_label_lost [OF c rget(2) lget(2), of k l] r(1)
          by (intro gone) (simp_all add: mirror_spec_def)
      next
        case False
        define upd where "upd \<longleftrightarrow> (om_resource_version (meta k) \<noteq> mget (om_annotations (meta l)) LastRemoteGenerationAnnotation \<and>
           mlookup (om_annotations (meta l)) LastRemoteGenerationAnnotation \<noteq> None) \<or> l \<noteq> stamp meta set_meta k (merger k l)"
        have p: "mirror_prepare r k l w = ((result_zero, None, ?x l, upd), w)"
          unfolding upd_def using r(4) by (intro prepare_obj [OF r(1-3)]) simp
        have run: "Reconcile r req w = mirror_write c False upd False (?x l) result_zero w"
          using False r(1) by (intro Reconcile_update [OF c rget(2) [OF k] lget(2) [OF Some] _ p]) auto
        have spec: "mirror_spec meta (mr_envs r) (rview w req) (lview w req) = Some k"
          using False k Some by (simp add: mirror_spec_def)
        show ?thesis
        proof (cases upd)
          case True
          have v: "om_resource_version (meta (?x l)) = om_resource_version (meta l)" by (rule written_meta(3))
          obtain y w' where w': "kc_update c (?x l) w = (Inr y, w')" "accepted meta content (?x l) y"
              "lview w' = (lview w)(req \<mapsto> y)"
            by (rule serves_update [OF local, of w req l "?x l", OF Some req v])
          have "Reconcile r req w = ((result_zero, None), w')"
            using run True w'(1) by (simp add: mirror_write_def)
          then show ?thesis
            using spec w' copy_of_accepted [OF copy_written w'(2)] iso [unfolded isolated_def, rule_format, of "?x l" w]
            by (simp add: implements_def)
        next
          case False
          then have "l = stamp meta set_meta k (merger k l)" unfolding upd_def by blast
          then have "copy_of meta content k l" using copy_stamp [of k l] by metis
          moreover have "Reconcile r req w = ((result_zero, None), w)"
            using run by (simp add: False)
          ultimately show ?thesis
            using spec Some by (simp add: implements_def)
        qed
      qed
    qed
  qed
qed

end

interpretation cmm: mirrored_kind cm_meta set_cm_meta configmap_kindMerger cm_data
  by unfold_locales (simp_all add: configmap_kindMerger_def set_cm_meta_def)

interpretation secm: mirrored_kind sec_meta set_sec_meta secret_kindMerger sec_data
  by unfold_locales (simp_all add: secret_kindMerger_def set_sec_meta_def)

interpretation nspm: mirrored_kind nsp_meta set_nsp_meta namespace_kindMerger "\<lambda>x. ()"
  by unfold_locales simp_all

section \<open>A server in memory\<close>

text \<open>
  The objects by name and the number of writes. A new resource version is made of the one that was
  sent and of that number.
  \<open>get\<close> and \<open>put\<close> select the part of the state that belongs to the client.
\<close>

record 'o memory =
  my_objects :: "(nsname, 'o) fmap"
  my_writes :: nat

definition memory_store :: "('o \<Rightarrow> object_meta) \<Rightarrow> (object_meta \<Rightarrow> 'o \<Rightarrow> 'o) \<Rightarrow> 'o \<Rightarrow> 'o memory \<Rightarrow> 'o \<times> 'o memory" where
  "memory_store meta set_meta x m =
     (let y = restored meta set_meta (CHR ''v'' # om_resource_version (meta x) @ show_nat (my_writes m)) x
      in (y, \<lparr>my_objects = fmupd (meta_nsname (meta x)) y (my_objects m), my_writes = Suc (my_writes m)\<rparr>))"

definition memory_find :: "('o \<Rightarrow> object_meta) \<Rightarrow> 'o memory \<Rightarrow> nsname \<Rightarrow> 'o option" where
  "memory_find meta m n =
     (case fmlookup (my_objects m) n of
        None \<Rightarrow> None
      | Some x \<Rightarrow> if meta_nsname (meta x) = n then Some x else None)"

definition memory_client ::
  "('o \<Rightarrow> object_meta) \<Rightarrow> (object_meta \<Rightarrow> 'o \<Rightarrow> 'o) \<Rightarrow> ('w \<Rightarrow> 'o memory) \<Rightarrow> ('o memory \<Rightarrow> 'w \<Rightarrow> 'w) \<Rightarrow> ('o, 'w) kclient"
where
  "memory_client meta set_meta get put =
     \<lparr>kc_get = (\<lambda>n w. case memory_find meta (get w) n of None \<Rightarrow> Inl NotFound | Some x \<Rightarrow> Inr x),
      kc_create = (\<lambda>x w.
        case memory_find meta (get w) (meta_nsname (meta x)) of
          Some _ \<Rightarrow> (Inl AlreadyExists, w)
        | None \<Rightarrow> (case memory_store meta set_meta x (get w) of (y, m) \<Rightarrow> (Inr y, put m w))),
      kc_update = (\<lambda>x w.
        case memory_find meta (get w) (meta_nsname (meta x)) of
          None \<Rightarrow> (Inl NotFound, w)
        | Some z \<Rightarrow>
            if om_resource_version (meta z) \<noteq> om_resource_version (meta x) then (Inl Conflict, w)
            else (case memory_store meta set_meta x (get w) of (y, m) \<Rightarrow> (Inr y, put m w))),
      kc_delete = (\<lambda>x w.
        if memory_find meta (get w) (meta_nsname (meta x)) = None then (Some NotFound, w)
        else (None, put ((get w)\<lparr>my_objects := fmdrop (meta_nsname (meta x)) (my_objects (get w))\<rparr>) w))\<rparr>"

text \<open>\<open>get\<close> and \<open>put\<close> fit together, and the kind has the usual accessors.\<close>

definition memory_fits ::
  "('o \<Rightarrow> object_meta) \<Rightarrow> (object_meta \<Rightarrow> 'o \<Rightarrow> 'o) \<Rightarrow> ('o \<Rightarrow> 'c) \<Rightarrow> ('w \<Rightarrow> 'o memory) \<Rightarrow> ('o memory \<Rightarrow> 'w \<Rightarrow> 'w) \<Rightarrow> bool"
where
  "memory_fits meta set_meta content get put \<longleftrightarrow>
     (\<forall>m w. get (put m w) = m) \<and> (\<forall>m x. meta (set_meta m x) = m) \<and> (\<forall>m x. content (set_meta m x) = content x)"

lemma memory_find_store:
  assumes "\<And>m x. meta (set_meta m x) = m" and "memory_store meta set_meta x m = (y, m')"
  shows "memory_find meta m' = (memory_find meta m)(meta_nsname (meta x) \<mapsto> y)"
  using assms by (auto simp: memory_store_def memory_find_def restored_def meta_nsname_def Let_def fun_eq_iff)

lemma memory_accepted:
  assumes "\<And>m x. meta (set_meta m x) = m" "\<And>m x. content (set_meta m x) = content x"
    and "memory_store meta set_meta x m = (y, m')"
  shows "accepted meta content x y"
  using assms by (auto simp: memory_store_def accepted_def restored_def meta_nsname_def Let_def)

lemma memory_serves:
  assumes "memory_fits meta set_meta content get put"
  shows "serves meta content (memory_client meta set_meta get put) (\<lambda>w. memory_find meta (get w))"
proof -
  have fits: "get (put m w) = m" "meta (set_meta n x) = n" "content (set_meta n x) = content x" for m w n x
    using assms by (simp_all add: memory_fits_def)
  note store = memory_find_store [of meta set_meta, OF fits(2)] memory_accepted [of meta set_meta content, OF fits(2,3)]
  have "reads meta (memory_client meta set_meta get put) (\<lambda>w. memory_find meta (get w))"
    by (simp add: reads_def memory_client_def memory_find_def split: option.split)
  moreover have "creates meta content (memory_client meta set_meta get put) (\<lambda>w. memory_find meta (get w))"
    by (auto simp: creates_def memory_client_def fits split: prod.split dest: store)
  moreover have "updates meta content (memory_client meta set_meta get put) (\<lambda>w. memory_find meta (get w))"
    by (auto simp: updates_def memory_client_def fits split: prod.split dest: store)
  moreover have "deletes meta (memory_client meta set_meta get put) (\<lambda>w. memory_find meta (get w))"
    by (auto simp: deletes_def memory_client_def fits memory_find_def fun_eq_iff split: option.split)
  ultimately show ?thesis by (simp add: serves_def)
qed

lemma memory_refuses: "refuses meta (memory_client meta set_meta get put) (\<lambda>w. memory_find meta (get w))"
  by (auto simp: refuses_def memory_client_def split: option.split)

lemma memory_renews:
  assumes "\<And>m x. meta (set_meta m x) = m"
  shows "renews meta (memory_client meta set_meta get put)"
proof -
  have "om_resource_version (meta y) \<noteq> om_resource_version (meta x)" if "memory_store meta set_meta x m = (y, m')" for x y m m'
  proof -
    have "om_resource_version (meta y) = CHR ''v'' # om_resource_version (meta x) @ show_nat (my_writes m)"
      using that assms by (auto simp: memory_store_def restored_def Let_def)
    then have "length (om_resource_version (meta x)) < length (om_resource_version (meta y))" by simp
    then show ?thesis by auto
  qed
  then show ?thesis
    by (auto simp: renews_def memory_client_def split: option.splits prod.splits if_splits)
qed

lemma memory_isolated:
  assumes "\<And>m w. view (put m w) = view w"
  shows "isolated (memory_client meta set_meta get put) view"
  using assms by (auto simp: isolated_def memory_client_def split: option.split prod.split)

end
