(* ===== verification/WorkQueue.thy ===== *)
theory WorkQueue
  imports Prelude
begin

text \<open>
  The work queue between the watches and a reconciler: \<open>workqueue.Type\<close> of client-go
  (\<open>Add\<close>, \<open>Get\<close>, \<open>Done\<close>, \<open>ShutDown\<close>), the delaying queue around it, of which only the set of
  waiting items is kept (time is left open: an item may become ready at any moment), and
  \<open>reconcileHandler\<close> of controller-runtime, which decides from the answer of a reconciler
  whether its request comes back. The abstract queue is the set of items that still have to be
  processed; the lemmas show that no item is lost, none is waiting twice and none is processed
  by two workers at once.
\<close>

section \<open>The queue\<close>

record 'a work_queue =
  wq_queue :: "'a list"
  wq_dirty :: "'a set"
  wq_processing :: "'a set"
  wq_waiting :: "'a list"
  wq_shutting_down :: bool

definition newQueue :: "'a work_queue" where
  "newQueue = \<lparr>wq_queue = [], wq_dirty = {}, wq_processing = {}, wq_waiting = [], wq_shutting_down = False\<rparr>"

definition wq_Add :: "'a \<Rightarrow> 'a work_queue \<Rightarrow> 'a work_queue" where
  "wq_Add item q =
     (if wq_shutting_down q then q
      else if item \<in> wq_dirty q then q
      else
        let q1 = q\<lparr>wq_dirty := insert item (wq_dirty q)\<rparr>
        in if item \<in> wq_processing q1 then q1 else q1\<lparr>wq_queue := wq_queue q1 @ [item]\<rparr>)"

text \<open>\<open>Get\<close> blocks on an empty queue (\<open>None\<close>) unless the queue shuts down (\<open>Some None\<close>).\<close>

definition wq_Get :: "'a work_queue \<Rightarrow> ('a option \<times> 'a work_queue) option" where
  "wq_Get q =
     (case wq_queue q of
        [] \<Rightarrow> if wq_shutting_down q then Some (None, q) else None
      | item # rest \<Rightarrow>
          Some (Some item, q\<lparr>wq_queue := rest, wq_processing := insert item (wq_processing q),
                             wq_dirty := wq_dirty q - {item}\<rparr>))"

definition wq_Done :: "'a \<Rightarrow> 'a work_queue \<Rightarrow> 'a work_queue" where
  "wq_Done item q =
     (let q1 = q\<lparr>wq_processing := wq_processing q - {item}\<rparr>
      in if item \<in> wq_dirty q1 then q1\<lparr>wq_queue := wq_queue q1 @ [item]\<rparr> else q1)"

definition wq_ShutDown :: "'a work_queue \<Rightarrow> 'a work_queue" where
  "wq_ShutDown q = q\<lparr>wq_shutting_down := True\<rparr>"

text \<open>The delaying queue: an item waits until its time has come, then it is added.\<close>

definition wq_AddAfter :: "'a \<Rightarrow> int \<Rightarrow> 'a work_queue \<Rightarrow> 'a work_queue" where
  "wq_AddAfter item duration q =
     (if wq_shutting_down q then q
      else if duration \<le> 0 then wq_Add item q
      else q\<lparr>wq_waiting := wq_waiting q @ [item]\<rparr>)"

definition wq_ready :: "'a \<Rightarrow> 'a work_queue \<Rightarrow> 'a work_queue" where
  "wq_ready item q = wq_Add item (q\<lparr>wq_waiting := remove1 item (wq_waiting q)\<rparr>)"

text \<open>
  \<open>reconcileHandler\<close>: an error and \<open>Requeue\<close> give the request back after the delay of the rate
  limiter, a positive \<open>RequeueAfter\<close> after that time, any other answer is final.
\<close>

definition reconcileHandler ::
  "'a \<Rightarrow> int \<Rightarrow> ctrl_result \<times> 'e option \<Rightarrow> 'a work_queue \<Rightarrow> 'a work_queue"
where
  "reconcileHandler req limit answer q =
     (if snd answer \<noteq> None then wq_AddAfter req limit q
      else if 0 < requeue_after (fst answer) then wq_AddAfter req (requeue_after (fst answer)) q
      else if requeue (fst answer) then wq_AddAfter req limit q
      else q)"

definition wq_add_all :: "'a list \<Rightarrow> 'a work_queue \<Rightarrow> 'a work_queue" where
  "wq_add_all items q = fold wq_Add items q"

section \<open>The invariant\<close>

text \<open>The comment on the field \<open>queue\<close> of the Go type, and its converse.\<close>

definition wq_wf :: "'a work_queue \<Rightarrow> bool" where
  "wq_wf q \<longleftrightarrow> distinct (wq_queue q) \<and> set (wq_queue q) = wq_dirty q - wq_processing q"

lemma wf_new: "wq_wf newQueue"
  by (simp add: wq_wf_def newQueue_def)

lemma wf_Add: "wq_wf q \<Longrightarrow> wq_wf (wq_Add item q)"
  by (simp add: wq_wf_def wq_Add_def Let_def) blast

lemma wf_Get: "wq_wf q \<Longrightarrow> wq_Get q = Some (x, q') \<Longrightarrow> wq_wf q'"
  by (auto simp: wq_wf_def wq_Get_def split: list.splits if_splits)

lemma wf_Done: "wq_wf q \<Longrightarrow> item \<in> wq_processing q \<Longrightarrow> wq_wf (wq_Done item q)"
  by (simp add: wq_wf_def wq_Done_def Let_def) blast

lemma wf_ShutDown: "wq_wf q \<Longrightarrow> wq_wf (wq_ShutDown q)"
  by (simp add: wq_wf_def wq_ShutDown_def)

lemma wf_AddAfter: "wq_wf q \<Longrightarrow> wq_wf (wq_AddAfter item d q)"
  using wf_Add [of q item] by (simp add: wq_AddAfter_def) (simp add: wq_wf_def)

lemma wf_ready: "wq_wf q \<Longrightarrow> wq_wf (wq_ready item q)"
  unfolding wq_ready_def by (rule wf_Add) (simp add: wq_wf_def)

lemma wf_handler: "wq_wf q \<Longrightarrow> wq_wf (reconcileHandler req limit answer q)"
  by (simp add: reconcileHandler_def wf_AddAfter)

lemma wf_add_all: "wq_wf q \<Longrightarrow> wq_wf (wq_add_all items q)"
  unfolding wq_add_all_def by (induction items arbitrary: q) (simp_all add: wf_Add)

section \<open>Effect of the operations on the abstract queue\<close>

lemma Add_effect [simp]:
  "wq_dirty (wq_Add item q) = (if wq_shutting_down q then wq_dirty q else insert item (wq_dirty q))"
  "wq_processing (wq_Add item q) = wq_processing q" "wq_waiting (wq_Add item q) = wq_waiting q"
  "wq_shutting_down (wq_Add item q) = wq_shutting_down q"
  by (auto simp: wq_Add_def Let_def)

lemma add_all_effect [simp]:
  "wq_dirty (wq_add_all items q) = (if wq_shutting_down q then wq_dirty q else set items \<union> wq_dirty q)"
  "wq_processing (wq_add_all items q) = wq_processing q" "wq_waiting (wq_add_all items q) = wq_waiting q"
  "wq_shutting_down (wq_add_all items q) = wq_shutting_down q"
  unfolding wq_add_all_def by (induction items arbitrary: q) auto

lemma Get_effect:
  assumes "wq_Get q = Some (Some item, q')"
  shows "wq_dirty q' = wq_dirty q - {item}" "wq_processing q' = insert item (wq_processing q)"
    "wq_waiting q' = wq_waiting q" "wq_shutting_down q' = wq_shutting_down q" "item \<in> set (wq_queue q)"
    "wq_queue q = item # wq_queue q'"
  using assms by (auto simp: wq_Get_def split: list.splits if_splits)

lemma Done_effect [simp]:
  "wq_dirty (wq_Done item q) = wq_dirty q" "wq_processing (wq_Done item q) = wq_processing q - {item}"
  "wq_waiting (wq_Done item q) = wq_waiting q" "wq_shutting_down (wq_Done item q) = wq_shutting_down q"
  by (simp_all add: wq_Done_def Let_def)

lemma AddAfter_effect:
  assumes "\<not> wq_shutting_down q" "0 < d"
  shows "wq_AddAfter item d q = q\<lparr>wq_waiting := wq_waiting q @ [item]\<rparr>"
  using assms by (simp add: wq_AddAfter_def)

lemma handler_effect:
  assumes "\<not> wq_shutting_down q" "0 < limit"
  shows "reconcileHandler req limit answer q =
     (if snd answer = None \<and> requeue_after (fst answer) \<le> 0 \<and> \<not> requeue (fst answer) then q
      else q\<lparr>wq_waiting := wq_waiting q @ [req]\<rparr>)"
  using assms by (auto simp: reconcileHandler_def AddAfter_effect)

lemma ready_effect [simp]:
  "\<not> wq_shutting_down q \<Longrightarrow> wq_dirty (wq_ready item q) = insert item (wq_dirty q)"
  "wq_processing (wq_ready item q) = wq_processing q" "wq_waiting (wq_ready item q) = remove1 item (wq_waiting q)"
  "wq_shutting_down (wq_ready item q) = wq_shutting_down q"
  by (simp_all add: wq_ready_def)

section \<open>Runs of a queue\<close>

text \<open>What the informers and the workers may do with a queue, in any order, and the items that they receive.\<close>

datatype 'a queue_op = OpAdd 'a | OpGet | OpDone 'a

inductive queue_run :: "'a work_queue \<Rightarrow> 'a queue_op list \<Rightarrow> 'a list \<Rightarrow> 'a work_queue \<Rightarrow> bool" where
  run_nil: "queue_run q [] [] q"
| run_add: "queue_run (wq_Add item q) ops taken q' \<Longrightarrow> queue_run q (OpAdd item # ops) taken q'"
| run_get: "wq_Get q = Some (Some item, q1) \<Longrightarrow> queue_run q1 ops taken q' \<Longrightarrow> queue_run q (OpGet # ops) (item # taken) q'"
| run_done: "item \<in> wq_processing q \<Longrightarrow> queue_run (wq_Done item q) ops taken q' \<Longrightarrow> queue_run q (OpDone item # ops) taken q'"

inductive_cases queue_run_NilE: "queue_run q [] taken q'"
inductive_cases queue_run_ConsE: "queue_run q (op # ops) taken q'"

text \<open>
  The same operations on the abstract queue: a set of items to do and a set of items being
  done. An item may be taken when it is to be done and nobody is doing it.
\<close>

fun abstract_run :: "'a set \<Rightarrow> 'a set \<Rightarrow> 'a queue_op list \<Rightarrow> 'a list \<Rightarrow> bool" where
  "abstract_run todo busy [] taken = (taken = [])"
| "abstract_run todo busy (OpAdd item # ops) taken = abstract_run (insert item todo) busy ops taken"
| "abstract_run todo busy (OpGet # ops) taken =
     (case taken of
        [] \<Rightarrow> False
      | item # rest \<Rightarrow> item \<in> todo \<and> item \<notin> busy \<and> abstract_run (todo - {item}) (insert item busy) ops rest)"
| "abstract_run todo busy (OpDone item # ops) taken = (item \<in> busy \<and> abstract_run todo (busy - {item}) ops taken)"

lemma queue_run_wf:
  assumes "queue_run q ops taken q'" and "wq_wf q"
  shows "wq_wf q'"
  using assms by (induction rule: queue_run.induct) (auto intro: wf_Add wf_Get wf_Done)

lemma queue_run_abstract:
  assumes "queue_run q ops taken q'" and "wq_wf q" and "\<not> wq_shutting_down q"
  shows "abstract_run (wq_dirty q) (wq_processing q) ops taken"
  using assms
proof (induction rule: queue_run.induct)
  case (run_get q item q1 ops taken q')
  have "item \<in> wq_dirty q" "item \<notin> wq_processing q"
    using Get_effect(5) [OF run_get.hyps(1)] run_get.prems(1) by (auto simp: wq_wf_def)
  then show ?case
    using run_get.IH wf_Get [OF run_get.prems(1) run_get.hyps(1)] Get_effect [OF run_get.hyps(1)] run_get.prems(2)
    by simp
qed (simp_all add: wf_Add wf_Done)

text \<open>Nothing that is to be done can be overlooked: it is in the queue or it will be when its worker is done.\<close>

lemma dirty_is_served:
  assumes "wq_wf q" "item \<in> wq_dirty q"
  shows "item \<in> set (wq_queue q) \<or> (item \<in> wq_processing q \<and> item \<in> set (wq_queue (wq_Done item q)))"
  using assms by (auto simp: wq_wf_def wq_Done_def Let_def)

section \<open>Properties\<close>



end
