(* ===== verification/MirrorSystem.thy ===== *)
theory MirrorSystem
  imports Watches ApiServer WorkQueue
begin

text \<open>
  A mirror at work: the two informers with their caches, the handlers of their events, the work
  queue and one worker that runs \<open>Reconcile\<close>, interleaved with changes that the cloud and other
  clients make. The caches lag behind: the local server's changes reach the cache one at a
  time, in order, through the watch stream; an event is handled some time after the cache has
  changed; a reconcile takes its request, reads the remote cache, reads the local cache and
  writes in four separate steps. The parameter \<open>ws\<close> has the watches of the controller. The
  theorem is that no change is lost all the same: each name is in sync, or is being worked on,
  or something on its way will lead to a request for it.
\<close>

section \<open>The state\<close>

text \<open>The worker: the request it has taken and what it has read so far.\<close>

datatype 'o worker =
    Idle
  | Started nsname
  | HasRemote nsname "'o option"
  | HasBoth nsname "'o option" "'o option"

record ('o, 'w) system =
  sy_server :: 'w
  sy_remote :: "nsname \<Rightarrow> 'o option"
  sy_cache :: "nsname \<Rightarrow> 'o option"
  sy_stream :: "(nsname \<times> 'o option) list"
  sy_notes :: "(watch_source \<times> event) list"
  sy_queue :: "nsname work_queue"
  sy_worker :: "'o worker"

text \<open>\<open>processDeltas\<close> of client-go: the event of a cache entry that changes from \<open>old\<close> to \<open>new\<close>.\<close>

fun processDeltas :: "('o \<Rightarrow> kobject) \<Rightarrow> 'o option \<Rightarrow> 'o option \<Rightarrow> event list" where
  "processDeltas wrap (Some x) (Some y) = [UpdateEvent (Some (wrap x)) (Some (wrap y))]"
| "processDeltas wrap None (Some y) = [CreateEvent (Some (wrap y))]"
| "processDeltas wrap (Some x) None = [DeleteEvent (Some (wrap x))]"
| "processDeltas wrap None None = []"

text \<open>The reconciler with the answers that its two reads have got; it writes to the server.\<close>

definition answer :: "'o option \<Rightarrow> api_error + 'o" where
  "answer x = (case x of None \<Rightarrow> Inl NotFound | Some y \<Rightarrow> Inr y)"

definition snapshot_mirror :: "('o, 'w) mirror \<Rightarrow> 'o option \<Rightarrow> 'o option \<Rightarrow> ('o, 'w) mirror" where
  "snapshot_mirror r k l =
     r\<lparr>mr_client := map_option (\<lambda>c. c\<lparr>kc_get := \<lambda>n w. answer l\<rparr>) (mr_client r),
       mr_remote := map_option (\<lambda>c. c\<lparr>kc_get := \<lambda>n w. answer k\<rparr>) (mr_remote r)\<rparr>"

definition changes :: "('w \<Rightarrow> nsname \<Rightarrow> 'o option) \<Rightarrow> nsname \<Rightarrow> 'w \<Rightarrow> 'w \<Rightarrow> (nsname \<times> 'o option) list" where
  "changes view n w w' = (if view w' n = view w n then [] else [(n, view w' n)])"

definition mirror_watches :: "string list \<Rightarrow> watch list" where
  "mirror_watches envs = NewControllerManagedBy [\<lambda>e. Done (env_predicate [env_requirement envs] e)]"

section \<open>The steps\<close>

text \<open>
  What the controller process does by itself: the informer takes a change from the stream, a
  handler handles an event, a delayed request becomes ready, the worker takes a request, reads
  and writes. The delay of the rate limiter is any positive one.
\<close>

inductive controller_step ::
  "('o, 'w) mirror \<Rightarrow> ('w \<Rightarrow> nsname \<Rightarrow> 'o option) \<Rightarrow> ('o \<Rightarrow> kobject) \<Rightarrow> watch list
    \<Rightarrow> ('o, 'w) system \<Rightarrow> ('o, 'w) system \<Rightarrow> bool"
  for r :: "('o, 'w) mirror" and view :: "'w \<Rightarrow> nsname \<Rightarrow> 'o option" and wrap :: "'o \<Rightarrow> kobject"
    and ws :: "watch list"
where
  local_delta: "sy_stream s = (n, v) # rest \<Longrightarrow>
    controller_step r view wrap ws s
      (s\<lparr>sy_cache := (sy_cache s)(n := v), sy_stream := rest,
         sy_notes := sy_notes s @ map (Pair LocalKind) (processDeltas wrap (sy_cache s n) v)\<rparr>)"
| handle_note: "sy_notes s = (src, e) # rest \<Longrightarrow> deliver ws src e = Done reqs \<Longrightarrow>
    controller_step r view wrap ws s (s\<lparr>sy_notes := rest, sy_queue := wq_add_all reqs (sy_queue s)\<rparr>)"
| request_ready: "n \<in> set (wq_waiting (sy_queue s)) \<Longrightarrow>
    controller_step r view wrap ws s (s\<lparr>sy_queue := wq_ready n (sy_queue s)\<rparr>)"
| take_request: "sy_worker s = Idle \<Longrightarrow> wq_Get (sy_queue s) = Some (Some n, q) \<Longrightarrow>
    controller_step r view wrap ws s (s\<lparr>sy_queue := q, sy_worker := Started n\<rparr>)"
| read_remote: "sy_worker s = Started n \<Longrightarrow>
    controller_step r view wrap ws s (s\<lparr>sy_worker := HasRemote n (sy_remote s n)\<rparr>)"
| read_local: "sy_worker s = HasRemote n k \<Longrightarrow>
    controller_step r view wrap ws s (s\<lparr>sy_worker := HasBoth n k (sy_cache s n)\<rparr>)"
| finish_request: "sy_worker s = HasBoth n k l \<Longrightarrow> 0 < limit \<Longrightarrow>
    Reconcile (snapshot_mirror r k l) n (sy_server s) = (result, w) \<Longrightarrow>
    controller_step r view wrap ws s
      (s\<lparr>sy_server := w, sy_stream := sy_stream s @ changes view n (sy_server s) w,
         sy_queue := wq_Done n (reconcileHandler n limit result (sy_queue s)), sy_worker := Idle\<rparr>)"

text \<open>
  What others do. The cloud changes an object that the cache of the environments shows (a label
  that is lost is a deletion for that cache); the new version is new, so no local copy names it
  yet. Another client of the local cluster deletes a copy, or changes anything in it but its
  name, the label of a managed object and the two marks. Anything else in the world may change as
  well, and the events of other kinds that a controller watches may come at any time.
\<close>

definition remote_fits :: "('o \<Rightarrow> object_meta) \<Rightarrow> string list \<Rightarrow> nsname \<Rightarrow> 'o \<Rightarrow> bool" where
  "remote_fits meta envs n k \<longleftrightarrow>
     meta_nsname (meta k) = n \<and> selector_matches [env_requirement envs] (om_labels (meta k))"

definition chain :: "('o, 'w) system \<Rightarrow> nsname \<Rightarrow> 'o option list" where
  "chain s n = sy_cache s n # map snd (filter (\<lambda>p. fst p = n) (sy_stream s))"

abbreviation generation_mark :: "object_meta \<Rightarrow> string option" where
  "generation_mark m \<equiv> mlookup (om_annotations m) LastGenerationAnnotation"

abbreviation remote_mark :: "object_meta \<Rightarrow> string option" where
  "remote_mark m \<equiv> mlookup (om_annotations m) LastRemoteGenerationAnnotation"

definition unmarked :: "('o \<Rightarrow> object_meta) \<Rightarrow> 'o option \<Rightarrow> 'o option list \<Rightarrow> bool" where
  "unmarked meta remote cs \<longleftrightarrow>
     (\<forall>k x. remote = Some k \<and> Some x \<in> set cs \<longrightarrow> remote_mark (meta x) \<noteq> Some (om_resource_version (meta k)))"

definition cloud_change :: "('o \<Rightarrow> object_meta) \<Rightarrow> string list \<Rightarrow> ('o, 'w) system \<Rightarrow> nsname \<Rightarrow> 'o option \<Rightarrow> bool" where
  "cloud_change meta envs s n v \<longleftrightarrow>
     (\<forall>k. v = Some k \<longrightarrow> remote_fits meta envs n k \<and>
        (\<forall>k0. sy_remote s n = Some k0 \<longrightarrow> om_resource_version (meta k) \<noteq> om_resource_version (meta k0))) \<and>
     (v = None \<longrightarrow> sy_remote s n \<noteq> None) \<and> unmarked meta v (chain s n)"

definition foreign_change :: "('o \<Rightarrow> object_meta) \<Rightarrow> nsname \<Rightarrow> 'o \<Rightarrow> 'o option \<Rightarrow> bool" where
  "foreign_change meta n y v \<longleftrightarrow>
     (case v of
        None \<Rightarrow> True
      | Some z \<Rightarrow>
          meta_nsname (meta z) = n \<and> IsManagedObject (meta z) \<and>
          generation_mark (meta z) = generation_mark (meta y) \<and> remote_mark (meta z) = remote_mark (meta y) \<and>
          om_resource_version (meta z) \<noteq> om_resource_version (meta y) \<and>
          generation_mark (meta z) \<noteq> Some (om_resource_version (meta z)))"

inductive environment_step ::
  "('o \<Rightarrow> object_meta) \<Rightarrow> ('w \<Rightarrow> nsname \<Rightarrow> 'o option) \<Rightarrow> ('o \<Rightarrow> kobject) \<Rightarrow> string list
    \<Rightarrow> ('o, 'w) system \<Rightarrow> ('o, 'w) system \<Rightarrow> bool"
  for meta :: "'o \<Rightarrow> object_meta" and view :: "'w \<Rightarrow> nsname \<Rightarrow> 'o option" and wrap :: "'o \<Rightarrow> kobject"
    and envs :: "string list"
where
  cloud: "cloud_change meta envs s n v \<Longrightarrow>
    environment_step meta view wrap envs s
      (s\<lparr>sy_remote := (sy_remote s)(n := v),
         sy_notes := sy_notes s @ map (Pair RemoteKind) (processDeltas wrap (sy_remote s n) v)\<rparr>)"
| foreign: "view (sy_server s) n = Some y \<Longrightarrow> foreign_change meta n y v \<Longrightarrow>
    view w = (view (sy_server s))(n := v) \<Longrightarrow>
    environment_step meta view wrap envs s (s\<lparr>sy_server := w, sy_stream := sy_stream s @ [(n, v)]\<rparr>)"
| elsewhere: "view w = view (sy_server s) \<Longrightarrow> list_all (\<lambda>p. fst p = LocalConfigurations) es \<Longrightarrow>
    environment_step meta view wrap envs s (s\<lparr>sy_server := w, sy_notes := sy_notes s @ es\<rparr>)"

inductive_cases controller_stepE: "controller_step r view wrap ws s t"
inductive_cases environment_stepE: "environment_step meta view wrap envs s t"

definition system_step ::
  "('o, 'w) mirror \<Rightarrow> ('w \<Rightarrow> nsname \<Rightarrow> 'o option) \<Rightarrow> ('o \<Rightarrow> kobject) \<Rightarrow> watch list \<Rightarrow> string list
    \<Rightarrow> ('o, 'w) system \<Rightarrow> ('o, 'w) system \<Rightarrow> bool"
where
  "system_step r view wrap ws envs s t \<longleftrightarrow>
     controller_step r view wrap ws s t \<or> environment_step (mr_meta r) view wrap envs s t"

text \<open>
  The start of the process: the caches have synced, the events of the first listings are on
  their way, nothing has been requested. The copies of an earlier run carry their marks.
\<close>

definition marked :: "('o \<Rightarrow> object_meta) \<Rightarrow> nsname \<Rightarrow> 'o \<Rightarrow> bool" where
  "marked meta n x \<longleftrightarrow>
     meta_nsname (meta x) = n \<and> IsManagedObject (meta x) \<and>
     (case generation_mark (meta x) of None \<Rightarrow> False | Some m \<Rightarrow> m \<noteq> om_resource_version (meta x))"

definition starts ::
  "('o \<Rightarrow> object_meta) \<Rightarrow> ('w \<Rightarrow> nsname \<Rightarrow> 'o option) \<Rightarrow> ('o \<Rightarrow> kobject) \<Rightarrow> string list \<Rightarrow> ('o, 'w) system \<Rightarrow> bool"
where
  "starts meta view wrap envs s \<longleftrightarrow>
     sy_worker s = Idle \<and> sy_queue s = newQueue \<and> sy_stream s = [] \<and> sy_cache s = view (sy_server s) \<and>
     (\<forall>n x. sy_cache s n = Some x \<longrightarrow> marked meta n x \<and> mget (om_annotations (meta x)) LastGenerationAnnotation \<noteq> ''0'') \<and>
     (\<forall>n k. sy_remote s n = Some k \<longrightarrow> remote_fits meta envs n k) \<and>
     set (sy_notes s) =
       {(LocalKind, CreateEvent (Some (wrap x))) |n x. sy_cache s n = Some x} \<union>
       {(RemoteKind, CreateEvent (Some (wrap k))) |n k. sy_remote s n = Some k}"

text \<open>Everything has been handled that has happened; and nothing is left to be done.\<close>

definition all_handled :: "('o, 'w) system \<Rightarrow> bool" where
  "all_handled s \<longleftrightarrow> sy_worker s = Idle \<and> sy_stream s = [] \<and> sy_notes s = [] \<and> wq_dirty (sy_queue s) = {}"

definition at_rest :: "('o, 'w) system \<Rightarrow> bool" where
  "at_rest s \<longleftrightarrow> all_handled s \<and> wq_waiting (sy_queue s) = []"

end
