(* ===== verification/MirrorInvariant.thy ===== *)
theory MirrorInvariant
  imports MirrorSystem
begin

text \<open>
  No change is lost by a mirror at work. The locale \<open>mirror_system\<close> is what the proof relies on:
  a kind, a server that keeps its contract, watches that include those of every mirror, and
  preprocessors that leave a copy a copy (they may fail). The invariant speaks of the
  chain of a name, the versions from the cached one to the stored one: a step of the chain that
  leads to no request can only be a write of the worker itself, and one that was made for the
  current remote version is a copy of it.
\<close>

section \<open>Chains\<close>

text \<open>An event that leads to no request: an update whose mark is the version it replaces.\<close>

definition quiet :: "('o \<Rightarrow> object_meta) \<Rightarrow> 'o option \<Rightarrow> 'o option \<Rightarrow> bool" where
  "quiet meta a b \<longleftrightarrow>
     (case (a, b) of
        (Some x, Some y) \<Rightarrow> generation_mark (meta y) = Some (om_resource_version (meta x))
      | _ \<Rightarrow> False)"

definition quiet_chain :: "('o \<Rightarrow> object_meta) \<Rightarrow> 'o option list \<Rightarrow> bool" where
  "quiet_chain meta cs \<longleftrightarrow> successively (quiet meta) cs"

definition linked ::
  "('o \<Rightarrow> object_meta) \<Rightarrow> ('o \<Rightarrow> 'c) \<Rightarrow> 'o option \<Rightarrow> 'o option \<Rightarrow> 'o option \<Rightarrow> bool"
where
  "linked meta content remote a b \<longleftrightarrow>
     (a \<noteq> None \<or> b \<noteq> None) \<and>
     (\<forall>y. a = None \<and> b = Some y \<longrightarrow> mget (om_annotations (meta y)) LastGenerationAnnotation \<noteq> ''0'') \<and>
     (\<forall>x y k. a = Some x \<and> b = Some y \<and> quiet meta a b \<and> remote = Some k \<and>
        remote_mark (meta x) = Some (om_resource_version (meta k)) \<longrightarrow> copy_of meta content k y)"

definition chain_ok ::
  "('o \<Rightarrow> object_meta) \<Rightarrow> ('o \<Rightarrow> 'c) \<Rightarrow> 'o option \<Rightarrow> nsname \<Rightarrow> 'o option list \<Rightarrow> bool"
where
  "chain_ok meta content remote n cs \<longleftrightarrow>
     (\<forall>x. Some x \<in> set cs \<longrightarrow> marked meta n x) \<and> successively (linked meta content remote) cs"

lemma chain_ok_single: "chain_ok meta content remote n [a] \<longleftrightarrow> (\<forall>x. a = Some x \<longrightarrow> marked meta n x)"
  by (auto simp: chain_ok_def)

lemma chain_ok_Cons:
  "chain_ok meta content remote n (a # b # cs) \<longleftrightarrow>
     (\<forall>x. a = Some x \<longrightarrow> marked meta n x) \<and> linked meta content remote a b \<and> chain_ok meta content remote n (b # cs)"
  by (auto simp: chain_ok_def)

lemma chain_ok_snoc:
  assumes "cs \<noteq> []"
  shows "chain_ok meta content remote n (cs @ [b]) \<longleftrightarrow>
     chain_ok meta content remote n cs \<and> (\<forall>x. b = Some x \<longrightarrow> marked meta n x) \<and> linked meta content remote (last cs) b"
  using assms by (auto simp: chain_ok_def successively_append_iff)

lemma quiet_chain_simps [simp]:
  "quiet_chain meta [a]"
  "quiet_chain meta (a # b # cs) \<longleftrightarrow> quiet meta a b \<and> quiet_chain meta (b # cs)"
  by (simp_all add: quiet_chain_def)

lemma quiet_chain_snoc: "cs \<noteq> [] \<Longrightarrow> quiet_chain meta (cs @ [b]) \<longleftrightarrow> quiet_chain meta cs \<and> quiet meta (last cs) b"
  by (auto simp: quiet_chain_def successively_append_iff)

lemma quiet_chain_append:
  "quiet_chain meta (xs @ ys) \<Longrightarrow> quiet_chain meta xs \<and> quiet_chain meta ys"
  by (simp add: quiet_chain_def successively_append_iff)

lemma quiet_None [simp]: "\<not> quiet meta None b" "\<not> quiet meta a None"
  by (simp_all add: quiet_def split: option.split)

lemma quiet_None_chain: "quiet_chain meta (None # cs) \<longleftrightarrow> cs = []"
  by (cases cs) simp_all

lemma quiet_Some_chain: "quiet_chain meta (Some x # cs) \<Longrightarrow> \<exists>y. last (Some x # cs) = Some y"
proof (induction cs arbitrary: x)
  case (Cons c cs)
  then show ?case by (cases c) auto
qed simp

text \<open>Two chains that meet: the one from what was read to the cache, and the one from the cache to the server.\<close>

lemma chain_ok_join:
  assumes "chain_ok meta content remote n (xs @ [a])" "chain_ok meta content remote n (a # ys)"
  shows "chain_ok meta content remote n (xs @ a # ys)"
  using assms by (cases ys) (auto simp: chain_ok_def successively_append_iff)

lemma quiet_chain_join:
  assumes "quiet_chain meta (xs @ [a])" "quiet_chain meta (a # ys)"
  shows "quiet_chain meta (xs @ a # ys)"
  using assms by (auto simp: quiet_chain_def successively_append_iff)

text \<open>A quiet chain that starts with a copy of the remote version ends with one.\<close>

lemma quiet_chain_copies:
  assumes "chain_ok meta content (Some k) n (Some x # cs)" "quiet_chain meta (Some x # cs)"
    and "remote_mark (meta x) = Some (om_resource_version (meta k))"
  shows "\<exists>y. last (Some x # cs) = Some y \<and> (y = x \<or> copy_of meta content k y)"
  using assms
proof (induction cs arbitrary: x)
  case (Cons c cs)
  then obtain y where c: "c = Some y" "quiet meta (Some x) (Some y)" by (cases c) auto
  then have copy: "copy_of meta content k y"
    using Cons.prems by (auto simp: chain_ok_Cons linked_def)
  then have "remote_mark (meta y) = Some (om_resource_version (meta k))" by (simp add: copy_of_def)
  then show ?case using Cons.IH [of y] Cons.prems c copy by (auto simp: chain_ok_Cons)
qed simp

lemma linked_remote:
  assumes "linked meta content remote a b" "\<And>x. a = Some x \<Longrightarrow> unmarked meta remote' [Some x]"
  shows "linked meta content remote' a b"
  using assms by (auto simp: linked_def unmarked_def)

lemma chain_ok_remote:
  assumes "chain_ok meta content remote n cs" "unmarked meta remote' cs"
  shows "chain_ok meta content remote' n cs"
  using assms
proof (induction cs rule: induct_list012)
  case (3 a b cs)
  have u: "unmarked meta remote' (b # cs)" "\<And>x. a = Some x \<Longrightarrow> unmarked meta remote' [Some x]"
    using "3.prems"(2) by (auto simp: unmarked_def)
  have "linked meta content remote' a b"
    by (rule linked_remote [of meta content remote]) (use "3.prems"(1) u(2) in \<open>simp_all add: chain_ok_Cons\<close>)
  then show ?case using "3.IH"(2) "3.prems"(1) u(1) by (simp add: chain_ok_Cons)
qed (auto simp: chain_ok_def)

section \<open>Requests\<close>

definition requests :: "watch list \<Rightarrow> watch_source \<Rightarrow> event \<Rightarrow> nsname list" where
  "requests ws src e = (case deliver ws src e of Done ns \<Rightarrow> ns | Panicked _ \<Rightarrow> [])"

text \<open>Something on its way will lead to a request for \<open>n\<close>, or it is requested.\<close>

definition alerted :: "('o \<Rightarrow> object_meta) \<Rightarrow> watch list \<Rightarrow> ('o, 'w) system \<Rightarrow> nsname \<Rightarrow> bool" where
  "alerted meta ws s n \<longleftrightarrow>
     n \<in> wq_dirty (sy_queue s) \<or> n \<in> set (wq_waiting (sy_queue s)) \<or>
     (\<exists>p \<in> set (sy_notes s). n \<in> set (requests ws (fst p) (snd p))) \<or>
     \<not> quiet_chain meta (chain s n)"

fun busy_with :: "'o worker \<Rightarrow> nsname set" where
  "busy_with Idle = {}"
| "busy_with (Started n) = {n}"
| "busy_with (HasRemote n k) = {n}"
| "busy_with (HasBoth n k l) = {n}"

lemma chain_simps:
  "chain (s\<lparr>sy_notes := a\<rparr>) n = chain s n" "chain (s\<lparr>sy_queue := q\<rparr>) n = chain s n"
  "chain (s\<lparr>sy_worker := x\<rparr>) n = chain s n" "chain (s\<lparr>sy_server := w\<rparr>) n = chain s n"
  "chain (s\<lparr>sy_remote := rm\<rparr>) n = chain s n"
  by (simp_all add: chain_def)

lemma chain_not_Nil [simp]: "chain s n \<noteq> []"
  by (simp add: chain_def)

lemma chain_stream:
  "chain (s\<lparr>sy_stream := sy_stream s @ [(m, v)]\<rparr>) n = (if m = n then chain s n @ [v] else chain s n)"
  by (simp add: chain_def)

lemma chain_delta:
  assumes "sy_stream s = (m, v) # rest"
  shows "chain s n = (if n = m then sy_cache s m # chain (s\<lparr>sy_cache := (sy_cache s)(m := v), sy_stream := rest\<rparr>) m
     else chain (s\<lparr>sy_cache := (sy_cache s)(m := v), sy_stream := rest\<rparr>) n)"
  using assms by (simp add: chain_def)

lemma chain_delta_hd:
  "chain (s\<lparr>sy_cache := (sy_cache s)(m := v), sy_stream := rest\<rparr>) m = v # tl (chain (s\<lparr>sy_cache := (sy_cache s)(m := v), sy_stream := rest\<rparr>) m)"
  by (simp add: chain_def)

section \<open>One reconcile on what was read\<close>

text \<open>
  The kind, the parts of the reconciler, the contract of the server and the watches; \<open>wrap\<close> makes
  an object the subject of an event. Preprocessors may do anything to the rest of the world,
  but they leave the objects of the kind alone, and of the merged object they keep what a copy has
  to have.
\<close>

definition keeps_copy :: "('o \<Rightarrow> object_meta) \<Rightarrow> ('o \<Rightarrow> 'c) \<Rightarrow> 'o \<Rightarrow> 'o \<Rightarrow> bool" where
  "keeps_copy meta content x y \<longleftrightarrow>
     content y = content x \<and> meta_nsname (meta y) = meta_nsname (meta x) \<and> om_labels (meta y) = om_labels (meta x) \<and>
     om_resource_version (meta y) = om_resource_version (meta x)"

locale mirror_system = mirrored_kind meta set_meta merger content
  for meta :: "'o \<Rightarrow> object_meta" and set_meta :: "object_meta \<Rightarrow> 'o \<Rightarrow> 'o" and merger :: "'o \<Rightarrow> 'o \<Rightarrow> 'o"
    and content :: "'o \<Rightarrow> 'c" +
  fixes r :: "('o, 'w) mirror" and c :: "('o, 'w) kclient" and rc :: "('o, 'w) kclient"
    and view :: "'w \<Rightarrow> nsname \<Rightarrow> 'o option" and wrap :: "'o \<Rightarrow> kobject" and ws :: "watch list" and envs :: "string list"
  assumes clients: "mr_client r = Some c" "mr_remote r = Some rc"
    and parts: "mr_meta r = meta" "mr_set_meta r = set_meta" "mr_merger r = merger"
    and preprocessed: "run_preprocessors (elems (mr_preprocessors r)) result_zero x w = ((res, err, y), w') \<Longrightarrow>
      view w' = view w \<and> keeps_copy meta content x y"
    and zero: "om_resource_version (meta (mr_zero r)) = []"
    and environments: "mr_envs r = Some envs" "envs \<noteq> []"
    and server: "serves meta content c view" "refuses meta c view" "renews meta c"
    and wrapped: "kobj_meta (wrap x) = meta x"
    and watches: "deliver ws LocalKind e = deliver (mirror_watches envs) LocalKind e"
      "deliver ws RemoteKind e = deliver (mirror_watches envs) RemoteKind e"
    and other_watches: "\<exists>reqs. deliver ws LocalConfigurations e = Done reqs"
begin

lemma snapshot_parts:
  "mr_client (snapshot_mirror r k l) = Some (c\<lparr>kc_get := \<lambda>n w. answer l\<rparr>)"
  "mr_remote (snapshot_mirror r k l) = Some (rc\<lparr>kc_get := \<lambda>n w. answer k\<rparr>)"
  "mr_meta (snapshot_mirror r k l) = meta" "mr_set_meta (snapshot_mirror r k l) = set_meta"
  "mr_merger (snapshot_mirror r k l) = merger" "mr_preprocessors (snapshot_mirror r k l) = mr_preprocessors r"
  "mr_zero (snapshot_mirror r k l) = mr_zero r" "mr_envs (snapshot_mirror r k l) = Some envs"
  by (simp_all add: snapshot_mirror_def clients parts environments)

lemma remote_label: "remote_fits meta envs n k \<Longrightarrow> HasEdgeSyncLabel (meta k) (Some envs)"
  using selector_env_iff [OF environments(2), of "meta k"] by (simp add: remote_fits_def)

text \<open>The merged object after the preprocessors, and the error of one that fails.\<close>

abbreviation preprocess :: "'o \<Rightarrow> 'o \<Rightarrow> 'w \<Rightarrow> (ctrl_result \<times> go_error option \<times> 'o) \<times> 'w" where
  "preprocess k x w \<equiv> run_preprocessors (elems (mr_preprocessors r)) result_zero (merger k x) w"

abbreviation base :: "'o option \<Rightarrow> 'o" where
  "base l \<equiv> (case l of None \<Rightarrow> mr_zero r | Some x \<Rightarrow> x)"

definition fails :: "'o option \<Rightarrow> 'o option \<Rightarrow> 'w \<Rightarrow> bool" where
  "fails k l w \<longleftrightarrow> (\<exists>k'. k = Some k' \<and> fst (snd (fst (preprocess k' (base l) w))) \<noteq> None)"

lemma keeps_written:
  assumes "keeps_copy meta content (merger k x) y"
  shows "copy_of meta content k (written meta set_meta k y)" "copy_of meta content k (stamp meta set_meta k y)"
    and "om_resource_version (meta (written meta set_meta k y)) = om_resource_version (meta x)"
    and "generation_mark (meta (written meta set_meta k y)) = Some (om_resource_version (meta x))"
proof -
  have keep: "content y = content k" "meta_nsname (meta y) = meta_nsname (meta k)" "om_labels (meta y) = om_labels (meta k)"
    "om_resource_version (meta y) = om_resource_version (meta x)"
    using assms by (simp_all add: keeps_copy_def content_merge merge_labels merge_name merge_namespace merge_version meta_nsname_def)
  have "content (written meta set_meta k y) = content k" "content (stamp meta set_meta k y) = content k"
    using keep(1) by (simp_all add: written_def stamp_def content_set)
  then show "copy_of meta content k (written meta set_meta k y)" "copy_of meta content k (stamp meta set_meta k y)"
    using keep
    by (simp_all add: copy_of_def meta_written stamp_def meta_set meta_nsname_def UpdateLabels_def
        UpdateLastGenerationAnnotation_def UpdateLastRemoteGenerationAnnotation_def constants_distinct)
  show "om_resource_version (meta (written meta set_meta k y)) = om_resource_version (meta x)"
    using keep by (simp add: meta_written UpdateLabels_def UpdateLastGenerationAnnotation_def UpdateLastRemoteGenerationAnnotation_def)
  show "generation_mark (meta (written meta set_meta k y)) = Some (om_resource_version (meta x))"
    using keep written_marks(3) [of k y] by simp
qed

text \<open>What the server stores of a copy that was made from \<open>x\<close>.\<close>

definition stored_copy :: "'o \<Rightarrow> 'o \<Rightarrow> 'o \<Rightarrow> bool" where
  "stored_copy k x y \<longleftrightarrow>
     copy_of meta content k y \<and> generation_mark (meta y) = Some (om_resource_version (meta x)) \<and>
     om_resource_version (meta y) \<noteq> om_resource_version (meta x)"

lemma stored_copyI:
  assumes "keeps_copy meta content (merger k x) z" "accepted meta content (written meta set_meta k z) y"
    and "om_resource_version (meta y) \<noteq> om_resource_version (meta (written meta set_meta k z))"
  shows "stored_copy k x y"
  using keeps_written [OF assms(1)] assms(3) copy_of_accepted [OF keeps_written(1) [OF assms(1)] assms(2)] assms(2)
  by (simp add: stored_copy_def accepted_def)

lemma renewed:
  "kc_create c x w = (Inr y, w') \<Longrightarrow> om_resource_version (meta y) \<noteq> om_resource_version (meta x)"
  "kc_update c x w = (Inr y, w') \<Longrightarrow> om_resource_version (meta y) \<noteq> om_resource_version (meta x)"
  using server(3) unfolding renews_def by blast+

lemma stored_copy_marked: "stored_copy k x y \<Longrightarrow> meta_nsname (meta k) = n \<Longrightarrow> marked meta n y"
  using copy_of_managed [of meta content k y] by (auto simp: marked_def stored_copy_def copy_of_def)

text \<open>
  The ways in which a reconcile can end that has read \<open>k\<close> and \<open>l\<close> and finds \<open>view w n\<close> on
  the server.
\<close>

definition ends_nothing :: "nsname \<Rightarrow> 'o option \<Rightarrow> 'o option \<Rightarrow> 'w \<Rightarrow> 'w \<Rightarrow> bool" where
  "ends_nothing n k l w w' \<longleftrightarrow>
     view w' = view w \<and>
     ((k = None \<and> (l = None \<or> view w n = None)) \<or>
      (\<exists>k' x. k = Some k' \<and> l = Some x \<and> copy_of meta content k' x))"

definition ends_retry :: "nsname \<Rightarrow> 'o option \<Rightarrow> 'o option \<Rightarrow> 'w \<Rightarrow> bool" where
  "ends_retry n k l w \<longleftrightarrow>
     (l = None \<and> view w n \<noteq> None) \<or>
     (\<exists>x. l = Some x \<and> (\<forall>y. view w n = Some y \<longrightarrow> om_resource_version (meta y) \<noteq> om_resource_version (meta x)))"

definition ends_written :: "nsname \<Rightarrow> 'o option \<Rightarrow> 'o option \<Rightarrow> 'w \<Rightarrow> 'w \<Rightarrow> bool" where
  "ends_written n k l w w' \<longleftrightarrow>
     (\<exists>k' y. k = Some k' \<and> view w' = (view w)(n \<mapsto> y) \<and>
        ((l = None \<and> view w n = None \<and> stored_copy k' (mr_zero r) y) \<or>
         (\<exists>x z. l = Some x \<and> view w n = Some z \<and> om_resource_version (meta z) = om_resource_version (meta x) \<and>
            stored_copy k' x y)))"

definition ends_deleted :: "nsname \<Rightarrow> 'o option \<Rightarrow> 'o option \<Rightarrow> 'w \<Rightarrow> 'w \<Rightarrow> bool" where
  "ends_deleted n k l w w' \<longleftrightarrow> k = None \<and> l \<noteq> None \<and> view w n \<noteq> None \<and> view w' = (view w)(n := None)"

text \<open>A reconcile either changes nothing and asks to be called again, or it ends without an error.\<close>

definition tries_again :: "nsname \<Rightarrow> 'o option \<Rightarrow> 'o option \<Rightarrow> 'w \<Rightarrow> ctrl_result \<times> go_error option \<Rightarrow> 'w \<Rightarrow> bool" where
  "tries_again n k l w result w' \<longleftrightarrow>
     view w' = view w \<and> (snd result \<noteq> None \<or> requeue (fst result)) \<and> (ends_retry n k l w \<or> fails k l w)"

definition succeeds :: "nsname \<Rightarrow> 'o option \<Rightarrow> 'o option \<Rightarrow> 'w \<Rightarrow> ctrl_result \<times> go_error option \<Rightarrow> 'w \<Rightarrow> bool" where
  "succeeds n k l w result w' \<longleftrightarrow>
     snd result = None \<and> (mr_preprocessors r = None \<longrightarrow> fst result = result_zero) \<and>
     (ends_nothing n k l w w' \<or> ends_written n k l w w' \<or> ends_deleted n k l w w')"

lemma outcome_gone:
  assumes run: "Reconcile (snapshot_mirror r None (Some x)) n w = (result, w')" and name: "meta_nsname (meta x) = n"
  shows "succeeds n None (Some x) w result w'"
proof -
  let ?c = "c\<lparr>kc_get := \<lambda>n w. answer (Some x)\<rparr>"
  have "Reconcile (snapshot_mirror r None (Some x)) n w = mirror_write ?c False False True x result_zero w"
    by (rule Reconcile_remote_gone [OF snapshot_parts(1,2)]) (simp_all add: answer_def)
  then have run': "mirror_write ?c False False True x result_zero w = (result, w')" using run by simp
  show ?thesis
  proof (cases "view w n")
    case None
    then have "kc_delete c x w = (Some NotFound, w)" using refuses_simps(4) [OF server(2)] name by simp
    then show ?thesis using run' None by (auto simp: mirror_write_def ends_nothing_def succeeds_def)
  next
    case (Some z)
    then obtain w1 where "kc_delete c x w = (None, w1)" "view w1 = (view w)(n := None)"
      using serves_delete [OF server(1) _ name] by blast
    then show ?thesis using run' Some by (auto simp: mirror_write_def ends_deleted_def succeeds_def)
  qed
qed

text \<open>The preprocessors come first; when one fails, nothing is written.\<close>

definition changed :: "'o \<Rightarrow> 'o \<Rightarrow> 'o \<Rightarrow> bool" where
  "changed k x y \<longleftrightarrow>
     (om_resource_version (meta k) \<noteq> mget (om_annotations (meta x)) LastRemoteGenerationAnnotation \<and> remote_mark (meta x) \<noteq> None) \<or>
     x \<noteq> stamp meta set_meta k y"

lemma prepared:
  obtains (error) res e obj upd w1 where "fails (Some k) l w" "view w1 = view w"
      "mirror_prepare (snapshot_mirror r (Some k) l) k (base l) w = ((res, Some e, obj, upd), w1)"
  | (ready) res y w1 where "view w1 = view w" "keeps_copy meta content (merger k (base l)) y"
      "mr_preprocessors r = None \<longrightarrow> res = result_zero"
      "mirror_prepare (snapshot_mirror r (Some k) l) k (base l) w =
        ((res, None, written meta set_meta k y, changed k (base l) y), w1)"
proof -
  obtain res err y w1 where p: "preprocess k (base l) w = ((res, err, y), w1)" by (metis prod_cases3 surj_pair)
  note pre = preprocessed [OF p]
  show ?thesis
  proof (cases err)
    case (Some e)
    have failed: "fails (Some k) l w" using p Some by (simp add: fails_def)
    obtain obj upd where prep: "mirror_prepare (snapshot_mirror r (Some k) l) k (base l) w = ((res, Some e, obj, upd), w1)"
      using p Some by (simp add: mirror_prepare_def snapshot_parts Let_def)
    show ?thesis by (rule error [OF failed conjunct1 [OF pre] prep])
  next
    case None
    have plain: "mr_preprocessors r = None \<longrightarrow> res = result_zero" using p by auto
    have prep: "mirror_prepare (snapshot_mirror r (Some k) l) k (base l) w =
        ((res, None, written meta set_meta k y, changed k (base l) y), w1)"
      unfolding changed_def by (rule prepare_obj [OF snapshot_parts(3-5)]) (use p None in \<open>simp add: snapshot_parts\<close>)
    show ?thesis by (rule ready [OF conjunct1 [OF pre] conjunct2 [OF pre] plain prep])
  qed
qed

lemma outcome_create:
  assumes run: "Reconcile (snapshot_mirror r (Some k) None) n w = (result, w')" and name: "meta_nsname (meta k) = n"
  shows "tries_again n (Some k) None w result w' \<or> succeeds n (Some k) None w result w'"
proof (cases rule: prepared [where k = k and l = None and w = w])
  case (error res e obj upd w1)
  have "Reconcile (snapshot_mirror r (Some k) None) n w = ((res, Some e), w1)"
    using error(3) by (simp add: Reconcile_def snapshot_parts answer_def Let_def)
  then show ?thesis using run error(1,2) by (auto simp: tries_again_def)
next
  case (ready res y w1)
  let ?c = "c\<lparr>kc_get := \<lambda>n w. answer None\<rparr>" and ?x = "written meta set_meta k y"
  have keep: "keeps_copy meta content (merger k (mr_zero r)) y" using ready(2) by simp
  have "Reconcile (snapshot_mirror r (Some k) None) n w = mirror_write ?c True (changed k (base None) y) False ?x res w1"
    by (rule Reconcile_create [OF snapshot_parts(1,2)]) (use ready(4) in \<open>simp_all add: answer_def snapshot_parts\<close>)
  then have run': "mirror_write ?c True (changed k (base None) y) False ?x res w1 = (result, w')" using run by simp
  have x: "meta_nsname (meta ?x) = n" "om_resource_version (meta ?x) = []"
    using keeps_written [OF keep] name zero by (simp_all add: copy_of_def)
  show ?thesis
  proof (cases "view w1 n")
    case None
    then obtain z w2 where z: "kc_create c ?x w1 = (Inr z, w2)" "accepted meta content ?x z" "view w2 = (view w1)(n \<mapsto> z)"
      using serves_create [OF server(1) _ x] by blast
    have "stored_copy k (mr_zero r) z" by (rule stored_copyI [OF keep z(2) renewed(1) [OF z(1)]])
    moreover have "(res, None) = result" "w2 = w'" using run' z(1) by (simp_all add: mirror_write_def)
    moreover have "view w n = None" "view w2 = (view w)(n \<mapsto> z)" using None z(3) ready(1) by simp_all
    ultimately have "ends_written n (Some k) None w w'" by (auto simp: ends_written_def)
    then show ?thesis using \<open>(res, None) = result\<close> ready(3) by (auto simp: succeeds_def)
  next
    case (Some z)
    then have "kc_create c ?x w1 = (Inl AlreadyExists, w1)" using refuses_simps(1) [OF server(2)] x by simp
    then show ?thesis using run' Some ready(1) by (auto simp: mirror_write_def ends_retry_def tries_again_def)
  qed
qed

lemma outcome_update:
  assumes run: "Reconcile (snapshot_mirror r (Some k) (Some x)) n w = (result, w')"
    and name: "meta_nsname (meta k) = n" and label: "HasEdgeSyncLabel (meta k) (Some envs)"
  shows "tries_again n (Some k) (Some x) w result w' \<or> succeeds n (Some k) (Some x) w result w'"
proof (cases rule: prepared [where k = k and l = "Some x" and w = w])
  case (error res e obj upd w1)
  have "Reconcile (snapshot_mirror r (Some k) (Some x)) n w = ((res, Some e), w1)"
    using error(3) label by (simp add: Reconcile_def snapshot_parts answer_def Let_def)
  then show ?thesis using run error(1,2) by (auto simp: tries_again_def)
next
  case (ready res y w1)
  let ?c = "c\<lparr>kc_get := \<lambda>n w. answer (Some x)\<rparr>" and ?x = "written meta set_meta k y"
  have keep: "keeps_copy meta content (merger k x) y" using ready(2) by simp
  have "Reconcile (snapshot_mirror r (Some k) (Some x)) n w = mirror_write ?c False (changed k x y) False ?x res w1"
    by (rule Reconcile_update [OF snapshot_parts(1,2)]) (use ready(4) in \<open>simp_all add: answer_def snapshot_parts label\<close>)
  then have run': "mirror_write ?c False (changed k x y) False ?x res w1 = (result, w')" using run by simp
  have v: "meta_nsname (meta ?x) = n" "om_resource_version (meta ?x) = om_resource_version (meta x)"
    using keeps_written [OF keep] name by (simp_all add: copy_of_def)
  consider (same) "\<not> changed k x y" | (missing) "changed k x y" "view w1 n = None"
    | (stale) z where "changed k x y" "view w1 n = Some z" "om_resource_version (meta z) \<noteq> om_resource_version (meta x)"
    | (fresh) z where "changed k x y" "view w1 n = Some z" "om_resource_version (meta x) = om_resource_version (meta z)"
    by (cases "view w1 n") fastforce+
  then show ?thesis
  proof cases
    case same
    then have "copy_of meta content k x" unfolding changed_def using keeps_written(2) [OF keep] by metis
    then show ?thesis using run' same ready(1,3) by (auto simp: ends_nothing_def succeeds_def)
  next
    case missing
    then have "kc_update c ?x w1 = (Inl NotFound, w1)" using refuses_simps(2) [OF server(2)] v by simp
    then show ?thesis using run' missing ready(1) by (auto simp: mirror_write_def ends_retry_def tries_again_def)
  next
    case stale
    then have "kc_update c ?x w1 = (Inl Conflict, w1)" using refuses_simps(3) [OF server(2), of w1 ?x z] v by simp
    then show ?thesis using run' stale ready(1) by (auto simp: mirror_write_def ends_retry_def tries_again_def)
  next
    case fresh
    obtain z' w2 where z': "kc_update c ?x w1 = (Inr z', w2)" "accepted meta content ?x z'" "view w2 = (view w1)(n \<mapsto> z')"
      using serves_update [OF server(1) fresh(2) v(1)] v(2) fresh(3) by metis
    have "stored_copy k x z'" by (rule stored_copyI [OF keep z'(2) renewed(2) [OF z'(1)]])
    then show ?thesis
      using run' fresh z' ready(1,3) by (auto simp: mirror_write_def ends_written_def succeeds_def)
  qed
qed

text \<open>All together.\<close>

lemma outcome:
  assumes run: "Reconcile (snapshot_mirror r k l) n w = (result, w')"
    and k: "\<And>x. k = Some x \<Longrightarrow> remote_fits meta envs n x" and l: "\<And>x. l = Some x \<Longrightarrow> meta_nsname (meta x) = n"
  shows "tries_again n k l w result w' \<or> succeeds n k l w result w'"
proof (cases k)
  case None
  show ?thesis
  proof (cases l)
    case None
    have "Reconcile (snapshot_mirror r k l) n w = ((result_zero, None), w)"
      by (rule Reconcile_both_missing [OF snapshot_parts(1,2)]) (simp_all add: answer_def None \<open>k = None\<close>)
    then show ?thesis using run None \<open>k = None\<close> by (auto simp: ends_nothing_def succeeds_def)
  next
    case (Some x)
    then show ?thesis using outcome_gone [of x n w result w'] run l \<open>k = None\<close> by auto
  qed
next
  case (Some x)
  then have "meta_nsname (meta x) = n" "HasEdgeSyncLabel (meta x) (Some envs)"
    using k remote_label by (auto simp: remote_fits_def)
  then show ?thesis
    using outcome_create [of x n w result w'] outcome_update [of x _ n w result w'] run Some by (cases l) auto
qed

subsection \<open>Which requests the events make\<close>

lemma delta_requests:
  assumes "\<And>x. a = Some x \<Longrightarrow> marked meta n x" "\<And>y. b = Some y \<Longrightarrow> marked meta n y" "linked meta content remote a b"
  shows "\<exists>e. processDeltas wrap a b = [e] \<and>
    deliver ws LocalKind e = Done (if quiet meta a b then [] else [n])"
proof (cases b)
  case None
  then obtain x where x: "a = Some x" using assms(3) by (auto simp: linked_def)
  then have "IsManagedObject (kobj_meta (wrap x))" "meta_nsname (meta x) = n"
    using assms(1) by (auto simp: marked_def wrapped)
  then show ?thesis
    using deleted_copy_seen [of "wrap x"] None x by (simp add: watches mirror_watches_def wrapped)
next
  case (Some y)
  have y: "IsManagedObject (meta y)" "meta_nsname (meta y) = n" "generation_mark (meta y) \<noteq> None"
    using assms(2) [OF Some] by (auto simp: marked_def split: option.splits)
  show ?thesis
  proof (cases a)
    case None
    have "om_annotations (meta y) \<noteq> None" using y(3) by (cases "om_annotations (meta y)") simp_all
    moreover have "mget (om_annotations (meta y)) LastGenerationAnnotation \<noteq> ''0''"
      using assms(3) None Some by (auto simp: linked_def)
    ultimately show ?thesis
      using None Some y by (auto simp: watches mirror_watches_def deliver_local managed_filter_def wrapped request_for_def)
  next
    case (Some x)
    obtain mark where "generation_mark (meta y) = Some mark" using y(3) by blast
    then show ?thesis
      using local_update_requests [of "wrap y" mark _ "wrap x"] y Some \<open>b = Some y\<close>
      by (auto simp: watches mirror_watches_def wrapped quiet_def)
  qed
qed

lemma cloud_requests:
  assumes "\<And>k. a = Some k \<Longrightarrow> remote_fits meta envs n k" "\<And>k. b = Some k \<Longrightarrow> remote_fits meta envs n k"
    and "a \<noteq> None \<or> b \<noteq> None"
    and "\<And>k k'. a = Some k \<Longrightarrow> b = Some k' \<Longrightarrow> om_resource_version (meta k') \<noteq> om_resource_version (meta k)"
  shows "\<exists>e. processDeltas wrap a b = [e] \<and> deliver ws RemoteKind e = Done [n]"
  using assms
  by (cases a; cases b)
    (auto simp: watches mirror_watches_def deliver_remote env_filter_def wrapped remote_fits_def request_for_def)

subsection \<open>The invariant\<close>

definition remotes_fit :: "('o, 'w) system \<Rightarrow> bool" where
  "remotes_fit s \<longleftrightarrow> (\<forall>n k. sy_remote s n = Some k \<longrightarrow> remote_fits meta envs n k)"

definition chains_ok :: "('o, 'w) system \<Rightarrow> bool" where
  "chains_ok s \<longleftrightarrow>
     (\<forall>n. chain_ok meta content (sy_remote s n) n (chain s n) \<and> last (chain s n) = view (sy_server s) n)"

definition synced :: "('o, 'w) system \<Rightarrow> nsname \<Rightarrow> bool" where
  "synced s n \<longleftrightarrow> implements meta content (sy_remote s n) (view (sy_server s) n)"

definition covered :: "('o, 'w) system \<Rightarrow> bool" where
  "covered s \<longleftrightarrow> (\<forall>n. alerted meta ws s n \<or> n \<in> busy_with (sy_worker s) \<or> synced s n)"

definition knows_remote :: "('o, 'w) system \<Rightarrow> nsname \<Rightarrow> 'o option \<Rightarrow> bool" where
  "knows_remote s n k \<longleftrightarrow>
     (\<forall>x. k = Some x \<longrightarrow> remote_fits meta envs n x) \<and>
     (k = sy_remote s n \<or> (alerted meta ws s n \<and> unmarked meta (sy_remote s n) (chain s n)))"

definition knows_local :: "('o, 'w) system \<Rightarrow> nsname \<Rightarrow> 'o option \<Rightarrow> bool" where
  "knows_local s n l \<longleftrightarrow>
     (\<forall>x. l = Some x \<longrightarrow> meta_nsname (meta x) = n) \<and>
     (alerted meta ws s n \<or>
      (\<exists>xs. chain_ok meta content (sy_remote s n) n (xs @ [sy_cache s n]) \<and>
         quiet_chain meta (xs @ [sy_cache s n]) \<and> hd (xs @ [sy_cache s n]) = l))"

fun worker_ok :: "('o, 'w) system \<Rightarrow> 'o worker \<Rightarrow> bool" where
  "worker_ok s Idle = True"
| "worker_ok s (Started n) = True"
| "worker_ok s (HasRemote n k) = knows_remote s n k"
| "worker_ok s (HasBoth n k l) = (knows_remote s n k \<and> knows_local s n l)"

definition queue_ok :: "('o, 'w) system \<Rightarrow> bool" where
  "queue_ok s \<longleftrightarrow>
     wq_wf (sy_queue s) \<and> \<not> wq_shutting_down (sy_queue s) \<and> wq_processing (sy_queue s) = busy_with (sy_worker s) \<and>
     (\<forall>p \<in> set (sy_notes s). \<exists>reqs. deliver ws (fst p) (snd p) = Done reqs)"

definition system_ok :: "('o, 'w) system \<Rightarrow> bool" where
  "system_ok s \<longleftrightarrow> remotes_fit s \<and> chains_ok s \<and> covered s \<and> worker_ok s (sy_worker s) \<and> queue_ok s"

lemma chains_okD:
  assumes "chains_ok s"
  shows "chain_ok meta content (sy_remote s n) n (chain s n)" "last (chain s n) = view (sy_server s) n"
    and "view (sy_server s) n \<in> set (chain s n)" "Some x \<in> set (chain s n) \<Longrightarrow> marked meta n x"
    and "sy_cache s n = Some x \<Longrightarrow> marked meta n x"
proof -
  show *: "chain_ok meta content (sy_remote s n) n (chain s n)" "last (chain s n) = view (sy_server s) n"
    using assms by (simp_all add: chains_ok_def)
  show "view (sy_server s) n \<in> set (chain s n)" unfolding *(2) [symmetric] by (rule last_in_set) simp
  show "Some x \<in> set (chain s n) \<Longrightarrow> marked meta n x" using *(1) by (simp add: chain_ok_def)
  show "sy_cache s n = Some x \<Longrightarrow> marked meta n x" using *(1) by (simp add: chain_ok_def chain_def)
qed

text \<open>What the worker knows stays true as long as alerts stay and its name is left alone.\<close>

lemma worker_ok_frame:
  assumes "worker_ok s u" and alert: "\<And>n. alerted meta ws s n \<Longrightarrow> alerted meta ws t n"
    and same: "\<And>n. n \<in> busy_with u \<Longrightarrow> sy_remote t n = sy_remote s n \<and> chain t n = chain s n \<and> sy_cache t n = sy_cache s n"
  shows "worker_ok t u"
  using assms by (cases u) (auto simp: knows_remote_def knows_local_def)

lemma alerted_queue:
  assumes "n \<in> wq_dirty (sy_queue t) \<or> n \<in> set (wq_waiting (sy_queue t))"
  shows "alerted meta ws t n"
  using assms by (auto simp: alerted_def)

lemma local_delta_ok:
  assumes ok: "system_ok s" and stream: "sy_stream s = (m, v) # rest"
    and t: "t = s\<lparr>sy_cache := (sy_cache s)(m := v), sy_stream := rest,
      sy_notes := sy_notes s @ map (Pair LocalKind) (processDeltas wrap (sy_cache s m) v)\<rparr>"
  shows "system_ok t"
proof -
  let ?a = "sy_cache s m"
  have ch: "chain s n = (if n = m then ?a # chain t m else chain t n)" for n
    using chain_delta [OF stream, of n] by (simp add: t chain_def)
  obtain vs where hd: "chain t m = v # vs" by (simp add: t chain_def)
  have cs: "chains_ok s" using ok by (simp add: system_ok_def)
  have m: "chain_ok meta content (sy_remote s m) m (?a # v # vs)"
    using chains_okD(1) [OF cs, of m] ch [of m] hd by simp
  then have link: "linked meta content (sy_remote s m) ?a v" and tail: "chain_ok meta content (sy_remote s m) m (chain t m)"
    using hd by (simp_all add: chain_ok_Cons)
  obtain e where e: "processDeltas wrap ?a v = [e]"
      "deliver ws LocalKind e = Done (if quiet meta ?a v then [] else [m])"
    using delta_requests [OF _ _ link, of m] m by (auto simp: chain_ok_def)
  have alert: "alerted meta ws t n" if "alerted meta ws s n" for n
  proof -
    have "(\<not> quiet meta ?a v \<longrightarrow> (\<exists>p \<in> set (sy_notes t). m \<in> set (requests ws (fst p) (snd p))))"
      using e by (simp add: t requests_def)
    moreover have "quiet_chain meta (chain s m) \<longleftrightarrow> quiet meta ?a v \<and> quiet_chain meta (chain t m)"
      using ch [of m] hd by simp
    ultimately show ?thesis using that ch [of n] by (auto simp: alerted_def t split: if_splits)
  qed
  have "chains_ok t"
    unfolding chains_ok_def
  proof (intro allI conjI)
    fix n
    show "chain_ok meta content (sy_remote t n) n (chain t n)"
      using tail chains_okD(1) [OF cs, of n] ch [of n] by (cases "n = m") (simp_all add: t)
    show "last (chain t n) = view (sy_server t) n"
      using chains_okD(2) [OF cs, of n] ch [of n] by (cases "n = m") (simp_all add: t)
  qed
  moreover have "worker_ok t (sy_worker t)"
  proof (cases "m \<in> busy_with (sy_worker s) \<and> \<not> alerted meta ws t m")
    case False
    have subset: "set (chain t n) \<subseteq> set (chain s n)" for n using ch [of n] by auto
    then have "unmarked meta rm (chain s n) \<Longrightarrow> unmarked meta rm (chain t n)" for n rm
      by (force simp: unmarked_def)
    then show ?thesis
      using ok alert False by (cases "sy_worker s") (auto simp: system_ok_def knows_remote_def knows_local_def t)
  next
    case True
    then have n: "\<not> alerted meta ws s m" using alert by blast
    then have q: "quiet meta ?a v" using True e by (auto simp: alerted_def requests_def t split: if_splits)
    have ext: "chain_ok meta content (sy_remote s m) m ((xs @ [?a]) @ [v]) \<and> quiet_chain meta ((xs @ [?a]) @ [v]) \<and>
        hd ((xs @ [?a]) @ [v]) = l"
      if "chain_ok meta content (sy_remote s m) m (xs @ [?a])" "quiet_chain meta (xs @ [?a])" "hd (xs @ [?a]) = l" for xs l
      using that link q m
      by (simp add: chain_ok_snoc quiet_chain_snoc del: append_assoc) (auto simp: chain_ok_Cons chain_ok_def hd_append)
    have "knows_local t m l" if l: "knows_local s m l" for l
    proof -
      obtain xs where xs: "chain_ok meta content (sy_remote s m) m (xs @ [?a])" "quiet_chain meta (xs @ [?a])" "hd (xs @ [?a]) = l"
        using l n by (auto simp: knows_local_def)
      have "\<exists>ys. chain_ok meta content (sy_remote t m) m (ys @ [sy_cache t m]) \<and> quiet_chain meta (ys @ [sy_cache t m]) \<and>
          hd (ys @ [sy_cache t m]) = l"
        using ext [OF xs] by (intro exI [of _ "xs @ [?a]"]) (simp add: t)
      then show ?thesis using l by (auto simp: knows_local_def)
    qed
    then show ?thesis
      using ok n True by (cases "sy_worker s") (auto simp: system_ok_def knows_remote_def t)
  qed
  moreover have "covered t" "remotes_fit t" "queue_ok t"
    using ok alert e by (auto simp: system_ok_def covered_def synced_def remotes_fit_def queue_ok_def t)
  ultimately show ?thesis by (simp add: system_ok_def)
qed

text \<open>The steps of the queue and of the worker leave the clusters and the caches alone.\<close>

lemma quiet_step_ok:
  assumes "system_ok s" and alert: "\<And>n. alerted meta ws s n \<Longrightarrow> alerted meta ws t n \<or> n \<in> busy_with (sy_worker t)"
    and same: "sy_server t = sy_server s" "sy_remote t = sy_remote s" "sy_cache t = sy_cache s" "sy_stream t = sy_stream s"
    and busy: "busy_with (sy_worker s) \<subseteq> busy_with (sy_worker t)"
    and u: "worker_ok t (sy_worker t)" and q: "queue_ok t"
  shows "system_ok t"
proof -
  have ch: "chain t n = chain s n" for n using same by (simp add: chain_def)
  have "covered t"
    using assms(1) alert busy same unfolding system_ok_def covered_def synced_def by (metis subsetD)
  then show ?thesis
    using assms(1) u q same ch by (simp add: system_ok_def remotes_fit_def chains_ok_def)
qed

lemma handle_note_ok:
  assumes ok: "system_ok s" and nts: "sy_notes s = (src, e) # rest" "deliver ws src e = Done reqs"
    and t: "t = s\<lparr>sy_notes := rest, sy_queue := wq_add_all reqs (sy_queue s)\<rparr>"
  shows "system_ok t"
proof -
  have ch: "chain t n = chain s n" for n by (simp add: t chain_def)
  have run: "\<not> wq_shutting_down (sy_queue s)" using ok by (simp add: system_ok_def queue_ok_def)
  have alert: "alerted meta ws t n" if "alerted meta ws s n" for n
    using that nts run unfolding alerted_def ch by (auto simp: t requests_def)
  show ?thesis
  proof (rule quiet_step_ok [OF ok])
    show "worker_ok t (sy_worker t)"
      using ok worker_ok_frame [OF _ alert, of s] ch by (auto simp: system_ok_def t)
    show "queue_ok t" using ok nts by (simp add: system_ok_def queue_ok_def t wf_add_all)
  qed (use alert in \<open>simp_all add: t\<close>)
qed

lemma request_ready_ok:
  assumes ok: "system_ok s" and n: "m \<in> set (wq_waiting (sy_queue s))" and t: "t = s\<lparr>sy_queue := wq_ready m (sy_queue s)\<rparr>"
  shows "system_ok t"
proof -
  have ch: "chain t n = chain s n" for n by (simp add: t chain_def)
  have run: "\<not> wq_shutting_down (sy_queue s)" using ok by (simp add: system_ok_def queue_ok_def)
  have alert: "alerted meta ws t n" if "alerted meta ws s n" for n
    using that run unfolding alerted_def ch by (auto simp: t in_set_remove1)
  show ?thesis
  proof (rule quiet_step_ok [OF ok])
    show "worker_ok t (sy_worker t)"
      using ok worker_ok_frame [OF _ alert, of s] ch by (auto simp: system_ok_def t)
    show "queue_ok t" using ok by (simp add: system_ok_def queue_ok_def t wf_ready)
  qed (use alert in \<open>simp_all add: t\<close>)
qed

lemma take_request_ok:
  assumes ok: "system_ok s" and idle: "sy_worker s = Idle" and get: "wq_Get (sy_queue s) = Some (Some m, q)"
    and t: "t = s\<lparr>sy_queue := q, sy_worker := Started m\<rparr>"
  shows "system_ok t"
proof (rule quiet_step_ok [OF ok])
  have ch: "chain t n = chain s n" for n by (simp add: t chain_def)
  show "alerted meta ws t n \<or> n \<in> busy_with (sy_worker t)" if "alerted meta ws s n" for n
    using that Get_effect [OF get] unfolding alerted_def ch by (auto simp: t)
  show "queue_ok t"
    using ok wf_Get [OF _ get] Get_effect [OF get] idle by (simp add: system_ok_def queue_ok_def t)
qed (simp_all add: t idle)

lemma read_remote_ok:
  assumes ok: "system_ok s" and u: "sy_worker s = Started m" and t: "t = s\<lparr>sy_worker := HasRemote m (sy_remote s m)\<rparr>"
  shows "system_ok t"
proof (rule quiet_step_ok [OF ok])
  have ch: "chain t n = chain s n" for n by (simp add: t chain_def)
  show "alerted meta ws t n \<or> n \<in> busy_with (sy_worker t)" if "alerted meta ws s n" for n
    using that unfolding alerted_def ch by (auto simp: t)
  show "worker_ok t (sy_worker t)" using ok by (simp add: t knows_remote_def system_ok_def remotes_fit_def)
  show "queue_ok t" using ok u by (simp add: system_ok_def queue_ok_def t)
qed (simp_all add: t u)

lemma read_local_ok:
  assumes ok: "system_ok s" and u: "sy_worker s = HasRemote m k" and t: "t = s\<lparr>sy_worker := HasBoth m k (sy_cache s m)\<rparr>"
  shows "system_ok t"
proof (rule quiet_step_ok [OF ok])
  have ch: "chain t n = chain s n" for n by (simp add: t chain_def)
  show alert: "alerted meta ws t n \<or> n \<in> busy_with (sy_worker t)" if "alerted meta ws s n" for n
    using that unfolding alerted_def ch by (auto simp: t)
  have cs: "chains_ok s" using ok by (simp add: system_ok_def)
  have "knows_remote s m k" using ok u by (simp add: system_ok_def)
  then have k: "knows_remote t m k" unfolding knows_remote_def alerted_def ch by (simp add: t)
  have "\<exists>xs. chain_ok meta content (sy_remote t m) m (xs @ [sy_cache t m]) \<and> quiet_chain meta (xs @ [sy_cache t m]) \<and>
      hd (xs @ [sy_cache t m]) = sy_cache s m"
    using chains_okD(5) [OF cs, of m] by (intro exI [of _ "[]"]) (simp add: t chain_ok_single)
  moreover have "\<forall>x. sy_cache s m = Some x \<longrightarrow> meta_nsname (meta x) = m"
    using chains_okD(5) [OF cs, of m] by (simp add: marked_def)
  ultimately show "worker_ok t (sy_worker t)" using k by (simp add: t knows_local_def)
  show "queue_ok t" using ok u by (simp add: system_ok_def queue_ok_def t)
qed (simp_all add: t u)

lemma cloud_ok:
  assumes ok: "system_ok s" and c: "cloud_change meta envs s m v"
    and t: "t = s\<lparr>sy_remote := (sy_remote s)(m := v),
      sy_notes := sy_notes s @ map (Pair RemoteKind) (processDeltas wrap (sy_remote s m) v)\<rparr>"
  shows "system_ok t"
proof -
  have ch: "chain t n = chain s n" for n by (simp add: t chain_def)
  have fit: "\<And>k. sy_remote s n = Some k \<Longrightarrow> remote_fits meta envs n k" for n
    using ok by (simp add: system_ok_def remotes_fit_def)
  obtain e where e: "processDeltas wrap (sy_remote s m) v = [e]" "deliver ws RemoteKind e = Done [m]"
    using cloud_requests [of "sy_remote s m" m v] fit c by (auto simp: cloud_change_def)
  have mono: "alerted meta ws t n" if "alerted meta ws s n" for n
    using that unfolding alerted_def ch by (auto simp: t)
  have new: "alerted meta ws t m" using e by (auto simp: alerted_def t requests_def)
  have un: "unmarked meta v (chain s m)" using c by (simp add: cloud_change_def)
  have cs: "chains_ok s" using ok by (simp add: system_ok_def)
  have "chain_ok meta content (sy_remote t n) n (chain t n)" for n
    using chain_ok_remote [OF chains_okD(1) [OF cs, of m] un] chains_okD(1) [OF cs, of n] ch by (simp add: t)
  then have "chains_ok t" using chains_okD(2) [OF cs] ch by (simp add: chains_ok_def) (simp add: t)
  moreover have "worker_ok t (sy_worker t)"
  proof -
    have "knows_remote t n k" if "knows_remote s n k" for n k
      using that mono new un unfolding knows_remote_def ch by (auto simp: t)
    moreover have "knows_local t n l" if l: "knows_local s n l" for n l
    proof (cases "n = m")
      case False
      then have "sy_remote t n = sy_remote s n" "sy_cache t n = sy_cache s n" by (simp_all add: t)
      then show ?thesis using l mono by (auto simp: knows_local_def)
    qed (use l new in \<open>simp add: knows_local_def\<close>)
    ultimately show ?thesis using ok by (cases "sy_worker s") (auto simp: system_ok_def t)
  qed
  moreover have "covered t"
    unfolding covered_def
  proof
    fix n
    show "alerted meta ws t n \<or> n \<in> busy_with (sy_worker t) \<or> synced t n"
    proof (cases "n = m")
      case False
      then have "synced t n = synced s n" by (simp add: synced_def t)
      then show ?thesis using ok mono [of n] by (auto simp: system_ok_def covered_def t)
    qed (simp add: new)
  qed
  moreover have "remotes_fit t" using fit c by (auto simp: remotes_fit_def t cloud_change_def)
  moreover have "queue_ok t" using ok e by (auto simp: system_ok_def queue_ok_def t)
  ultimately show ?thesis by (simp add: system_ok_def)
qed

lemma foreign_ok:
  assumes ok: "system_ok s" and y: "view (sy_server s) m = Some y" and f: "foreign_change meta m y v"
    and w: "view w = (view (sy_server s))(m := v)"
    and t: "t = s\<lparr>sy_server := w, sy_stream := sy_stream s @ [(m, v)]\<rparr>"
  shows "system_ok t"
proof -
  have ch: "chain t n = (if n = m then chain s n @ [v] else chain s n)" for n by (simp add: t chain_def)
  have cs: "chains_ok s" using ok by (simp add: system_ok_def)
  have my: "marked meta m y" using chains_okD(3) [OF cs, of m] chains_okD(4) [OF cs] y by simp
  have loud: "\<not> quiet meta (Some y) v" using my f
    by (auto simp: quiet_def marked_def foreign_change_def split: option.splits)
  have last: "last (chain s m) = Some y" using chains_okD(2) [OF cs] y by simp
  have new: "alerted meta ws t m" using loud last ch [of m] by (simp add: alerted_def quiet_chain_snoc)
  have mono: "alerted meta ws t n" if "alerted meta ws s n" for n
    using that new ch [of n] by (cases "n = m") (auto simp: alerted_def t)
  have link: "linked meta content rm (Some y) v" for rm using loud by (simp add: linked_def)
  have mv: "marked meta m z" if "v = Some z" for z
    using that f my by (auto simp: marked_def foreign_change_def split: option.splits)
  have "chains_ok t"
    unfolding chains_ok_def
    using chains_okD(1,2) [OF cs] ch mv last link w by (auto simp: t chain_ok_snoc)
  moreover have "worker_ok t (sy_worker t)"
  proof -
    have "unmarked meta rm (chain t n)" if "unmarked meta rm (chain s n)" for rm n
    proof (cases "n = m")
      case True
      have "Some y \<in> set (chain s m)" using chains_okD(3) [OF cs, of m] y by simp
      then show ?thesis
        using that f ch [of n] True by (force simp: unmarked_def foreign_change_def split: option.splits)
    qed (use that ch [of n] in simp)
    then have "knows_remote t n k" if "knows_remote s n k" for n k
      using that mono by (auto simp: knows_remote_def t)
    moreover have "knows_local t n l" if "knows_local s n l" for n l
      using that mono by (auto simp: knows_local_def t)
    ultimately show ?thesis using ok by (cases "sy_worker s") (auto simp: system_ok_def t)
  qed
  moreover have "covered t"
    unfolding covered_def
  proof
    fix n
    show "alerted meta ws t n \<or> n \<in> busy_with (sy_worker t) \<or> synced t n"
    proof (cases "n = m")
      case False
      then have "synced t n = synced s n" by (simp add: synced_def t w)
      then show ?thesis using ok mono [of n] by (auto simp: system_ok_def covered_def t)
    qed (simp add: new)
  qed
  moreover have "remotes_fit t" "queue_ok t" using ok by (simp_all add: system_ok_def remotes_fit_def queue_ok_def t)
  ultimately show ?thesis by (simp add: system_ok_def)
qed

subsection \<open>The write at the end of a request\<close>

text \<open>What was read last is linked to the server by a quiet chain, unless the name is alerted.\<close>

lemma whole_chain:
  assumes cs: "chains_ok s" and l: "knows_local s n l" and calm: "\<not> alerted meta ws s n"
  obtains xs where "chain_ok meta content (sy_remote s n) n (l # xs)" "quiet_chain meta (l # xs)"
    "last (l # xs) = view (sy_server s) n"
proof -
  obtain xs where xs: "chain_ok meta content (sy_remote s n) n (xs @ [sy_cache s n])"
      "quiet_chain meta (xs @ [sy_cache s n])" "hd (xs @ [sy_cache s n]) = l"
    using l calm by (auto simp: knows_local_def)
  obtain ys where ys: "chain s n = sy_cache s n # ys" by (simp add: chain_def)
  have "chain_ok meta content (sy_remote s n) n (xs @ chain s n)"
    using chain_ok_join [OF xs(1)] chains_okD(1) [OF cs, of n] ys by simp
  moreover have "quiet_chain meta (xs @ chain s n)"
    using quiet_chain_join [OF xs(2)] calm ys by (simp add: alerted_def)
  moreover have "last (xs @ chain s n) = view (sy_server s) n" using chains_okD(2) [OF cs] by simp
  moreover have "xs @ chain s n = l # tl (xs @ chain s n)" using xs(3) ys by (cases xs) simp_all
  ultimately show ?thesis using that [of "tl (xs @ chain s n)"] by metis
qed

lemma nothing_synced:
  assumes cs: "chains_ok s" and k: "knows_remote s n k" and l: "knows_local s n l" and calm: "\<not> alerted meta ws s n"
    and e: "ends_nothing n k l (sy_server s) w"
  shows "synced s n"
proof -
  have rk: "k = sy_remote s n" using k calm by (simp add: knows_remote_def)
  obtain xs where xs: "chain_ok meta content (sy_remote s n) n (l # xs)" "quiet_chain meta (l # xs)"
      "last (l # xs) = view (sy_server s) n"
    by (rule whole_chain [OF cs l calm])
  consider (gone) "k = None" "l = None \<or> view (sy_server s) n = None"
    | (same) k' x where "k = Some k'" "l = Some x" "copy_of meta content k' x"
    using e by (auto simp: ends_nothing_def)
  then show ?thesis
  proof cases
    case gone
    then have "view (sy_server s) n = None" using xs by (auto simp: quiet_None_chain)
    then show ?thesis using gone rk by (simp add: synced_def implements_def)
  next
    case same
    then have "\<exists>y. last (l # xs) = Some y \<and> (y = x \<or> copy_of meta content k' y)"
      using quiet_chain_copies [of meta content k' n x xs] xs rk by (simp add: copy_of_def)
    then show ?thesis using same xs(3) rk by (auto simp: synced_def implements_def)
  qed
qed

text \<open>The link that a write adds to the chain.\<close>

lemma written_link:
  assumes cs: "chains_ok s" and k: "knows_remote s n k" and e: "ends_written n k l (sy_server s) w"
  obtains k' y where "k = Some k'" "view w = (view (sy_server s))(n \<mapsto> y)" "copy_of meta content k' y" "marked meta n y"
    "linked meta content (sy_remote s n) (view (sy_server s) n) (Some y)"
proof -
  obtain k' y where y: "k = Some k'" "view w = (view (sy_server s))(n \<mapsto> y)"
      and kind: "(l = None \<and> view (sy_server s) n = None \<and> stored_copy k' (mr_zero r) y) \<or>
         (\<exists>x z. l = Some x \<and> view (sy_server s) n = Some z \<and> om_resource_version (meta z) = om_resource_version (meta x) \<and>
            stored_copy k' x y)"
    using e unfolding ends_written_def by blast
  have name: "meta_nsname (meta k') = n" using k y(1) by (simp add: knows_remote_def remote_fits_def)
  have copy: "copy_of meta content k' y" using kind by (auto simp: stored_copy_def)
  have mk: "marked meta n y" using kind stored_copy_marked name by blast
  have "linked meta content (sy_remote s n) (view (sy_server s) n) (Some y)"
  proof (cases "view (sy_server s) n")
    case None
    then have "generation_mark (meta y) = Some []" using kind zero by (auto simp: stored_copy_def)
    then show ?thesis using None by (simp add: linked_def mget_def)
  next
    case (Some z)
    have z: "Some z \<in> set (chain s n)" using chains_okD(3) [OF cs, of n] Some by simp
    have "copy_of meta content kc y"
      if "sy_remote s n = Some kc" "remote_mark (meta z) = Some (om_resource_version (meta kc))" for kc
    proof -
      have "\<not> unmarked meta (sy_remote s n) (chain s n)" using that z by (auto simp: unmarked_def)
      then show ?thesis using k that(1) y(1) copy by (simp add: knows_remote_def)
    qed
    then show ?thesis using Some by (simp add: linked_def)
  qed
  then show ?thesis using that y copy mk by blast
qed

lemma finish_chain:
  assumes cs: "chains_ok s" and w: "\<And>n. n \<noteq> m \<Longrightarrow> view w n = view (sy_server s) n"
    and link: "view w m \<noteq> view (sy_server s) m \<Longrightarrow>
      linked meta content (sy_remote s m) (view (sy_server s) m) (view w m) \<and> (\<forall>y. view w m = Some y \<longrightarrow> marked meta m y)"
    and t: "sy_server t = w" "sy_remote t = sy_remote s" "sy_cache t = sy_cache s"
      "sy_stream t = sy_stream s @ changes view m (sy_server s) w"
  shows "chains_ok t"
    and "chain t n = (if n = m \<and> view w m \<noteq> view (sy_server s) m then chain s n @ [view w m] else chain s n)"
proof -
  show ch: "chain t n = (if n = m \<and> view w m \<noteq> view (sy_server s) m then chain s n @ [view w m] else chain s n)" for n
    using t by (simp add: chain_def changes_def)
  show "chains_ok t"
    unfolding chains_ok_def
  proof (intro allI conjI)
    fix n
    show "chain_ok meta content (sy_remote t n) n (chain t n)"
      using ch [of n] chains_okD(1,2) [OF cs, of n] link by (auto simp: t(2) chain_ok_snoc)
    show "last (chain t n) = view (sy_server t) n"
      using ch [of n] chains_okD(2) [OF cs, of n] w [of n] by (cases "n = m") (auto simp: t(1))
  qed
qed

lemma finish_ok:
  assumes ok: "system_ok s" and u: "sy_worker s = HasBoth m k l" and limit: "0 < limit"
    and run: "Reconcile (snapshot_mirror r k l) m (sy_server s) = (result, w)"
    and t: "t = s\<lparr>sy_server := w, sy_stream := sy_stream s @ changes view m (sy_server s) w,
      sy_queue := wq_Done m (reconcileHandler m limit result (sy_queue s)), sy_worker := Idle\<rparr>"
  shows "system_ok t"
proof -
  have cs: "chains_ok s" and k: "knows_remote s m k" and l: "knows_local s m l" and q: "queue_ok s"
    using ok u by (simp_all add: system_ok_def)
  have sh: "\<not> wq_shutting_down (sy_queue s)" and pr: "wq_processing (sy_queue s) = {m}"
    using q u by (simp_all add: queue_ok_def)
  note h = handler_effect [OF sh limit, of m result]
  have out: "tries_again m k l (sy_server s) result w \<or> succeeds m k l (sy_server s) result w"
    by (rule outcome [OF run]) (use k l in \<open>simp_all add: knows_remote_def knows_local_def\<close>)
  have frame: "view w n = view (sy_server s) n" if "n \<noteq> m" for n
    using out that by (auto simp: tries_again_def succeeds_def ends_nothing_def ends_written_def ends_deleted_def)
  have link: "linked meta content (sy_remote s m) (view (sy_server s) m) (view w m) \<and> (\<forall>y. view w m = Some y \<longrightarrow> marked meta m y)"
    if "view w m \<noteq> view (sy_server s) m"
  proof -
    have "view w \<noteq> view (sy_server s)" using that by auto
    then consider (written) "ends_written m k l (sy_server s) w" | (deleted) "ends_deleted m k l (sy_server s) w"
      using out by (auto simp: ends_nothing_def tries_again_def succeeds_def)
    then show ?thesis
    proof cases
      case written
      show ?thesis by (rule written_link [OF cs k written]) simp
    qed (auto simp: ends_deleted_def linked_def)
  qed
  note fc = finish_chain [OF cs frame link, of t]
  have ch: "chains_ok t"
    "chain t n = (if n = m \<and> view w m \<noteq> view (sy_server s) m then chain s n @ [view w m] else chain s n)" for n
    using fc by (simp_all add: t)
  have mono: "alerted meta ws t n" if "alerted meta ws s n" for n
    using that ch(2) [of n] h by (auto simp: alerted_def t quiet_chain_snoc)
  have done_m: "alerted meta ws t m \<or> synced t m"
  proof (cases "alerted meta ws s m")
    case False
    then have rk: "k = sy_remote s m" using k by (simp add: knows_remote_def)
    consider (retry) "snd result \<noteq> None \<or> requeue (fst result)" | (unwritten) "ends_nothing m k l (sy_server s) w"
      | (written) "ends_written m k l (sy_server s) w" | (deleted) "ends_deleted m k l (sy_server s) w"
      using out by (auto simp: tries_again_def succeeds_def)
    then show ?thesis
    proof cases
      case retry
      then have "m \<in> set (wq_waiting (sy_queue t))" using h by (auto simp: t)
      then show ?thesis by (simp add: alerted_def)
    next
      case unwritten
      then have "view w = view (sy_server s)" by (simp add: ends_nothing_def)
      then have "synced t m \<longleftrightarrow> synced s m" by (simp add: synced_def t)
      moreover have "synced s m" by (rule nothing_synced [OF cs k l False unwritten])
      ultimately show ?thesis by simp
    next
      case written
      show ?thesis
        by (rule written_link [OF cs k written]) (use rk in \<open>auto simp: synced_def t implements_def\<close>)
    next
      case deleted
      then show ?thesis using rk by (simp add: synced_def t implements_def ends_deleted_def)
    qed
  qed (use mono in blast)
  have "covered t"
    unfolding covered_def
  proof
    fix n
    show "alerted meta ws t n \<or> n \<in> busy_with (sy_worker t) \<or> synced t n"
    proof (cases "n = m")
      case False
      then have "synced t n = synced s n" using frame by (simp add: synced_def t)
      then show ?thesis using ok mono [of n] u False by (auto simp: system_ok_def covered_def)
    qed (use done_m in blast)
  qed
  moreover have "queue_ok t"
    using q pr u wf_Done [OF wf_handler, of "sy_queue s" m m limit result] h
    by (auto simp: queue_ok_def t)
  moreover have "remotes_fit t" using ok by (simp add: system_ok_def remotes_fit_def t)
  ultimately show ?thesis using ch(1) by (simp add: system_ok_def t)
qed

subsection \<open>Every reachable state\<close>

lemma controller_step_ok: "controller_step r view wrap ws s t \<Longrightarrow> system_ok s \<Longrightarrow> system_ok t"
  by (erule controller_stepE)
    (blast intro: local_delta_ok handle_note_ok request_ready_ok take_request_ok read_remote_ok read_local_ok finish_ok)+

lemma elsewhere_ok:
  assumes ok: "system_ok s" and w: "view w = view (sy_server s)" and es: "list_all (\<lambda>p. fst p = LocalConfigurations) es"
    and t: "t = s\<lparr>sy_server := w, sy_notes := sy_notes s @ es\<rparr>"
  shows "system_ok t"
proof -
  have ch: "chain t n = chain s n" for n by (simp add: t chain_def)
  have mono: "alerted meta ws t n" if "alerted meta ws s n" for n
    using that unfolding alerted_def ch by (auto simp: t)
  have "worker_ok t (sy_worker t)"
    using ok worker_ok_frame [OF _ mono, of s] ch by (auto simp: system_ok_def t)
  moreover have "queue_ok t"
    using ok es other_watches by (auto simp: system_ok_def queue_ok_def t list_all_iff)
  moreover have "covered t" using ok mono w by (auto simp: system_ok_def covered_def synced_def t)
  moreover have "chains_ok t"
    using ok w unfolding system_ok_def chains_ok_def ch by (simp add: t)
  ultimately show ?thesis using ok by (simp add: system_ok_def remotes_fit_def t)
qed

lemma environment_step_ok: "environment_step meta view wrap envs s t \<Longrightarrow> system_ok s \<Longrightarrow> system_ok t"
  by (erule environment_stepE) (blast intro: cloud_ok foreign_ok elsewhere_ok)+

lemma start_ok:
  assumes "starts meta view wrap envs s"
  shows "system_ok s"
proof -
  have s: "sy_worker s = Idle" "sy_queue s = newQueue" "sy_stream s = []" "sy_cache s = view (sy_server s)"
    and cached: "\<And>n x. sy_cache s n = Some x \<Longrightarrow> marked meta n x \<and> mget (om_annotations (meta x)) LastGenerationAnnotation \<noteq> ''0''"
    and fits: "\<And>n k. sy_remote s n = Some k \<Longrightarrow> remote_fits meta envs n k"
    and nts: "set (sy_notes s) = {(LocalKind, CreateEvent (Some (wrap x))) |n x. sy_cache s n = Some x} \<union>
       {(RemoteKind, CreateEvent (Some (wrap k))) |n k. sy_remote s n = Some k}"
    using assms unfolding starts_def by blast+
  have loc: "deliver ws LocalKind (CreateEvent (Some (wrap x))) = Done [n]" if "sy_cache s n = Some x" for n x
    using delta_requests [of None n "Some x" None] cached [OF that] by (simp add: linked_def)
  have rem: "deliver ws RemoteKind (CreateEvent (Some (wrap k))) = Done [n]" if "sy_remote s n = Some k" for n k
    using cloud_requests [of None n "Some k"] fits [OF that] by simp
  have ch: "chain s n = [sy_cache s n]" for n using s by (simp add: chain_def)
  have "chains_ok s" using cached s(4) by (simp add: chains_ok_def ch chain_ok_single)
  moreover have "covered s"
    unfolding covered_def
  proof
    fix n
    show "alerted meta ws s n \<or> n \<in> busy_with (sy_worker s) \<or> synced s n"
    proof (cases "sy_cache s n = None \<and> sy_remote s n = None")
      case True
      then show ?thesis using s by (simp add: synced_def implements_def)
    next
      case False
      then have "sy_cache s n \<noteq> None \<or> sy_remote s n \<noteq> None" by simp
      then have "\<exists>p \<in> set (sy_notes s). n \<in> set (requests ws (fst p) (snd p))"
      proof
        assume "sy_cache s n \<noteq> None"
        then obtain x where x: "sy_cache s n = Some x" by blast
        then have "(LocalKind, CreateEvent (Some (wrap x))) \<in> set (sy_notes s)" using nts by blast
        then show ?thesis using loc [OF x] by (intro bexI) (auto simp: requests_def)
      next
        assume "sy_remote s n \<noteq> None"
        then obtain k where k: "sy_remote s n = Some k" by blast
        then have "(RemoteKind, CreateEvent (Some (wrap k))) \<in> set (sy_notes s)" using nts by blast
        then show ?thesis using rem [OF k] by (intro bexI) (auto simp: requests_def)
      qed
      then show ?thesis by (simp add: alerted_def)
    qed
  qed
  moreover have "queue_ok s"
    using s nts loc rem by (auto simp: queue_ok_def wf_new) (auto simp: newQueue_def)
  ultimately show ?thesis using s fits by (simp add: system_ok_def remotes_fit_def)
qed

lemma reachable_ok:
  assumes "starts meta view wrap envs s" and "(system_step r view wrap ws envs)\<^sup>*\<^sup>* s t"
  shows "system_ok t"
  using assms(2)
proof (induction rule: rtranclp_induct)
  case base
  show ?case by (rule start_ok [OF assms(1)])
next
  case (step t t')
  then show ?case
    using controller_step_ok environment_step_ok by (auto simp: system_step_def parts(1))
qed

lemma at_rest_synced:
  assumes "system_ok s" "at_rest s"
  shows "implements meta content (sy_remote s n) (view (sy_server s) n)"
proof -
  have "\<not> alerted meta ws s n" using assms(2) by (simp add: alerted_def at_rest_def all_handled_def chain_def)
  then show ?thesis using assms by (auto simp: system_ok_def covered_def synced_def at_rest_def all_handled_def)
qed

text \<open>The two theorems over reachable states.\<close>

lemma ok_covered:
  assumes "system_ok t"
  shows "implements meta content (sy_remote t n) (view (sy_server t) n) \<or> n \<in> busy_with (sy_worker t) \<or> alerted meta ws t n"
  using assms by (auto simp: system_ok_def covered_def synced_def)

lemma reachable_covered:
  assumes "starts meta view wrap envs s" and "(system_step r view wrap ws envs)\<^sup>*\<^sup>* s t"
  shows "implements meta content (sy_remote t n) (view (sy_server t) n) \<or> n \<in> busy_with (sy_worker t) \<or> alerted meta ws t n"
  by (rule ok_covered [OF reachable_ok [OF assms]])

lemma reachable_rest:
  assumes "starts meta view wrap envs s" and "(system_step r view wrap ws envs)\<^sup>*\<^sup>* s t" and "at_rest t"
  shows "implements meta content (sy_remote t n) (view (sy_server t) n)"
  by (rule at_rest_synced [OF reachable_ok [OF assms(1,2)] assms(3)])

end

end
