(* ===== verification/MirrorDrain.thy ===== *)
theory MirrorDrain
  imports MirrorInvariant
begin

text \<open>
  A mirror whose preprocessors do not fail comes in sync: from every reachable state the
  controller's own steps lead to a state in which all that has happened is handled, and there
  every name is in sync; without preprocessors nothing at all is left to be done. One round
  takes a request when everything else has been handled; a round puts its name in sync, and a
  round on a name that is in sync does not request it again (or only later), so the rounds end.
  At the end the locale is interpreted on the three plain mirrors.
\<close>

section \<open>Draining\<close>

text \<open>The preprocessors do not fail.\<close>

locale steady_system = mirror_system meta set_meta merger content r c rc view wrap ws envs
  for meta :: "'o \<Rightarrow> object_meta" and set_meta :: "object_meta \<Rightarrow> 'o \<Rightarrow> 'o" and merger :: "'o \<Rightarrow> 'o \<Rightarrow> 'o"
    and content :: "'o \<Rightarrow> 'c" and r :: "('o, 'w) mirror" and c :: "('o, 'w) kclient" and rc :: "('o, 'w) kclient"
    and view :: "'w \<Rightarrow> nsname \<Rightarrow> 'o option" and wrap :: "'o \<Rightarrow> kobject" and ws :: "watch list" and envs :: "string list" +
  assumes unfailing: "run_preprocessors (elems (mr_preprocessors r)) result_zero x w = ((res, err, y), w') \<Longrightarrow> err = None"
begin

abbreviation steps :: "('o, 'w) system \<Rightarrow> ('o, 'w) system \<Rightarrow> bool" where
  "steps \<equiv> (controller_step r view wrap ws)\<^sup>*\<^sup>*"

lemma steps_ok: "steps s t \<Longrightarrow> system_ok s \<Longrightarrow> system_ok t"
  by (induction rule: rtranclp_induct) (auto intro: controller_step_ok)

lemma step_trans: "controller_step r view wrap ws s t \<Longrightarrow> steps t u \<Longrightarrow> steps s u"
  by (rule converse_rtranclp_into_rtranclp)

lemma finish_exists:
  assumes "sy_worker s = HasBoth n k l"
  shows "\<exists>t. steps s t \<and> sy_worker t = Idle \<and> sy_remote t = sy_remote s"
proof -
  obtain result w where "Reconcile (snapshot_mirror r k l) n (sy_server s) = (result, w)"
    by (cases "Reconcile (snapshot_mirror r k l) n (sy_server s)")
  from finish_request [OF assms zero_less_one this]
  show ?thesis by (intro exI conjI, rule r_into_rtranclp) simp_all
qed

lemma drain_worker: "\<exists>t. steps s t \<and> sy_worker t = Idle \<and> sy_remote t = sy_remote s"
proof -
  have local: "\<exists>t. steps u t \<and> sy_worker t = Idle \<and> sy_remote t = sy_remote u" if "sy_worker u = HasRemote n k" for u n k
    using step_trans [OF read_local [OF that]] finish_exists [of "u\<lparr>sy_worker := HasBoth n k (sy_cache u n)\<rparr>" n k] by fastforce
  show ?thesis
  proof (cases "sy_worker s")
    case Idle
    then show ?thesis by auto
  next
    case (Started n)
    then show ?thesis
      using step_trans [OF read_remote [OF Started]] local [of "s\<lparr>sy_worker := HasRemote n (sy_remote s n)\<rparr>" n] by fastforce
  qed (use local finish_exists in blast)+
qed

lemma drain_stream:
  "\<exists>t. steps s t \<and> sy_stream t = [] \<and> sy_worker t = sy_worker s \<and> sy_remote t = sy_remote s"
proof (induction "sy_stream s" arbitrary: s)
  case Nil
  then show ?case by (intro exI [of _ s]) simp
next
  case (Cons p rest)
  obtain n v where p: "p = (n, v)" by (cases p)
  let ?t = "s\<lparr>sy_cache := (sy_cache s)(n := v), sy_stream := rest,
    sy_notes := sy_notes s @ map (Pair LocalKind) (processDeltas wrap (sy_cache s n) v)\<rparr>"
  have "controller_step r view wrap ws s ?t" by (rule local_delta) (simp add: p Cons.hyps(2) [symmetric])
  with Cons.hyps(1) [of ?t] show ?case by (auto intro: step_trans)
qed

lemma drain_notes:
  "system_ok s \<Longrightarrow> \<exists>t. steps s t \<and> sy_notes t = [] \<and> sy_stream t = sy_stream s \<and> sy_worker t = sy_worker s \<and>
     sy_remote t = sy_remote s"
proof (induction "sy_notes s" arbitrary: s)
  case Nil
  then show ?case by (intro exI [of _ s]) simp
next
  case (Cons p rest)
  obtain src e where p: "p = (src, e)" by (cases p)
  obtain reqs where reqs: "deliver ws src e = Done reqs"
    using Cons.prems Cons.hyps(2) [symmetric] p by (auto simp: system_ok_def queue_ok_def)
  let ?t = "s\<lparr>sy_notes := rest, sy_queue := wq_add_all reqs (sy_queue s)\<rparr>"
  have step: "controller_step r view wrap ws s ?t"
    by (rule handle_note [OF _ reqs]) (simp add: p Cons.hyps(2) [symmetric])
  with Cons.hyps(1) [of ?t] controller_step_ok [OF step Cons.prems] show ?case by (auto intro: step_trans)
qed

lemma drain_waiting:
  "\<exists>t. steps s t \<and> wq_waiting (sy_queue t) = [] \<and> sy_notes t = sy_notes s \<and> sy_stream t = sy_stream s \<and>
     sy_worker t = sy_worker s \<and> sy_remote t = sy_remote s"
proof (induction "length (wq_waiting (sy_queue s))" arbitrary: s)
  case 0
  then show ?case by (intro exI [of _ s]) simp
next
  case (Suc k)
  then obtain n rest where w: "wq_waiting (sy_queue s) = n # rest" by (cases "wq_waiting (sy_queue s)") simp_all
  let ?t = "s\<lparr>sy_queue := wq_ready n (sy_queue s)\<rparr>"
  have "controller_step r view wrap ws s ?t" by (rule request_ready) (simp add: w)
  with Suc.hyps(1) [of ?t] Suc.hyps(2) w show ?case by (auto intro: step_trans)
qed

text \<open>Everything is handled but for the requests; what is delayed is in sync.\<close>

definition calm :: "('o, 'w) system \<Rightarrow> bool" where
  "calm s \<longleftrightarrow> system_ok s \<and> sy_worker s = Idle \<and> sy_stream s = [] \<and> sy_notes s = [] \<and>
     (\<forall>n \<in> set (wq_waiting (sy_queue s)). synced s n) \<and> (mr_preprocessors r = None \<longrightarrow> wq_waiting (sy_queue s) = [])"

lemma calms:
  assumes "system_ok s"
  shows "\<exists>t. steps s t \<and> calm t \<and> sy_remote t = sy_remote s"
proof -
  obtain t1 where 1: "steps s t1" "sy_worker t1 = Idle" "sy_remote t1 = sy_remote s" using drain_worker by blast
  obtain t2 where 2: "steps t1 t2" "sy_stream t2 = []" "sy_worker t2 = sy_worker t1" "sy_remote t2 = sy_remote t1"
    using drain_stream by blast
  obtain t3 where 3: "steps t2 t3" "sy_notes t3 = []" "sy_stream t3 = sy_stream t2" "sy_worker t3 = sy_worker t2"
      "sy_remote t3 = sy_remote t2"
    using drain_notes [OF steps_ok [OF 2(1) steps_ok [OF 1(1) assms]]] by blast
  obtain t4 where 4: "steps t3 t4" "wq_waiting (sy_queue t4) = []" "sy_notes t4 = sy_notes t3"
      "sy_stream t4 = sy_stream t3" "sy_worker t4 = sy_worker t3" "sy_remote t4 = sy_remote t3"
    using drain_waiting by blast
  have run: "steps s t4" using 1(1) 2(1) 3(1) 4(1) by (meson rtranclp_trans)
  then show ?thesis using steps_ok [OF run assms] 1 2 3 4 by (auto simp: calm_def)
qed

section \<open>One round\<close>

text \<open>What a reconcile does that has read the present state of both clusters.\<close>

lemma fresh_outcome:
  assumes run: "Reconcile (snapshot_mirror r k (view w n)) n w = (result, w')"
    and k: "\<And>x. k = Some x \<Longrightarrow> remote_fits meta envs n x" and l: "\<And>x. view w n = Some x \<Longrightarrow> marked meta n x"
  shows "snd result = None \<and> (mr_preprocessors r = None \<longrightarrow> fst result = result_zero) \<and> implements meta content k (view w' n) \<and>
    (\<forall>m. m \<noteq> n \<longrightarrow> view w' m = view w m) \<and>
    (view w' n \<noteq> view w n \<and> implements meta content k (view w n) \<longrightarrow> quiet meta (view w n) (view w' n))"
proof -
  have "\<not> ends_retry n k (view w n) w" by (auto simp: ends_retry_def)
  moreover have "\<not> fails k (view w n) w" using unfailing unfolding fails_def by (metis prod.collapse)
  ultimately have out: "succeeds n k (view w n) w result w'"
    using outcome [OF run k] l by (auto simp: marked_def tries_again_def)
  then have "ends_nothing n k (view w n) w w' \<or> ends_written n k (view w n) w w' \<or> ends_deleted n k (view w n) w w'"
    by (simp add: succeeds_def)
  then show ?thesis
  proof (elim disjE)
    assume "ends_written n k (view w n) w w'"
    then show ?thesis
      using out by (auto simp: succeeds_def ends_written_def stored_copy_def implements_def quiet_def)
  qed (use out in \<open>auto simp: succeeds_def ends_nothing_def ends_deleted_def implements_def\<close>)
qed

lemma round_finished:
  assumes s: "calm s" and queue: "wq_queue (sy_queue s) = m # rest"
  obtains t where "steps s t" "sy_worker t = Idle" "sy_notes t = []"
    "wq_dirty (sy_queue t) = wq_dirty (sy_queue s) - {m}" "m \<in> set (wq_queue (sy_queue s))"
    "set (wq_waiting (sy_queue t)) \<subseteq> insert m (set (wq_waiting (sy_queue s)))"
    "mr_preprocessors r = None \<longrightarrow> wq_waiting (sy_queue t) = []" "sy_remote t = sy_remote s" "sy_cache t = sy_cache s" "synced t m"
    "\<forall>n. n \<noteq> m \<longrightarrow> view (sy_server t) n = view (sy_server s) n"
    "sy_stream t = changes view m (sy_server s) (sy_server t)"
    "view (sy_server t) m \<noteq> view (sy_server s) m \<and> synced s m \<longrightarrow> quiet meta (sy_cache s m) (view (sy_server t) m)"
proof -
  have ok: "system_ok s" and idle: "sy_worker s = Idle" and nil: "sy_stream s = []" "sy_notes s = []"
    using s by (simp_all add: calm_def)
  have cs: "chains_ok s" using ok by (simp add: system_ok_def)
  have cache: "sy_cache s m = view (sy_server s) m" using chains_okD(2) [OF cs, of m] nil by (simp add: chain_def)
  obtain q where get: "wq_Get (sy_queue s) = Some (Some m, q)" using queue by (simp add: wq_Get_def)
  let ?k = "sy_remote s m" and ?l = "sy_cache s m"
  let ?s1 = "s\<lparr>sy_queue := q, sy_worker := Started m\<rparr>"
  let ?s2 = "s\<lparr>sy_queue := q, sy_worker := HasRemote m ?k\<rparr>" and ?s3 = "s\<lparr>sy_queue := q, sy_worker := HasBoth m ?k ?l\<rparr>"
  obtain result w where run: "Reconcile (snapshot_mirror r ?k ?l) m (sy_server s) = (result, w)"
    by (cases "Reconcile (snapshot_mirror r ?k ?l) m (sy_server s)")
  have out: "snd result = None \<and> (mr_preprocessors r = None \<longrightarrow> fst result = result_zero) \<and> implements meta content ?k (view w m) \<and>
    (\<forall>n. n \<noteq> m \<longrightarrow> view w n = view (sy_server s) n) \<and>
    (view w m \<noteq> view (sy_server s) m \<and> implements meta content ?k (view (sy_server s) m) \<longrightarrow>
      quiet meta (view (sy_server s) m) (view w m))"
    by (rule fresh_outcome [OF run [unfolded cache]])
      (use ok cs chains_okD(5) [OF cs, of m] cache in \<open>simp_all add: system_ok_def remotes_fit_def\<close>)
  let ?t = "s\<lparr>sy_server := w, sy_stream := sy_stream s @ changes view m (sy_server s) w,
      sy_queue := wq_Done m (reconcileHandler m 1 result q), sy_worker := Idle\<rparr>"
  have "controller_step r view wrap ws s ?s1" by (rule take_request [OF idle get])
  moreover have "controller_step r view wrap ws ?s1 ?s2" using read_remote [of ?s1 m r view wrap ws] by simp
  moreover have "controller_step r view wrap ws ?s2 ?s3" using read_local [of ?s2 m ?k r view wrap ws] by simp
  moreover have "controller_step r view wrap ws ?s3 ?t"
    using finish_request [of ?s3 m ?k ?l 1 r result w view wrap ws] run by simp
  ultimately have st: "steps s ?t" by (meson step_trans rtranclp.rtrancl_refl)
  note g = Get_effect [OF get]
  have "\<not> wq_shutting_down q" using g(4) ok by (simp add: system_ok_def queue_ok_def)
  note h = handler_effect [OF this zero_less_one, of m result]
  have "wq_dirty (sy_queue ?t) = wq_dirty (sy_queue s) - {m}" "m \<in> set (wq_queue (sy_queue s))"
    "set (wq_waiting (sy_queue ?t)) \<subseteq> insert m (set (wq_waiting (sy_queue s)))"
    using h g by (auto simp: reconcileHandler_def)
  moreover have "mr_preprocessors r = None \<Longrightarrow> wq_waiting (sy_queue ?t) = []"
    using h g(3) out s by (simp add: calm_def)
  ultimately show ?thesis
    using st idle nil out cache by (intro that [of ?t]) (auto simp: synced_def)
qed

text \<open>The informer takes the write of the round from the stream and the handler its event.\<close>

lemma round_handled:
  assumes ok: "system_ok t" and t: "sy_worker t = Idle" "sy_notes t = []"
    and waiting: "\<forall>n \<in> set (wq_waiting (sy_queue t)). synced t n" "mr_preprocessors r = None \<longrightarrow> wq_waiting (sy_queue t) = []"
    and stream: "sy_stream t = (if view (sy_server t) m = sy_cache t m then [] else [(m, view (sy_server t) m)])"
  obtains u where "steps t u" "calm u" "sy_remote u = sy_remote t" "sy_server u = sy_server t"
    "wq_dirty (sy_queue u) \<subseteq> insert m (wq_dirty (sy_queue t))"
    "view (sy_server t) m = sy_cache t m \<or> quiet meta (sy_cache t m) (view (sy_server t) m) \<Longrightarrow>
      wq_dirty (sy_queue u) = wq_dirty (sy_queue t)"
proof (cases "view (sy_server t) m = sy_cache t m")
  case True
  then show ?thesis using that [of t] ok t stream waiting by (auto simp: calm_def)
next
  case False
  let ?a = "sy_cache t m" and ?v = "view (sy_server t) m"
  have stream': "sy_stream t = [(m, ?v)]" using stream False by simp
  have cs: "chains_ok t" using ok by (simp add: system_ok_def)
  have "chain t m = [?a, ?v]" using stream' by (simp add: chain_def)
  then have c: "chain_ok meta content (sy_remote t m) m [?a, ?v]" using chains_okD(1) [OF cs, of m] by simp
  then have link: "linked meta content (sy_remote t m) ?a ?v" by (simp add: chain_ok_Cons)
  obtain e where e: "processDeltas wrap ?a ?v = [e]"
      "deliver ws LocalKind e = Done (if quiet meta ?a ?v then [] else [m])"
    using delta_requests [OF _ _ link, of m] c by (auto simp: chain_ok_def)
  let ?u1 = "t\<lparr>sy_cache := (sy_cache t)(m := ?v), sy_stream := [], sy_notes := [(LocalKind, e)]\<rparr>"
  let ?u = "?u1\<lparr>sy_notes := [], sy_queue := wq_add_all (if quiet meta ?a ?v then [] else [m]) (sy_queue t)\<rparr>"
  have "controller_step r view wrap ws t ?u1"
    using local_delta [OF stream', of r view wrap ws] e(1) t(2) by simp
  moreover have "controller_step r view wrap ws ?u1 ?u"
    using handle_note [of ?u1 LocalKind e "[]" ws, OF _ e(2), of r view wrap] by simp
  ultimately have st: "steps t ?u" by (meson step_trans rtranclp.rtrancl_refl)
  have "\<not> wq_shutting_down (sy_queue t)" using ok by (simp add: system_ok_def queue_ok_def)
  then have "wq_dirty (sy_queue ?u) = (if quiet meta ?a ?v then {} else {m}) \<union> wq_dirty (sy_queue t)" by simp
  moreover have "calm ?u" using steps_ok [OF st ok] t waiting by (auto simp: calm_def synced_def)
  ultimately show ?thesis
    using that [OF st] \<open>\<not> wq_shutting_down (sy_queue t)\<close>
    by (cases "quiet meta ?a ?v") (auto simp: False)
qed

lemma round:
  assumes s: "calm s" and queue: "wq_queue (sy_queue s) = m # rest"
  obtains u where "steps s u" "calm u" "sy_remote u = sy_remote s" "wq_dirty (sy_queue u) \<subseteq> wq_dirty (sy_queue s)"
    "\<And>n. synced s n \<Longrightarrow> synced u n" "synced u m" "synced s m \<Longrightarrow> m \<notin> wq_dirty (sy_queue u)" "m \<in> wq_dirty (sy_queue s)"
proof -
  have ok: "system_ok s" using s by (simp add: calm_def)
  have cs: "chains_ok s" using ok by (simp add: system_ok_def)
  have cache: "sy_cache s m = view (sy_server s) m"
    using chains_okD(2) [OF cs, of m] s by (simp add: chain_def calm_def)
  obtain t where t: "steps s t" "sy_worker t = Idle" "sy_notes t = []"
    and d: "wq_dirty (sy_queue t) = wq_dirty (sy_queue s) - {m}" and head: "m \<in> set (wq_queue (sy_queue s))"
    and w: "set (wq_waiting (sy_queue t)) \<subseteq> insert m (set (wq_waiting (sy_queue s)))"
      "mr_preprocessors r = None \<longrightarrow> wq_waiting (sy_queue t) = []"
    and rem: "sy_remote t = sy_remote s" and same_cache: "sy_cache t = sy_cache s" and sm: "synced t m"
    and frame: "\<forall>n. n \<noteq> m \<longrightarrow> view (sy_server t) n = view (sy_server s) n"
    and stream: "sy_stream t = changes view m (sy_server s) (sy_server t)"
    and again: "view (sy_server t) m \<noteq> view (sy_server s) m \<and> synced s m \<longrightarrow> quiet meta (sy_cache s m) (view (sy_server t) m)"
    by (rule round_finished [OF s queue])
  have okt: "system_ok t" by (rule steps_ok [OF t(1) ok])
  have keep: "synced t n" if "synced s n" for n
    using that rem sm frame by (cases "n = m") (auto simp: synced_def)
  have wt: "\<forall>n \<in> set (wq_waiting (sy_queue t)). synced t n" "mr_preprocessors r = None \<longrightarrow> wq_waiting (sy_queue t) = []"
    using w sm keep s by (auto simp: calm_def)
  have "sy_stream t = (if view (sy_server t) m = sy_cache t m then [] else [(m, view (sy_server t) m)])"
    using stream cache same_cache by (auto simp: changes_def)
  from round_handled [OF okt t(2,3) wt this]
  obtain u where u: "steps t u" "calm u" "sy_remote u = sy_remote t" "sy_server u = sy_server t"
      "wq_dirty (sy_queue u) \<subseteq> insert m (wq_dirty (sy_queue t))"
      "view (sy_server t) m = sy_cache t m \<or> quiet meta (sy_cache t m) (view (sy_server t) m) \<Longrightarrow>
        wq_dirty (sy_queue u) = wq_dirty (sy_queue t)"
    by blast
  have m: "m \<in> wq_dirty (sy_queue s)"
    using head ok by (auto simp: system_ok_def queue_ok_def wq_wf_def)
  have same: "synced u n = synced t n" for n using u(3,4) by (simp add: synced_def)
  have run: "steps s u" using t(1) u(1) by (rule rtranclp_trans)
  have "m \<notin> wq_dirty (sy_queue u)" if "synced s m" using that again u(6) same_cache cache d by auto
  then show ?thesis using that [OF run u(2)] u(3,5) rem sm d m keep same by auto
qed

section \<open>The rounds end\<close>

lemma calm_rests: "calm s \<Longrightarrow> \<exists>t. steps s t \<and> calm t \<and> all_handled t \<and> sy_remote t = sy_remote s"
proof (induction "card (wq_dirty (sy_queue s)) + card {n \<in> wq_dirty (sy_queue s). \<not> synced s n}"
    arbitrary: s rule: less_induct)
  case less
  have q: "wq_wf (sy_queue s)" "wq_processing (sy_queue s) = {}"
    using less.prems by (simp_all add: calm_def system_ok_def queue_ok_def)
  then have dirty: "wq_dirty (sy_queue s) = set (wq_queue (sy_queue s))" by (simp add: wq_wf_def)
  show ?case
  proof (cases "wq_queue (sy_queue s)")
    case Nil
    then have "all_handled s" using less.prems dirty by (simp add: all_handled_def calm_def)
    then show ?thesis using less.prems by blast
  next
    case (Cons m rest)
    let ?D = "\<lambda>s. wq_dirty (sy_queue s)" and ?B = "\<lambda>s. {n \<in> wq_dirty (sy_queue s). \<not> synced s n}"
    obtain u where u: "steps s u" "calm u" "sy_remote u = sy_remote s" "?D u \<subseteq> ?D s"
        "synced u m" "m \<in> ?D s" and keep: "\<And>n. synced s n \<Longrightarrow> synced u n" and out: "synced s m \<Longrightarrow> m \<notin> ?D u"
      using round [OF less.prems Cons] by metis
    have fin: "finite (?D s)" "finite (?B s)" using dirty by simp_all
    have B: "?B u \<subseteq> ?B s" using u(4) keep by blast
    have "card (?D u) + card (?B u) < card (?D s) + card (?B s)"
    proof (cases "synced s m")
      case True
      then have "?D u \<subset> ?D s" using out u(4,6) by blast
      then show ?thesis using psubset_card_mono [OF fin(1)] card_mono [OF fin(2) B] by (simp add: add_less_le_mono)
    next
      case False
      then have "?B u \<subset> ?B s" using B u(5,6) by blast
      then show ?thesis using psubset_card_mono [OF fin(2)] card_mono [OF fin(1) u(4)] by (simp add: add_le_less_mono)
    qed
    then obtain t where "steps u t" "calm t" "all_handled t" "sy_remote t = sy_remote u" using less.hyps [OF _ u(2)] by blast
    then show ?thesis using u(1,3) by (metis rtranclp_trans)
  qed
qed

lemma handled_synced:
  assumes "calm s" "all_handled s"
  shows "synced s n"
proof -
  have "alerted meta ws s n \<Longrightarrow> n \<in> set (wq_waiting (sy_queue s))"
    using assms(2) by (simp add: alerted_def all_handled_def chain_def)
  moreover have "alerted meta ws s n \<or> synced s n" using assms(1) unfolding calm_def system_ok_def covered_def by auto
  ultimately show ?thesis using assms(1) unfolding calm_def by blast
qed

lemma drains:
  assumes "system_ok s"
  shows "\<exists>t. steps s t \<and> all_handled t \<and> (mr_preprocessors r = None \<longrightarrow> at_rest t) \<and> sy_remote t = sy_remote s \<and>
    (\<forall>n. implements meta content (sy_remote s n) (view (sy_server t) n))"
proof -
  obtain u where u: "steps s u" "calm u" "sy_remote u = sy_remote s" using calms [OF assms] by blast
  obtain t where t: "steps u t" "calm t" "all_handled t" "sy_remote t = sy_remote u" using calm_rests [OF u(2)] by blast
  have run: "steps s t" using u(1) t(1) by (rule rtranclp_trans)
  have "implements meta content (sy_remote s n) (view (sy_server t) n)" for n
    using handled_synced [OF t(2,3), of n] t(4) u(3) by (simp add: synced_def)
  moreover have "mr_preprocessors r = None \<longrightarrow> at_rest t" using t(2,3) by (simp add: at_rest_def calm_def)
  ultimately show ?thesis using run t(3,4) u(3) by metis
qed

lemma reachable_drains:
  assumes "starts meta view wrap envs s" and "(system_step r view wrap ws envs)\<^sup>*\<^sup>* s t"
  shows "\<exists>u. steps t u \<and> all_handled u \<and> (mr_preprocessors r = None \<longrightarrow> at_rest u) \<and> sy_remote u = sy_remote t \<and>
    (\<forall>n. implements meta content (sy_remote t n) (view (sy_server u) n))"
  by (rule drains [OF reachable_ok [OF assms]])

end

lemma controller_steps:
  "(controller_step r view wrap ws)\<^sup>*\<^sup>* s t \<Longrightarrow> (system_step r view wrap ws envs)\<^sup>*\<^sup>* s t"
  by (rule rtranclp_mono [THEN predicate2D]) (auto simp: system_step_def)

section \<open>The three plain mirrors\<close>

definition configmap_object :: "configmap \<Rightarrow> kobject" where
  "configmap_object x = KOther (cm_meta x)"

definition secret_object :: "secret \<Rightarrow> kobject" where
  "secret_object x = KOther (sec_meta x)"

definition namespace_object :: "namespace_obj \<Rightarrow> kobject" where
  "namespace_object x = KOther (nsp_meta x)"

lemma plain_watches: "deliver (mirror_watches envs) LocalConfigurations e = Done []"
  by (simp add: mirror_watches_def NewControllerManagedBy_def)

lemmas plain_parts = plain_watches keeps_copy_def

lemma configmap_system:
  assumes "serves cm_meta cm_data c view" "refuses cm_meta c view" "renews cm_meta c" "envs \<noteq> []"
  shows "steady_system cm_meta set_cm_meta configmap_kindMerger cm_data (configmap_mirror (Some c) (Some rc) (Some envs))
    c rc view configmap_object (mirror_watches envs) envs"
  by unfold_locales (simp_all add: assms plain_parts configmap_zero_def meta_zero_def configmap_object_def)

lemma secret_system:
  assumes "serves sec_meta sec_data c view" "refuses sec_meta c view" "renews sec_meta c" "envs \<noteq> []"
  shows "steady_system sec_meta set_sec_meta secret_kindMerger sec_data (secret_mirror (Some c) (Some rc) (Some envs))
    c rc view secret_object (mirror_watches envs) envs"
  by unfold_locales (simp_all add: assms plain_parts secret_zero_def meta_zero_def secret_object_def)

text \<open>The servers in memory, one for each kind.\<close>

definition memory_maps :: "(configmap, configmap memory) kclient" where
  "memory_maps = memory_client cm_meta set_cm_meta (\<lambda>w. w) (\<lambda>m w. m)"

definition memory_secrets :: "(secret, secret memory) kclient" where
  "memory_secrets = memory_client sec_meta set_sec_meta (\<lambda>w. w) (\<lambda>m w. m)"

definition memory_namespaces :: "(namespace_obj, namespace_obj memory) kclient" where
  "memory_namespaces = memory_client nsp_meta set_nsp_meta (\<lambda>w. w) (\<lambda>m w. m)"

lemma memory_contracts:
  "serves cm_meta cm_data memory_maps (memory_find cm_meta)" "refuses cm_meta memory_maps (memory_find cm_meta)"
  "renews cm_meta memory_maps"
  "serves sec_meta sec_data memory_secrets (memory_find sec_meta)" "refuses sec_meta memory_secrets (memory_find sec_meta)"
  "renews sec_meta memory_secrets"
  "serves nsp_meta (\<lambda>x. ()) memory_namespaces (memory_find nsp_meta)"
  "refuses nsp_meta memory_namespaces (memory_find nsp_meta)" "renews nsp_meta memory_namespaces"
  using memory_serves [of cm_meta set_cm_meta cm_data "\<lambda>w. w" "\<lambda>m w. m"]
    memory_serves [of sec_meta set_sec_meta sec_data "\<lambda>w. w" "\<lambda>m w. m"]
    memory_serves [of nsp_meta set_nsp_meta "\<lambda>x. ()" "\<lambda>w. w" "\<lambda>m w. m"]
    memory_refuses [of cm_meta set_cm_meta "\<lambda>w. w"] memory_refuses [of sec_meta set_sec_meta "\<lambda>w. w"]
    memory_refuses [of nsp_meta set_nsp_meta "\<lambda>w. w"]
  by (simp_all add: memory_fits_def memory_renews memory_maps_def memory_secrets_def memory_namespaces_def set_cm_meta_def
      set_sec_meta_def set_nsp_meta_def)

interpretation cms: steady_system cm_meta set_cm_meta configmap_kindMerger cm_data
  "configmap_mirror (Some memory_maps) (Some memory_maps) (Some [''prod''])" memory_maps memory_maps
  "memory_find cm_meta" configmap_object "mirror_watches [''prod'']" "[''prod'']"
  by (rule configmap_system) (simp_all add: memory_contracts)

interpretation secs: steady_system sec_meta set_sec_meta secret_kindMerger sec_data
  "secret_mirror (Some memory_secrets) (Some memory_secrets) (Some [''prod''])" memory_secrets memory_secrets
  "memory_find sec_meta" secret_object "mirror_watches [''prod'']" "[''prod'']"
  by (rule secret_system) (simp_all add: memory_contracts)

interpretation nsps: steady_system nsp_meta set_nsp_meta namespace_kindMerger "\<lambda>x. ()"
  "namespace_mirror (Some memory_namespaces) (Some memory_namespaces) (Some [''prod''])" memory_namespaces memory_namespaces
  "memory_find nsp_meta" namespace_object "mirror_watches [''prod'']" "[''prod'']"
  by unfold_locales
    (simp_all add: memory_contracts plain_parts namespace_mirror_def namespace_zero_def meta_zero_def namespace_object_def)

section \<open>Properties\<close>

text \<open>A labelled config map in the cloud, an empty cluster, and the controller that has just started.\<close>

definition shop_app :: nsname where
  "shop_app = \<lparr>ns_namespace = ''shop'', ns_name = ''app''\<rparr>"

definition labelled_meta :: object_meta where
  "labelled_meta = meta_zero\<lparr>om_name := ''app'', om_namespace := ''shop'', om_resource_version := ''5'',
     om_labels := mput EnvironmentLabel ''prod'' None\<rparr>"

definition labelled_map :: configmap where
  "labelled_map = configmap_zero\<lparr>cm_meta := labelled_meta, cm_data := mput ''key'' ''value'' None\<rparr>"

definition labelled_secret :: secret where
  "labelled_secret = secret_zero\<lparr>sec_meta := labelled_meta, sec_data := mput ''key'' ''value'' None\<rparr>"

definition starting :: "('o \<Rightarrow> kobject) \<Rightarrow> nsname \<Rightarrow> 'o \<Rightarrow> ('o, 'o memory) system" where
  "starting wrap n x =
     \<lparr>sy_server = \<lparr>my_objects = fmempty, my_writes = 0\<rparr>, sy_remote = [n \<mapsto> x], sy_cache = (\<lambda>_. None),
      sy_stream = [], sy_notes = [(RemoteKind, CreateEvent (Some (wrap x)))], sy_queue = newQueue, sy_worker = Idle\<rparr>"

lemma starting_starts:
  assumes "remote_fits meta envs n x"
  shows "starts meta (memory_find meta) wrap envs (starting wrap n x)"
proof -
  have "memory_find meta \<lparr>my_objects = fmempty, my_writes = 0\<rparr> = (\<lambda>n. None)"
    by (simp add: memory_find_def fun_eq_iff)
  then show ?thesis using assms by (auto simp: starts_def starting_def)
qed

lemma labelled_fits:
  "remote_fits cm_meta [''prod''] shop_app labelled_map" "remote_fits sec_meta [''prod''] shop_app labelled_secret"
  by (simp_all add: remote_fits_def labelled_map_def labelled_secret_def labelled_meta_def shop_app_def meta_zero_def
      meta_nsname_def selector_matches_def env_requirement_def)

text \<open>
  No change is lost. The config map mirror runs against a server that keeps its contract,
  with caches that lag behind, while the cloud and other clients change objects at any time. In
  every state that can be reached, each name is in sync (there is a copy of the remote object, or
  none if there is no remote object), or the worker has taken a request for it, or a request
  for it is queued, delayed, about to be made by an event that waits for its handler, or by a
  change that the cache has not seen yet. Among the changes a mirror could overlook are its own
  writes, whose events its filter drops.
\<close>

theorem no_change_lost:
  fixes n :: nsname
  assumes "serves cm_meta cm_data c view" and "refuses cm_meta c view" and "renews cm_meta c" and "envs \<noteq> []"
    and "starts cm_meta view configmap_object envs s"
    and "(system_step (configmap_mirror (Some c) (Some rc) (Some envs)) view configmap_object (mirror_watches envs) envs)\<^sup>*\<^sup>* s t"
  shows "implements cm_meta cm_data (sy_remote t n) (view (sy_server t) n) \<or> n \<in> busy_with (sy_worker t) \<or>
    alerted cm_meta (mirror_watches envs) t n"
  using mirror_system.reachable_covered [OF steady_system.axioms(1) [OF configmap_system [OF assms(1-4)]] assms(5,6)] .

theorem no_change_lost_witness:
  "implements cm_meta cm_data (Some labelled_map) None \<or>
    shop_app \<in> busy_with (sy_worker (starting configmap_object shop_app labelled_map)) \<or>
    alerted cm_meta (mirror_watches [''prod'']) (starting configmap_object shop_app labelled_map) shop_app"
proof -
  let ?s = "starting configmap_object shop_app labelled_map"
  have "implements cm_meta cm_data (sy_remote ?s shop_app) (memory_find cm_meta (sy_server ?s) shop_app) \<or>
      shop_app \<in> busy_with (sy_worker ?s) \<or> alerted cm_meta (mirror_watches [''prod'']) ?s shop_app"
    by (rule no_change_lost [OF memory_contracts(1-3) _ starting_starts [OF labelled_fits(1)] rtranclp.rtrancl_refl]) simp
  moreover have "sy_remote ?s shop_app = Some labelled_map" "memory_find cm_meta (sy_server ?s) shop_app = None"
    by (simp_all add: starting_def memory_find_def)
  ultimately show ?thesis by simp
qed

text \<open>
  A mirror at rest is in sync. When the secret mirror has nothing left to do (the worker
  idle, no request queued or delayed, no event and no change of the local cluster on its way),
  the two clusters agree on every name, whatever the interleaving was that led there.
\<close>

theorem rest_is_sync:
  fixes n :: nsname
  assumes "serves sec_meta sec_data c view" and "refuses sec_meta c view" and "renews sec_meta c" and "envs \<noteq> []"
    and "starts sec_meta view secret_object envs s"
    and "(system_step (secret_mirror (Some c) (Some rc) (Some envs)) view secret_object (mirror_watches envs) envs)\<^sup>*\<^sup>* s t" and "at_rest t"
  shows "implements sec_meta sec_data (sy_remote t n) (view (sy_server t) n)"
  using mirror_system.reachable_rest [OF steady_system.axioms(1) [OF secret_system [OF assms(1-4)]] assms(5-7)] .

theorem rest_is_sync_witness:
  "\<exists>(w :: secret memory) y. memory_find sec_meta w shop_app = Some y \<and> sec_data y = sec_data labelled_secret"
proof -
  let ?s = "starting secret_object shop_app labelled_secret"
  have start: "starts sec_meta (memory_find sec_meta) secret_object [''prod''] ?s"
    by (rule starting_starts [OF labelled_fits(2)])
  obtain t where t: "(controller_step (secret_mirror (Some memory_secrets) (Some memory_secrets) (Some [''prod''])) (memory_find sec_meta)
      secret_object (mirror_watches [''prod'']))\<^sup>*\<^sup>* ?s t" "at_rest t" "sy_remote t = sy_remote ?s"
    using secs.drains [OF secs.start_ok [of ?s]] start by auto
  have run: "(system_step (secret_mirror (Some memory_secrets) (Some memory_secrets) (Some [''prod''])) (memory_find sec_meta)
      secret_object (mirror_watches [''prod'']) [''prod''])\<^sup>*\<^sup>* ?s t"
    by (rule controller_steps [OF t(1)])
  have "implements sec_meta sec_data (sy_remote t shop_app) (memory_find sec_meta (sy_server t) shop_app)"
    by (rule rest_is_sync [OF memory_contracts(4-6) _ start run t(2)]) simp
  then show ?thesis using t(3) by (auto simp: starting_def implements_def copy_of_def)
qed

text \<open>
  C3. A mirror comes to rest. From every state that can be reached the controller can finish by
  its own steps, without any change in the cloud, and then the two clusters agree on every
  name: requests that conflict with a lagging cache are retried, a copy that has been created
  is requested once more, and that request is the last.
\<close>

theorem mirror_comes_to_rest:
  assumes "serves cm_meta cm_data c view" and "refuses cm_meta c view" and "renews cm_meta c" and "envs \<noteq> []"
    and "starts cm_meta view configmap_object envs s"
    and "(system_step (configmap_mirror (Some c) (Some rc) (Some envs)) view configmap_object (mirror_watches envs) envs)\<^sup>*\<^sup>* s t"
  shows "\<exists>u. (controller_step (configmap_mirror (Some c) (Some rc) (Some envs)) view configmap_object (mirror_watches envs))\<^sup>*\<^sup>* t u \<and>
    at_rest u \<and> sy_remote u = sy_remote t \<and>
    (\<forall>n. implements cm_meta cm_data (sy_remote t n) (view (sy_server u) n))"
  using steady_system.reachable_drains [OF configmap_system [OF assms(1-4)] assms(5,6)] by auto

theorem mirror_comes_to_rest_witness:
  "\<exists>u. (controller_step (configmap_mirror (Some memory_maps) (Some memory_maps) (Some [''prod''])) (memory_find cm_meta)
      configmap_object (mirror_watches [''prod'']))\<^sup>*\<^sup>* (starting configmap_object shop_app labelled_map) u \<and> at_rest u \<and>
    (\<exists>y. memory_find cm_meta (sy_server u) shop_app = Some y \<and> cm_data y = cm_data labelled_map)"
proof -
  let ?s = "starting configmap_object shop_app labelled_map"
  obtain u where u: "(controller_step (configmap_mirror (Some memory_maps) (Some memory_maps) (Some [''prod''])) (memory_find cm_meta)
        configmap_object (mirror_watches [''prod'']))\<^sup>*\<^sup>* ?s u" "at_rest u"
      "\<forall>n. implements cm_meta cm_data (sy_remote ?s n) (memory_find cm_meta (sy_server u) n)"
    using mirror_comes_to_rest [OF memory_contracts(1-3) list.distinct(2) starting_starts [OF labelled_fits(1)] rtranclp.rtrancl_refl]
    by auto
  have "implements cm_meta cm_data (Some labelled_map) (memory_find cm_meta (sy_server u) shop_app)"
    using u(3) [THEN spec, of shop_app] by (simp add: starting_def)
  then obtain y where "memory_find cm_meta (sy_server u) shop_app = Some y" "cm_data y = cm_data labelled_map"
    by (auto simp: implements_def copy_of_def)
  then show ?thesis using u(1,2) by blast
qed

text \<open>
  The order of the stream matters. A client that lists again may see the cache entry \<open>l\<close> replaced at
  once by \<open>z\<close>, a change that another client has made to the copy \<open>y\<close> that the mirror had made of \<open>l\<close>:
  the mark of \<open>z\<close> is the version of \<open>l\<close>, so the event is taken for the mirror's own and dropped.
\<close>

theorem collapsed_change_dropped:
  assumes "marked cm_meta n y" and "generation_mark (cm_meta y) = Some (om_resource_version (cm_meta l))"
    and "foreign_change cm_meta n y (Some z)"
  shows "deliver (mirror_watches envs) LocalKind (UpdateEvent (Some (configmap_object l)) (Some (configmap_object z))) = Done []"
  using local_update_requests [of "configmap_object z" "om_resource_version (cm_meta l)" _ "configmap_object l"] assms
  by (simp add: foreign_change_def configmap_object_def mirror_watches_def)

end
