(* ===== verification/ServiceMirror.thy ===== *)
theory ServiceMirror
  imports MirrorDrain
begin

text \<open>
  The mirror of Knative services at work. Between the merge and the write its two preprocessors
  keep the configuration of the proxy and place the traffic; they write to another kind of
  object, so they leave what a mirror is about alone, and with an API server that keeps its
  contract for configurations they do not fail. The traffic store is written by the offload
  loop at any time: each step of the controller may see another store.
\<close>

section \<open>What the preprocessors leave alone\<close>

text \<open>What a copy of a service has of the remote one: its template, with the label of a local revision.\<close>

definition service_content :: "service \<Rightarrow> revision_template" where
  "service_content s = mark_template (svc_template s)"

lemma mput_twice [simp]: "mput k v (mput k v m) = mput k v m"
  by (rule mput_idem) (simp add: mlookup_mput)

interpretation ksm: mirrored_kind svc_meta set_svc_meta "kservice_kindMerger url" service_content
  for url
  by unfold_locales (simp_all add: service_content_def kservice_kindMerger_def mark_template_def set_svc_meta_def)

lemma set_traffic_keeps: "keeps_copy svc_meta service_content s (set_traffic s latest proxy split)"
  by (simp add: keeps_copy_def set_traffic_def service_content_def meta_nsname_def)

lemma RemoveEdgeProxyTarget_keeps:
  "snd (RemoveEdgeProxyTarget (Some s)) = Some x \<Longrightarrow> keeps_copy svc_meta service_content s x"
  by (auto simp: RemoveEdgeProxyTarget_def keeps_copy_def service_content_def Let_def split: if_splits option.splits)

lemma keeps_refl [simp]: "keeps_copy meta content x x"
  by (simp add: keeps_copy_def)

lemma keeps_trans: "keeps_copy meta content x y \<Longrightarrow> keeps_copy meta content y z \<Longrightarrow> keeps_copy meta content x z"
  by (simp add: keeps_copy_def)

lemma isolatedD:
  assumes "isolated c view"
  shows "kc_create c x w = (a, w') \<Longrightarrow> view w' = view w" "kc_update c x w = (a, w') \<Longrightarrow> view w' = view w"
    "kc_delete c x w = (b, w') \<Longrightarrow> view w' = view w"
  using assms by (auto simp: isolated_def) (metis snd_conv)+

lemma pre_configuration_keeps:
  assumes "isolated (kr_configurations r) view" and "pre_configuration r x w = ((res, err, y), w')"
  shows "view w' = view w \<and> y = x"
  using assms(2) isolatedD [OF assms(1)]
  by (auto simp: pre_configuration_def reconcileKConfiguration_def Let_def split: if_splits option.splits prod.splits sum.splits)

lemma pre_service_keeps:
  assumes "isolated (kr_configurations r) view" and "pre_service r x w = ((res, err, y), w')"
  shows "view w' = view w \<and> keeps_copy svc_meta service_content x y"
  using assms(2) isolatedD [OF assms(1)] RemoveEdgeProxyTarget_keeps [of x]
  by (auto simp: pre_service_def reconcileKService_def Let_def set_traffic_keeps
      split: if_splits option.splits prod.splits sum.splits)

lemma kservice_preprocess_keeps:
  assumes "isolated (kr_configurations r) view"
    and "run_preprocessors [pre_configuration r, pre_service r] result x w = ((res, err, y), w')"
  shows "view w' = view w \<and> keeps_copy svc_meta service_content x y"
proof -
  obtain res1 err1 x1 w1 where 1: "pre_configuration r x w = ((res1, err1, x1), w1)" by (metis prod_cases3 surj_pair)
  obtain res2 err2 x2 w2 where 2: "pre_service r x1 w1 = ((res2, err2, x2), w2)" by (metis prod_cases3 surj_pair)
  show ?thesis
    using assms(2) 1 2 pre_configuration_keeps [OF assms(1) 1] pre_service_keeps [OF assms(1) 2]
    by (cases err1; cases err2) auto
qed

section \<open>When the preprocessors do not fail\<close>

lemma built_meta:
  "meta_nsname (cfg_meta (fst (next_configuration r s c))) = configuration_name s"
  "om_resource_version (cfg_meta (fst (next_configuration r s c))) = om_resource_version (cfg_meta c)"
  by (simp_all add: next_configuration_def buildConfiguration_def make_annotations_def Let_def meta_nsname_def
      UpdateLastRemoteGenerationAnnotation_def)

lemma make_annotations_name: "meta_nsname (cfg_meta (make_annotations c)) = meta_nsname (cfg_meta c)"
  by (simp add: make_annotations_def meta_nsname_def)

lemma pre_configuration_unfailing:
  assumes srv: "serves cfg_meta content (kr_configurations r) cview" and run: "pre_configuration r x w = ((res, err, y), w')"
  shows "err = None"
proof (cases "om_resource_version (svc_meta x) = []")
  case True
  then show ?thesis using run by (simp add: pre_configuration_def reconcileKConfiguration_def)
next
  case version: False
  let ?n = "configuration_name x" and ?c = "kr_configurations r"
  have "reads cfg_meta ?c cview" using srv by (simp add: serves_def)
  note get = serves_get [OF this, of w ?n]
  show ?thesis
  proof (cases "cview w ?n")
    case None
    let ?b = "fst (next_configuration r x configuration_zero)"
    have b: "meta_nsname (cfg_meta ?b) = ?n" "om_resource_version (cfg_meta ?b) = []"
      by (simp_all add: built_meta configuration_zero_def meta_zero_def)
    obtain z w1 where "kc_create ?c ?b w = (Inr z, w1)" using serves_create [OF srv None b] by blast
    then show ?thesis
      using run version get(1) [OF None]
      by (cases "next_configuration r x configuration_zero")
        (auto simp: pre_configuration_def reconcileKConfiguration_def Let_def split: if_splits)
  next
    case (Some c)
    let ?b = "fst (next_configuration r x c)"
    have name: "meta_nsname (cfg_meta c) = ?n" by (rule get(3) [OF Some])
    obtain z w1 where upd: "kc_update ?c ?b w = (Inr z, w1)"
      using serves_update [OF srv Some built_meta(1) built_meta(2)] by blast
    obtain w2 where del: "kc_delete ?c (make_annotations c) w = (None, w2)"
      using serves_delete [OF srv Some] make_annotations_name name by metis
    show ?thesis
      using run version get(2) [OF Some] upd del
      by (cases "next_configuration r x c")
        (auto simp: pre_configuration_def reconcileKConfiguration_def Let_def split: if_splits)
  qed
qed

lemma pre_service_unfailing:
  assumes srv: "serves cfg_meta content (kr_configurations r) cview" and run: "pre_service r x w = ((res, err, y), w')"
  shows "err = None"
proof -
  let ?n = "configuration_name x" and ?c = "kr_configurations r"
  have "reads cfg_meta ?c cview" using srv by (simp add: serves_def)
  note get = serves_get [OF this, of w ?n]
  show ?thesis
  proof (cases "cview w ?n")
    case None
    then show ?thesis
      using run get(1) by (auto simp: pre_service_def reconcileKService_def Let_def split: if_splits)
  next
    case (Some c)
    obtain w2 where "kc_delete ?c c w = (None, w2)" using serves_delete [OF srv Some get(3) [OF Some]] by blast
    then show ?thesis
      using run get(2) [OF Some] by (auto simp: pre_service_def reconcileKService_def Let_def split: if_splits)
  qed
qed

lemma kservice_unfailing:
  assumes "serves cfg_meta content (kr_configurations r) cview"
    and "run_preprocessors [pre_configuration r, pre_service r] result x w = ((res, err, y), w')"
  shows "err = None"
proof -
  obtain res1 err1 x1 w1 where 1: "pre_configuration r x w = ((res1, err1, x1), w1)" by (metis prod_cases3 surj_pair)
  obtain res2 err2 x2 w2 where 2: "pre_service r x1 w1 = ((res2, err2, x2), w2)" by (metis prod_cases3 surj_pair)
  show ?thesis
    using assms(2) 1 2 pre_configuration_unfailing [OF assms(1) 1] pre_service_unfailing [OF assms(1) 2] by simp
qed

section \<open>The system\<close>

definition edge_predicates :: "string list \<Rightarrow> (event \<Rightarrow> bool go) list" where
  "edge_predicates envs = [\<lambda>e. Done (env_predicate [env_requirement envs] e)]"

lemma service_watches:
  assumes "kservice_SetupWithManager (Some st) (edge_predicates envs) = Inr ws"
  shows "deliver ws LocalKind e = deliver (mirror_watches envs) LocalKind e"
    "deliver ws RemoteKind e = deliver (mirror_watches envs) RemoteKind e" "\<exists>reqs. deliver ws LocalConfigurations e = Done reqs"
  using deliver_configurations [OF assms] by (simp_all add: mirror_watches_def edge_predicates_def)

text \<open>A step of the controller, for the content that the traffic store has at that time, or of the others.\<close>

definition with_store :: "'w kservice_reconciler \<Rightarrow> store \<Rightarrow> (service, 'w) mirror" where
  "with_store r st = kservice_mirror (r\<lparr>kr_store := st\<rparr>)"

definition service_step ::
  "'w kservice_reconciler \<Rightarrow> ('w \<Rightarrow> nsname \<Rightarrow> service option) \<Rightarrow> watch list \<Rightarrow> string list
    \<Rightarrow> (service, 'w) system \<Rightarrow> (service, 'w) system \<Rightarrow> bool"
where
  "service_step r view ws envs s t \<longleftrightarrow> (\<exists>st. system_step (with_store r st) view KService ws envs s t)"

text \<open>What the controller needs: its clients, the environments, and servers that keep their contracts.\<close>

definition service_setup ::
  "'w kservice_reconciler \<Rightarrow> (service, 'w) kclient \<Rightarrow> ('w \<Rightarrow> nsname \<Rightarrow> service option) \<Rightarrow> watch list \<Rightarrow> string list \<Rightarrow> bool"
where
  "service_setup r c view ws envs \<longleftrightarrow>
     kr_client r = Some c \<and> kr_remote r \<noteq> None \<and> kr_envs r = Some envs \<and> envs \<noteq> [] \<and>
     kservice_SetupWithManager (Some (kr_store r)) (edge_predicates envs) = Inr ws \<and>
     serves svc_meta service_content c view \<and> refuses svc_meta c view \<and> renews svc_meta c \<and>
     isolated (kr_configurations r) view"

lemma service_system:
  assumes "service_setup r c view ws envs"
  shows "mirror_system svc_meta set_svc_meta (kservice_kindMerger (kr_remote_url r)) service_content (with_store r st)
    c (the (kr_remote r)) view KService ws envs"
proof -
  have su: "kr_client r = Some c" "kr_remote r \<noteq> None" "kr_envs r = Some envs" "envs \<noteq> []"
    "kservice_SetupWithManager (Some (kr_store r)) (edge_predicates envs) = Inr ws"
    "serves svc_meta service_content c view" "refuses svc_meta c view" "renews svc_meta c"
    "isolated (kr_configurations r) view"
    using assms by (simp_all add: service_setup_def)
  note ws = service_watches [OF su(5)]
  show ?thesis
  proof unfold_locales
    show "view w' = view w \<and> keeps_copy svc_meta service_content x y"
      if "run_preprocessors (elems (mr_preprocessors (with_store r st))) result_zero x w = ((res, err, y), w')" for x w res err y w'
      using kservice_preprocess_keeps [of "r\<lparr>kr_store := st\<rparr>" view result_zero x w res err y w'] that su(9)
      by (simp add: with_store_def)
  qed (use su ws in \<open>auto simp: with_store_def service_zero_def meta_zero_def\<close>)
qed

lemma service_steady:
  assumes "service_setup r c view ws envs" and "serves cfg_meta content (kr_configurations r) cview"
  shows "steady_system svc_meta set_svc_meta (kservice_kindMerger (kr_remote_url r)) service_content (with_store r st)
    c (the (kr_remote r)) view KService ws envs"
proof (rule steady_system.intro [OF service_system [OF assms(1)] steady_system_axioms.intro])
  show "err = None"
    if "run_preprocessors (elems (mr_preprocessors (with_store r st))) result_zero x w = ((res, err, y), w')" for x w res err y w'
    using kservice_unfailing [of content "r\<lparr>kr_store := st\<rparr>" cview result_zero x w res err y w'] that assms(2)
    by (simp add: with_store_def)
qed

text \<open>The invariant does not speak of the reconciler, so it survives steps with any store.\<close>

abbreviation service_ok :: "('w \<Rightarrow> nsname \<Rightarrow> service option) \<Rightarrow> watch list \<Rightarrow> string list \<Rightarrow> (service, 'w) system \<Rightarrow> bool" where
  "service_ok view ws envs \<equiv> mirror_system.system_ok svc_meta service_content view ws envs"

lemma service_reachable_ok:
  assumes "service_setup r c view ws envs" and "starts svc_meta view KService envs s"
    and "(service_step r view ws envs)\<^sup>*\<^sup>* s t"
  shows "service_ok view ws envs t"
  using assms(3)
proof (induction rule: rtranclp_induct)
  case base
  show ?case by (rule mirror_system.start_ok [OF service_system [OF assms(1), of "kr_store r"] assms(2)])
next
  case (step t u)
  then obtain st where "system_step (with_store r st) view KService ws envs t u" by (auto simp: service_step_def)
  then show ?case
    using mirror_system.controller_step_ok [OF service_system [OF assms(1), of st] _ step.IH]
      mirror_system.environment_step_ok [OF service_system [OF assms(1), of st] _ step.IH]
    by (auto simp: system_step_def with_store_def)
qed

section \<open>Two servers in memory\<close>

text \<open>The services and the configurations of a cluster; an interpretation of both locales.\<close>

type_synonym shop = "service memory \<times> configuration memory"

definition set_cfg_meta :: "object_meta \<Rightarrow> configuration \<Rightarrow> configuration" where
  "set_cfg_meta m c = c\<lparr>cfg_meta := m\<rparr>"

definition shop_services :: "(service, shop) kclient" where
  "shop_services = memory_client svc_meta set_svc_meta fst (\<lambda>m w. (m, snd w))"

definition shop_configurations :: "(configuration, shop) kclient" where
  "shop_configurations = memory_client cfg_meta set_cfg_meta snd (\<lambda>m w. (fst w, m))"

definition shop_view :: "shop \<Rightarrow> nsname \<Rightarrow> service option" where
  "shop_view w = memory_find svc_meta (fst w)"

definition shop_reconciler :: "shop kservice_reconciler" where
  "shop_reconciler =
     \<lparr>kr_client = Some shop_services, kr_remote = Some shop_services, kr_configurations = shop_configurations,
      kr_remote_url = ''http://cloud'', kr_proxy_image = ''proxy'', kr_http_proxy = [], kr_envs = Some [''prod''],
      kr_store = store_new\<rparr>"

definition shop_watches :: "watch list" where
  "shop_watches = projr (kservice_SetupWithManager (Some store_new) (edge_predicates [''prod'']))"

lemma shop_setup: "service_setup shop_reconciler shop_services shop_view shop_watches [''prod'']"
proof -
  have view: "shop_view = (\<lambda>w. memory_find svc_meta (fst w))" by (simp add: shop_view_def fun_eq_iff)
  have "serves svc_meta service_content shop_services shop_view"
    unfolding view shop_services_def
    by (rule memory_serves) (simp add: memory_fits_def set_svc_meta_def service_content_def)
  moreover have "refuses svc_meta shop_services shop_view" unfolding view shop_services_def by (rule memory_refuses)
  moreover have "renews svc_meta shop_services"
    unfolding shop_services_def by (rule memory_renews) (simp add: set_svc_meta_def)
  moreover have "isolated shop_configurations shop_view"
    unfolding shop_configurations_def by (rule memory_isolated) (simp add: shop_view_def)
  ultimately show ?thesis
    by (simp add: service_setup_def shop_reconciler_def shop_watches_def kservice_SetupWithManager_def)
qed

lemma shop_configurations_serve:
  "serves cfg_meta (\<lambda>c. ()) (kr_configurations shop_reconciler) (\<lambda>w. memory_find cfg_meta (snd w))"
  unfolding shop_reconciler_def kservice_reconciler.simps shop_configurations_def
  by (rule memory_serves) (simp add: memory_fits_def set_cfg_meta_def)

text \<open>A server of configurations that is down: the mirror still loses no change.\<close>

definition unavailable :: "(configuration, shop) kclient" where
  "unavailable =
     \<lparr>kc_get = (\<lambda>n w. Inl (OtherError ''unavailable'')), kc_create = (\<lambda>x w. (Inl (OtherError ''unavailable''), w)),
      kc_update = (\<lambda>x w. (Inl (OtherError ''unavailable''), w)), kc_delete = (\<lambda>x w. (Some (OtherError ''unavailable''), w))\<rparr>"

lemma down_setup:
  "service_setup (shop_reconciler\<lparr>kr_configurations := unavailable\<rparr>) shop_services shop_view shop_watches [''prod'']"
  using shop_setup by (simp add: service_setup_def isolated_def unavailable_def)

interpretation down: mirror_system svc_meta set_svc_meta "kservice_kindMerger ''http://cloud''" service_content
  "with_store (shop_reconciler\<lparr>kr_configurations := unavailable\<rparr>) store_new" shop_services shop_services shop_view KService
  shop_watches "[''prod'']"
  using service_system [OF down_setup, of store_new] by (simp add: shop_reconciler_def)

interpretation svcs: steady_system svc_meta set_svc_meta "kservice_kindMerger ''http://cloud''" service_content
  "with_store shop_reconciler store_new" shop_services shop_services shop_view KService shop_watches "[''prod'']"
  using service_steady [OF shop_setup shop_configurations_serve, of store_new] by (simp add: shop_reconciler_def)

section \<open>Properties\<close>

text \<open>An offloaded service in the cloud, an empty cluster, and the controller that has just started.\<close>

definition labelled_service :: service where
  "labelled_service = service_zero\<lparr>svc_meta := labelled_meta
     \<lparr>om_labels := mput EdgeOffloadLabel ''true'' (mput EnvironmentLabel ''prod'' None)\<rparr>\<rparr>"

definition shop_start :: "(service, shop) system" where
  "shop_start =
     \<lparr>sy_server = (\<lparr>my_objects = fmempty, my_writes = 0\<rparr>, \<lparr>my_objects = fmempty, my_writes = 0\<rparr>),
      sy_remote = [shop_app \<mapsto> labelled_service], sy_cache = (\<lambda>_. None), sy_stream = [],
      sy_notes = [(RemoteKind, CreateEvent (Some (KService labelled_service)))], sy_queue = newQueue, sy_worker = Idle\<rparr>"

lemma shop_starts: "starts svc_meta shop_view KService [''prod''] shop_start"
proof -
  have "shop_view (sy_server shop_start) = (\<lambda>n. None)"
    by (simp add: shop_view_def shop_start_def memory_find_def fun_eq_iff)
  moreover have "remote_fits svc_meta [''prod''] shop_app labelled_service"
    by (simp add: remote_fits_def labelled_service_def labelled_meta_def shop_app_def meta_zero_def
        meta_nsname_def selector_matches_def env_requirement_def mlookup_mput constant_defs)
  ultimately show ?thesis by (auto simp: starts_def shop_start_def)
qed

lemma service_steps:
  "(controller_step (with_store r st) view KService ws)\<^sup>*\<^sup>* s t \<Longrightarrow> (service_step r view ws envs)\<^sup>*\<^sup>* s t"
  by (rule rtranclp_mono [THEN predicate2D]) (auto simp: service_step_def system_step_def)





end
