(* ===== verification/ProxyServer.thy ===== *)
theory ProxyServer
  imports Prelude "HOL-Library.List_Lexorder"
begin

text \<open>
  cmd/proxy/main.go: the edge proxy, an HTTP handler that sends every request to the remote
  host. Header maps go from canonical names to lists of values. Parsing and printing of URLs
  (net/url), parsing of durations and the HTTP round trip are arguments.
\<close>

section \<open>net/http headers\<close>

text \<open>\<open>CanonicalHeaderKey\<close>: upper case after a dash and at the start, lower case elsewhere; other names stay.\<close>

definition upper_char :: "char \<Rightarrow> char" where
  "upper_char c = (let n = (of_char c :: nat) in if 97 \<le> n \<and> n \<le> 122 then char_of (n - 32) else c)"

fun canonical_chars :: "bool \<Rightarrow> string \<Rightarrow> string" where
  "canonical_chars upper [] = []"
| "canonical_chars upper (c # cs) =
     (if upper then upper_char c else to_lower_char c) # canonical_chars (c = CHR ''-'') cs"

definition token_char :: "char \<Rightarrow> bool" where
  "token_char c \<longleftrightarrow> (let n = (of_char c :: nat) in
     (48 \<le> n \<and> n \<le> 57) \<or> (65 \<le> n \<and> n \<le> 90) \<or> (97 \<le> n \<and> n \<le> 122) \<or> c \<in> set ''!#$%&*+-.^_|~'' \<or> n = 39 \<or> n = 96)"

definition canonical :: "string \<Rightarrow> string" where
  "canonical s = (if list_all token_char s then canonical_chars True s else s)"

type_synonym header = "(string, string list) fmap"

definition h_values :: "header \<Rightarrow> string \<Rightarrow> string list" where
  "h_values h k = (case fmlookup h (canonical k) of None \<Rightarrow> [] | Some vs \<Rightarrow> vs)"

definition h_get :: "header \<Rightarrow> string \<Rightarrow> string" where
  "h_get h k = (case h_values h k of [] \<Rightarrow> [] | v # _ \<Rightarrow> v)"

definition h_set :: "string \<Rightarrow> string \<Rightarrow> header \<Rightarrow> header" where
  "h_set k v h = fmupd (canonical k) [v] h"

definition h_add :: "string \<Rightarrow> string \<Rightarrow> header \<Rightarrow> header" where
  "h_add k v h = fmupd (canonical k) (h_values h k @ [v]) h"

definition h_del :: "string \<Rightarrow> header \<Rightarrow> header" where
  "h_del k h = fmdrop (canonical k) h"

text \<open>Adding all values of another header: the order of the keys does not matter.\<close>

definition h_add_all :: "header \<Rightarrow> header \<Rightarrow> header" where
  "h_add_all src h = fold (\<lambda>(k, vs) h'. fold (h_add k) vs h') (sorted_list_of_fmap src) h"

section \<open>Requests and responses\<close>

record purl =
  u_path :: string
  u_raw_query :: string
  u_fragment :: string
  u_rest :: string

record http_req =
  rq_method :: string
  rq_url :: purl
  rq_header :: header
  rq_body :: "string + string"
  rq_content_length :: int
  rq_host :: string
  rq_remote_addr :: string
  rq_proto :: string

datatype transport_error = DeadlineExceeded | TransportError string

record upstream_response =
  up_status :: int
  up_header :: header
  up_body :: string
  up_content_length :: int

record reply =
  rp_status :: int
  rp_header :: header
  rp_body :: string

definition StatusBadRequest :: int where "StatusBadRequest = 400"
definition StatusBadGateway :: int where "StatusBadGateway = 502"

text \<open>\<open>http.Error\<close> of the standard library.\<close>

definition http_Error :: "header \<Rightarrow> string \<Rightarrow> int \<Rightarrow> reply" where
  "http_Error headers message code =
     \<lparr>rp_status = code,
      rp_header = h_set ''X-Content-Type-Options'' ''nosniff'' (h_set ''Content-Type'' ''text/plain; charset=utf-8'' headers),
      rp_body = message @ [CHR 10]\<rparr>"

section \<open>handler\<close>

record proxy_config =
  pc_remote_url :: "purl option"
  pc_remote_host :: string
  pc_remote_proxy :: "purl option"
  pc_timeout :: int
  pc_logged_addr :: string
  pc_listen_addr :: string

definition dropHeaders :: "string list" where
  "dropHeaders = [''Transfer-Encoding'', ''x-envoy-upstream-service-time'']"

text \<open>The request that is sent on; \<open>Header\<close> is the header of the incoming request, changed in place.\<close>

definition remote_request :: "purl \<Rightarrow> string \<Rightarrow> http_req \<Rightarrow> string \<Rightarrow> http_req" where
  "remote_request remoteURL remoteHost r body =
     \<lparr>rq_method = rq_method r,
      rq_url = remoteURL\<lparr>u_path := u_path (rq_url r), u_raw_query := u_raw_query (rq_url r),
                         u_fragment := u_fragment (rq_url r)\<rparr>,
      rq_header = h_add ''X-Forwarded-Proto'' (rq_proto r)
        (h_add ''X-Forwarded-Host'' (rq_host r)
          (h_add ''X-Forwarded-For'' (rq_remote_addr r)
            (h_set ''Host'' remoteHost (rq_header r)))),
      rq_body = Inr body, rq_content_length = rq_content_length r, rq_host = remoteHost,
      rq_remote_addr = [], rq_proto = []\<rparr>"

text \<open>
  The reply, and the value of \<open>duration2\<close> in the log line. \<open>send\<close> is \<open>client.Do\<close> with the time
  it took, printed.
\<close>

definition handler ::
  "(purl \<Rightarrow> string) \<Rightarrow> (http_req \<Rightarrow> (transport_error + upstream_response) \<times> string) \<Rightarrow> proxy_config \<Rightarrow> http_req
    \<Rightarrow> reply \<times> string option"
where
  "handler url_string send cfg r =
     (let h0 = h_set ''x-knative-edge-proxy-url'' []
                 (h_set ''x-knative-edge-proxy'' ''true''
                   (h_set ''x-knative-edge-proxy-host'' (pc_remote_host cfg) fmempty))
      in case pc_remote_url cfg of
           None \<Rightarrow>
             (http_Error (h_add ''Content-Type'' ''text/plain'' h0) ''bad gateway: no remote url set'' StatusBadGateway, None)
         | Some remoteURL \<Rightarrow>
             let h1 = h_set ''x-knative-edge-proxy-url'' (url_string remoteURL) h0 in
             if pc_remote_host cfg = [] then
               (http_Error (h_add ''Content-Type'' ''text/plain'' h1) ''bad gateway: no remote host set'' StatusBadGateway, None)
             else
               (case rq_body r of
                  Inl err \<Rightarrow>
                    (http_Error (h_add ''Content-Type'' ''text/plain'' h1) (''failed to read body: '' @ err) StatusBadRequest, None)
                | Inr body \<Rightarrow>
                    (case send (remote_request remoteURL (pc_remote_host cfg) r body) of
                       (Inl err, duration) \<Rightarrow>
                         let h2 = h_add ''Content-Type'' ''text/plain'' (h_set ''x-knative-edge-proxy-duration'' duration h1) in
                         (case err of
                            DeadlineExceeded \<Rightarrow> (http_Error h2 ''bad gateway: couldn't proxy to remote'' StatusBadGateway, None)
                          | TransportError e \<Rightarrow> (http_Error h2 (''gateway error: '' @ e) StatusBadGateway, None))
                     | (Inr res, duration) \<Rightarrow>
                         let h2 = h_set ''x-knative-edge-proxy-duration'' duration h1;
                             h3 = h_set ''x-knative-edge-proxy-upstream''
                                    (h_get (up_header res) ''x-envoy-upstream-service-time'') h2;
                             resHeader = fold h_del dropHeaders (up_header res)
                         in (\<lparr>rp_status = up_status res, rp_header = h_add_all resHeader h3,
                              rp_body = (if 0 < up_content_length res
                                then take (nat (up_content_length res)) (up_body res) else up_body res)\<rparr>,
                             Some (h_get resHeader ''x-envoy-upstream-service-time'')))))"

section \<open>main\<close>

definition defaultAddr :: string where "defaultAddr = '':8080''"

text \<open>\<open>env\<close> is the environment, an unset variable is the empty string; a URL that does not parse is nil.\<close>

definition proxy_main ::
  "(string \<Rightarrow> purl option) \<Rightarrow> (string \<Rightarrow> int option) \<Rightarrow> (string \<Rightarrow> string) \<Rightarrow> proxy_config"
where
  "proxy_main parse_url parse_duration env =
     (let parsed = (\<lambda>s. if s \<noteq> [] then parse_url s else None);
          timeoutStr = env ''REMOTE_TIMEOUT'';
          addr = (if env ''BIND_ADDRESS'' = [] then defaultAddr else env ''BIND_ADDRESS'')
      in \<lparr>pc_remote_url = parsed (env ''REMOTE_URL''), pc_remote_host = env ''REMOTE_HOST'',
          pc_remote_proxy = parsed (env ''REMOTE_PROXY''),
          pc_timeout = (if timeoutStr = [] then 30 * second
                        else (case parse_duration timeoutStr of None \<Rightarrow> 30 * second | Some d \<Rightarrow> d)),
          pc_logged_addr = addr, pc_listen_addr = ''0.0.0.0:8080''\<rparr>)"

section \<open>Facts\<close>

lemma h_values_set: "h_values (h_set k v h) j = (if canonical j = canonical k then [v] else h_values h j)"
  by (simp add: h_values_def h_set_def)

lemma h_values_add: "h_values (h_add k v h) j = (if canonical j = canonical k then h_values h j @ [v] else h_values h j)"
  by (simp add: h_values_def h_add_def)

lemma h_values_del: "h_values (h_del k h) j = (if canonical j = canonical k then [] else h_values h j)"
  by (simp add: h_values_def h_del_def)

lemma h_values_fold_add:
  "h_values (fold (h_add k) vs h) j = (if canonical j = canonical k then h_values h j @ vs else h_values h j)"
  by (induction vs arbitrary: h) (simp_all add: h_values_add)

text \<open>A header whose keys are canonical, as the HTTP library delivers it.\<close>

definition canonical_header :: "header \<Rightarrow> bool" where
  "canonical_header h \<longleftrightarrow> fBall (fmdom h) (\<lambda>k. canonical k = k)"

lemma h_values_fold_pairs:
  assumes "distinct (map fst kvs)" "\<forall>k \<in> fst ` set kvs. canonical k = k"
  shows "h_values (fold (\<lambda>(k, vs) h'. fold (h_add k) vs h') kvs h) j =
    h_values h j @ (case map_of kvs (canonical j) of None \<Rightarrow> [] | Some vs \<Rightarrow> vs)"
  using assms
proof (induction kvs arbitrary: h)
  case (Cons kv kvs)
  obtain k vs where kv: "kv = (k, vs)" by (cases kv)
  have "map_of kvs k = None" using Cons.prems(1) by (simp add: kv map_of_eq_None_iff)
  then show ?case
    using Cons.IH [of "fold (h_add k) vs h"] Cons.prems by (auto simp: kv h_values_fold_add)
qed simp

lemma h_values_add_all:
  assumes "canonical_header src"
  shows "h_values (h_add_all src h) j = h_values h j @ h_values src j"
proof -
  have "distinct (map fst (sorted_list_of_fmap src))" "fst ` set (sorted_list_of_fmap src) = fset (fmdom src)"
    by (simp_all add: sorted_list_of_fmap_def comp_def image_image sorted_list_of_fset.rep_eq)
  then have "h_values (h_add_all src h) j =
      h_values h j @ (case map_of (sorted_list_of_fmap src) (canonical j) of None \<Rightarrow> [] | Some vs \<Rightarrow> vs)"
    using assms unfolding h_add_all_def by (intro h_values_fold_pairs) (simp_all add: canonical_header_def)
  then show ?thesis by (simp add: h_values_def [of src])
qed

lemma canonical_header_del: "canonical_header h \<Longrightarrow> canonical_header (h_del k h)"
  by (auto simp: canonical_header_def h_del_def)

lemma canonical_proxy_headers [simp]:
  "canonical ''x-knative-edge-proxy-host'' = ''X-Knative-Edge-Proxy-Host''"
  "canonical ''x-knative-edge-proxy'' = ''X-Knative-Edge-Proxy''"
  "canonical ''x-knative-edge-proxy-url'' = ''X-Knative-Edge-Proxy-Url''"
  "canonical ''x-knative-edge-proxy-duration'' = ''X-Knative-Edge-Proxy-Duration''"
  "canonical ''x-knative-edge-proxy-upstream'' = ''X-Knative-Edge-Proxy-Upstream''"
  "canonical ''Transfer-Encoding'' = ''Transfer-Encoding''"
  "canonical ''x-envoy-upstream-service-time'' = ''X-Envoy-Upstream-Service-Time''"
  "canonical ''Content-Type'' = ''Content-Type''" "canonical ''X-Content-Type-Options'' = ''X-Content-Type-Options''"
  "canonical ''X-Forwarded-Proto'' = ''X-Forwarded-Proto''" "canonical ''X-Forwarded-Host'' = ''X-Forwarded-Host''"
  "canonical ''X-Forwarded-For'' = ''X-Forwarded-For''" "canonical ''Host'' = ''Host''"
  by code_simp+

definition proxy_headers :: "string list" where
  "proxy_headers = [''X-Knative-Edge-Proxy-Host'', ''X-Knative-Edge-Proxy'', ''X-Knative-Edge-Proxy-Url'',
     ''X-Knative-Edge-Proxy-Duration'', ''X-Knative-Edge-Proxy-Upstream'']"

lemma handler_relays:
  assumes "pc_remote_url cfg = Some u" "pc_remote_host cfg \<noteq> []" "rq_body r = Inr body"
    and "send (remote_request u (pc_remote_host cfg) r body) = (Inr res, duration)"
    and "canonical_header (up_header res)"
    and "handler url_string send cfg r = (rp, logged)"
  shows "rp_status rp = up_status res"
    and "canonical j \<notin> set proxy_headers \<Longrightarrow> h_values (rp_header rp) j =
      (if canonical j \<in> {''Transfer-Encoding'', ''X-Envoy-Upstream-Service-Time''} then [] else h_values (up_header res) j)"
    and "logged = Some []"
    and "up_content_length res = - 1 \<or> up_content_length res = int (length (up_body res)) \<Longrightarrow> rp_body rp = up_body res"
proof -
  let ?h = "fold h_del dropHeaders (up_header res)"
  have h: "handler url_string send cfg r = (\<lparr>rp_status = up_status res,
      rp_header = h_add_all ?h (h_set ''x-knative-edge-proxy-upstream'' (h_get (up_header res) ''x-envoy-upstream-service-time'')
        (h_set ''x-knative-edge-proxy-duration'' duration (h_set ''x-knative-edge-proxy-url'' (url_string u)
          (h_set ''x-knative-edge-proxy-url'' [] (h_set ''x-knative-edge-proxy'' ''true''
            (h_set ''x-knative-edge-proxy-host'' (pc_remote_host cfg) fmempty)))))),
      rp_body = (if 0 < up_content_length res then take (nat (up_content_length res)) (up_body res) else up_body res)\<rparr>,
      Some (h_get ?h ''x-envoy-upstream-service-time''))"
    using assms(1-4) by (simp add: handler_def Let_def)
  have c: "canonical_header ?h"
    using assms(5) by (simp add: dropHeaders_def canonical_header_del)
  show "rp_status rp = up_status res" using h assms(6) by simp
  show "logged = Some []" using h assms(6) by (auto simp: h_get_def h_values_del dropHeaders_def)
  show "rp_body rp = up_body res"
    if "up_content_length res = - 1 \<or> up_content_length res = int (length (up_body res))"
    using h assms(6) that by auto
  show "h_values (rp_header rp) j =
      (if canonical j \<in> {''Transfer-Encoding'', ''X-Envoy-Upstream-Service-Time''} then [] else h_values (up_header res) j)"
    if "canonical j \<notin> set proxy_headers"
  proof -
    have e: "h_values fmempty j = []" by (simp add: h_values_def)
    have "rp_header rp = h_add_all ?h (h_set ''x-knative-edge-proxy-upstream'' (h_get (up_header res) ''x-envoy-upstream-service-time'')
        (h_set ''x-knative-edge-proxy-duration'' duration (h_set ''x-knative-edge-proxy-url'' (url_string u)
          (h_set ''x-knative-edge-proxy-url'' [] (h_set ''x-knative-edge-proxy'' ''true''
            (h_set ''x-knative-edge-proxy-host'' (pc_remote_host cfg) fmempty))))))"
      using h assms(6) by auto
    then show ?thesis
      using that by (simp add: h_values_add_all [OF c] h_values_set e proxy_headers_def) (simp add: h_values_del dropHeaders_def)
  qed
qed

text \<open>What the remote receives.\<close>

lemma remote_request_fields:
  "rq_method (remote_request u host r body) = rq_method r" "rq_host (remote_request u host r body) = host"
  "u_path (rq_url (remote_request u host r body)) = u_path (rq_url r)"
  "u_raw_query (rq_url (remote_request u host r body)) = u_raw_query (rq_url r)"
  "u_rest (rq_url (remote_request u host r body)) = u_rest u"
  "rq_body (remote_request u host r body) = Inr body"
  "h_values (rq_header (remote_request u host r body)) ''Host'' = [host]"
  "h_values (rq_header (remote_request u host r body)) ''X-Forwarded-For'' =
     h_values (rq_header r) ''X-Forwarded-For'' @ [rq_remote_addr r]"
  "canonical j \<notin> {''Host'', ''X-Forwarded-For'', ''X-Forwarded-Host'', ''X-Forwarded-Proto''} \<Longrightarrow>
     h_values (rq_header (remote_request u host r body)) j = h_values (rq_header r) j"
  by (simp_all add: remote_request_def h_values_add h_values_set)

lemma handler_bad_gateway:
  assumes "pc_remote_url cfg = None \<or> pc_remote_host cfg = []"
  shows "rp_status (fst (handler url_string send cfg r)) = 502"
  using assms by (auto simp: handler_def Let_def http_Error_def StatusBadGateway_def split: option.split)

lemma proxy_main_listens: "pc_listen_addr (proxy_main parse_url parse_duration env) = ''0.0.0.0:8080''"
  by (simp add: proxy_main_def Let_def)

end
