(* ===== verification/OffloadPath.thy ===== *)
theory OffloadPath
  imports KService ProxyServer
begin

text \<open>
  The path of a request that is sent to the cloud, across the components: the service controller
  merges the remote service and notes its address in two annotations, the configuration of the
  proxy passes them to the container as environment variables, and the proxy started with that
  environment sends every request there. The environment of a container is what Kubernetes
  makes of its specification; other variables are arbitrary.
\<close>

section \<open>The environment of the proxy\<close>

definition container_environment :: "(string \<Rightarrow> string) \<Rightarrow> container \<Rightarrow> string \<Rightarrow> string" where
  "container_environment base c name =
     (case map_of (map (\<lambda>e. (ev_name e, ev_value e)) (elems (ct_env c))) name of None \<Rightarrow> base name | Some v \<Rightarrow> v)"

text \<open>The first container of a configuration is the proxy.\<close>

definition configured_proxy ::
  "(string \<Rightarrow> purl option) \<Rightarrow> (string \<Rightarrow> int option) \<Rightarrow> (string \<Rightarrow> string) \<Rightarrow> configuration \<Rightarrow> proxy_config"
where
  "configured_proxy parse_url parse_duration base c =
     proxy_main parse_url parse_duration (container_environment base (hd (elems (rt_containers (cfg_template c)))))"

lemma build_containers_hd: "\<exists>c. hd (elems (build_containers r s xs)) = proxy_container r s c"
  by (auto simp: build_containers_def split: list.split)

lemma proxy_environment:
  "container_environment base (proxy_container r s c) ''REMOTE_URL'' = mget (om_annotations (svc_meta s)) RemoteUrlAnnotation"
  "container_environment base (proxy_container r s c) ''REMOTE_HOST'' = mget (om_annotations (svc_meta s)) RemoteHostAnnotation"
  "container_environment base (proxy_container r s c) ''REMOTE_PROXY'' = kr_http_proxy r"
  by (simp_all add: container_environment_def proxy_container_def)

lemma configured_proxy_fields:
  fixes parse_url :: "string \<Rightarrow> purl option"
  defines "parsed \<equiv> \<lambda>s. if s \<noteq> [] then parse_url s else None"
  shows "pc_remote_url (configured_proxy parse_url parse_duration base (buildConfiguration r n c s)) =
      parsed (mget (om_annotations (svc_meta s)) RemoteUrlAnnotation)"
    and "pc_remote_host (configured_proxy parse_url parse_duration base (buildConfiguration r n c s)) =
      mget (om_annotations (svc_meta s)) RemoteHostAnnotation"
    and "pc_remote_proxy (configured_proxy parse_url parse_duration base (buildConfiguration r n c s)) = parsed (kr_http_proxy r)"
proof -
  obtain c' where "hd (elems (rt_containers (cfg_template (buildConfiguration r n c s)))) = proxy_container r s c'"
    using build_containers_hd [of r s "rt_containers (cfg_template c)"] by (auto simp: buildConfiguration_def)
  then show "pc_remote_url (configured_proxy parse_url parse_duration base (buildConfiguration r n c s)) =
      parsed (mget (om_annotations (svc_meta s)) RemoteUrlAnnotation)"
    and "pc_remote_host (configured_proxy parse_url parse_duration base (buildConfiguration r n c s)) =
      mget (om_annotations (svc_meta s)) RemoteHostAnnotation"
    and "pc_remote_proxy (configured_proxy parse_url parse_duration base (buildConfiguration r n c s)) = parsed (kr_http_proxy r)"
    by (simp_all add: configured_proxy_def proxy_main_def Let_def proxy_environment parsed_def)
qed

section \<open>The annotations of the merged service\<close>

text \<open>A remote service that carries the two annotations itself would pass its own on.\<close>

definition addressless :: "service \<Rightarrow> bool" where
  "addressless s \<longleftrightarrow> mlookup (om_annotations (svc_meta s)) RemoteUrlAnnotation = None \<and>
     mlookup (om_annotations (svc_meta s)) RemoteHostAnnotation = None"

lemma merged_address:
  assumes "addressless src"
  shows "mget (om_annotations (svc_meta (kservice_kindMerger url src dst))) RemoteUrlAnnotation = url"
    and "svc_url_host src = Some host \<Longrightarrow>
      mget (om_annotations (svc_meta (kservice_kindMerger url src dst))) RemoteHostAnnotation = host"
proof -
  have "fmlookup (mmake (om_annotations (svc_meta src))) k = mlookup (om_annotations (svc_meta src)) k" for k
    by (cases "om_annotations (svc_meta src)") (simp_all add: mmake_def)
  then have none: "fmlookup (fmfilter copied_annotation (mmake (om_annotations (svc_meta src)))) RemoteUrlAnnotation = None"
    "fmlookup (fmfilter copied_annotation (mmake (om_annotations (svc_meta src)))) RemoteHostAnnotation = None"
    using assms by (simp_all add: addressless_def)
  have mm: "fmlookup (mmake (mput k v m)) k' = (if k' = k then Some v else mlookup m k')" for k v m k'
    using mlookup_mput [of k v m k'] by (simp add: mput_def mmake_def)
  show "mget (om_annotations (svc_meta (kservice_kindMerger url src dst))) RemoteUrlAnnotation = url"
    using none by (simp add: kservice_kindMerger_def merge_annotations_def Let_def mget_def mm fmlookup_dom_iff)
  show "mget (om_annotations (svc_meta (kservice_kindMerger url src dst))) RemoteHostAnnotation = host"
    if "svc_url_host src = Some host"
    using none that by (simp add: kservice_kindMerger_def merge_annotations_def Let_def mget_def mm fmlookup_dom_iff)
qed

section \<open>Properties\<close>


text \<open>A remote service, the controller that mirrors it, and a cloud that knows one host.\<close>

definition hello_service :: service where
  "hello_service = service_zero\<lparr>svc_meta := meta_zero\<lparr>om_name := ''hello'', om_namespace := ''shop''\<rparr>,
     svc_url_host := Some ''hello.cloud''\<rparr>"

definition hello_reconciler :: "unit kservice_reconciler" where
  "hello_reconciler =
     \<lparr>kr_client = None, kr_remote = None,
      kr_configurations = \<lparr>kc_get = \<lambda>n w. Inl NotFound, kc_create = \<lambda>x w. (Inl Conflict, w),
        kc_update = \<lambda>x w. (Inl Conflict, w), kc_delete = \<lambda>x w. (None, w)\<rparr>,
      kr_remote_url = ''http://cloud'', kr_proxy_image = ''proxy'', kr_http_proxy = [], kr_envs = None, kr_store = store_new\<rparr>"

definition hello_request :: http_req where
  "hello_request = \<lparr>rq_method = ''GET'', rq_url = \<lparr>u_path = ''/'', u_raw_query = [], u_fragment = [], u_rest = []\<rparr>,
     rq_header = fmempty, rq_body = Inr [], rq_content_length = 0, rq_host = ''hello.shop'', rq_remote_addr = ''10.0.0.1:1'',
     rq_proto = ''HTTP/1.1''\<rparr>"

definition cloud_network :: "http_req \<Rightarrow> (transport_error + upstream_response) \<times> string" where
  "cloud_network q =
     (if u_rest (rq_url q) = ''http://cloud'' \<and> rq_host q = ''hello.cloud''
      then (Inr \<lparr>up_status = 204, up_header = fmempty, up_body = [], up_content_length = 0\<rparr>, ''1ms'')
      else (Inl DeadlineExceeded, ''30s''))"

definition rest_url :: "string \<Rightarrow> purl option" where
  "rest_url s = Some \<lparr>u_path = [], u_raw_query = [], u_fragment = [], u_rest = s\<rparr>"


end
