(* ===== verification/UsageTypes.thy ===== *)
theory UsageTypes
  imports PromStrategy
begin

text \<open>
  The types of the usage that the strategy collects: every entry is filed under its own name and
  every number in it is a float32, every value of a series a finite one. The lemmas take this
  through the operations of the collection to the result of \<open>Execute\<close>; at the end is the JSON form
  of the usage of a service (\<open>MarshalJSON\<close> of kservice.go), which exists exactly when the numbers
  allow it.
\<close>

section \<open>Well-typed usage\<close>

definition metric_typed :: "usage_metric \<Rightarrow> bool" where
  "metric_typed m \<longleftrightarrow> f32_ok (um_percentage m)"

definition node_typed :: "string \<Rightarrow> node_usage \<Rightarrow> bool" where
  "node_typed k n \<longleftrightarrow> nu_name n = k \<and> metric_typed (nu_cpu n) \<and> metric_typed (nu_memory n)"

definition pod_typed :: "string \<Rightarrow> pod_usage \<Rightarrow> bool" where
  "pod_typed k p \<longleftrightarrow> usage_key (pu_name p) (pu_namespace p) = k \<and>
     metric_typed (pu_cpu p) \<and> metric_typed (pu_memory p) \<and> metric_typed (pu_storage p)"

definition service_typed :: "string \<Rightarrow> kservice_usage \<Rightarrow> bool" where
  "service_typed k s \<longleftrightarrow> usage_key (ku_name s) (ku_namespace s) = k \<and>
     metric_typed (ku_cpu s) \<and> metric_typed (ku_memory s) \<and>
     list_all f32_ok [ku_latency s, ku_soft_limit s, ku_hard_limit s, ku_decay s, ku_target s] \<and>
     (case ku_latencies s of None \<Rightarrow> True | Some ls \<Rightarrow> list_all (\<lambda>l. ffinite l \<and> f32_ok l) ls)"

definition typed_usage :: "cluster_usage \<Rightarrow> bool" where
  "typed_usage c \<longleftrightarrow> metric_typed (cu_cpu c) \<and> metric_typed (cu_memory c) \<and>
     fmpred node_typed (cu_nodes c) \<and> fmpred pod_typed (cu_pods c) \<and> fmpred service_typed (cu_services c)"

section \<open>The operations keep the types\<close>

lemma metric_typed_zero [simp]: "metric_typed metric_zero"
  by (simp add: metric_typed_def metric_zero_def)

lemma metric_typed_update [simp]:
  "metric_typed (m\<lparr>um_usage := u\<rparr>) = metric_typed m" "metric_typed (m\<lparr>um_capacity := u\<rparr>) = metric_typed m"
  by (simp_all add: metric_typed_def)

lemma metric_typed_computed [simp]:
  "metric_typed (node_percentage m)" "metric_typed m \<Longrightarrow> metric_typed (metric_finalize m)"
  "metric_typed m \<Longrightarrow> metric_typed (capacity_set u m)"
  by (simp_all add: metric_typed_def node_percentage_def metric_finalize_def capacity_set_def percent_of_def f32_ok_fmul)

lemma fmpred_upd_at: "fmpred Q m \<Longrightarrow> (\<And>v. Q k v \<Longrightarrow> Q k (f v)) \<Longrightarrow> fmpred Q (upd_at k f m)"
  by (auto simp: fmpred_iff edge_simps split: if_splits)

lemma typed_new: "typed_usage NewClusterUsage"
  by (simp add: typed_usage_def NewClusterUsage_def)

lemma typed_AddNode:
  assumes "typed_usage c"
  shows "typed_usage (AddNode n c)"
proof -
  have "node_typed (nd_name n) (node_UpdateMemoryCapacity (Some (nd_memory n))
      (node_UpdateCpuCapacity (Some (nd_cpu n)) (node_usage_new (nd_name n))))"
    by (simp add: node_typed_def node_UpdateMemoryCapacity_def node_UpdateCpuCapacity_def node_usage_new_def)
  then show ?thesis
    using assms by (auto simp: AddNode_def typed_usage_def Let_def intro: fmpred_upd split: option.split)
qed

lemma node_typed_usage: "node_typed k n \<Longrightarrow> node_typed k (node_UpdateMemoryUsage q (node_UpdateCpuUsage q' n))"
  by (simp add: node_typed_def node_UpdateMemoryUsage_def node_UpdateCpuUsage_def split: option.split)

lemma typed_UpdateNodeMetrics:
  assumes "typed_usage c"
  shows "typed_usage (UpdateNodeMetrics nm c)"
proof -
  have "typed_usage (d\<lparr>cu_nodes := upd_at k (\<lambda>n. node_UpdateMemoryUsage q (node_UpdateCpuUsage q' n)) (cu_nodes d)\<rparr>)"
    if "typed_usage d" for d k q q'
    using that node_typed_usage by (simp add: typed_usage_def fmpred_upd_at)
  then show ?thesis
    unfolding UpdateNodeMetrics_def Let_def using typed_AddNode [OF assms] by blast
qed

lemma node_typed_finalize: "node_typed k n \<Longrightarrow> node_typed k (node_finalize n)"
  unfolding node_typed_def node_finalize_def by simp

lemma typed_FinalizeNodeMetrics: "typed_usage c \<Longrightarrow> typed_usage (FinalizeNodeMetrics c)"
  by (auto simp: FinalizeNodeMetrics_def typed_usage_def fmpred_iff node_typed_finalize)

lemma typed_AddKService:
  assumes "typed_usage c"
  shows "typed_usage (AddKService n ns c)"
proof -
  have "service_typed (usage_key n ns) (kservice_new n ns)"
    by (simp add: service_typed_def kservice_new_def)
  then show ?thesis
    using assms by (auto simp: AddKService_def typed_usage_def Let_def intro: fmpred_upd split: option.split)
qed

lemma typed_service_update:
  assumes "typed_usage c" "\<And>s. service_typed k s \<Longrightarrow> service_typed k (f s)"
  shows "typed_usage (c\<lparr>cu_services := upd_at k f (cu_services c)\<rparr>)"
  using assms by (auto simp: typed_usage_def intro!: fmpred_upd_at)

lemma typed_AddPod:
  assumes "typed_usage c"
  shows "typed_usage (AddPod p c)"
proof -
  have "pod_typed (usage_key (pd_name p) (pd_namespace p)) (pod_usage_new p)"
    by (simp add: pod_typed_def pod_usage_new_def)
  then have "typed_usage (c\<lparr>cu_pods := fmupd (usage_key (pd_name p) (pd_namespace p)) (pod_usage_new p) (cu_pods c)\<rparr>)"
    using assms by (auto simp: typed_usage_def intro: fmpred_upd)
  then show ?thesis
    using assms by (auto simp: AddPod_def Let_def service_typed_def split: option.split
        intro!: typed_service_update typed_AddKService)
qed

lemma pod_typed_containers: "pod_typed k p \<Longrightarrow> pod_typed k (fold add_container cts p)"
  by (rule fold_inv [where P = "pod_typed k"])
    (simp_all add: pod_typed_def add_container_def pod_UpdateStorageUsage_def pod_UpdateMemoryUsage_def pod_UpdateCpuUsage_def)

lemma typed_UpdatePodMetrics: "typed_usage c \<Longrightarrow> typed_usage (UpdatePodMetrics pm c)"
  using typed_AddPod [of c "\<lparr>pd_name = pm_name pm, pd_namespace = pm_namespace pm, pd_nominated = [], pd_node_name = [], pd_labels = None\<rparr>"]
  by (auto simp: UpdatePodMetrics_def typed_usage_def Let_def intro!: fmpred_upd_at pod_typed_containers)

lemma typed_FinalizePodMetrics: "typed_usage c \<Longrightarrow> typed_usage (FinalizePodMetrics c)"
  by (auto simp: FinalizePodMetrics_def typed_usage_def pod_finalize_def pod_typed_def pod_UpdateMemoryCapacity_def
      pod_UpdateCpuCapacity_def fmpred_iff split: option.split)

lemma typed_add_series:
  assumes "typed_usage c"
  shows "typed_usage (add_series d c)"
proof -
  have "list_all (\<lambda>l. ffinite l \<and> f32_ok l) (ratio_loop ds None)" for ds
    using ratio_loop_finite [of None ds] ratio_loop_ok [of None ds] by (simp add: list_all_iff)
  then show ?thesis
    using assms by (auto simp: add_series_def Let_def service_typed_def UpdateWithPercentileRatio_def
        intro!: typed_service_update typed_AddKService)
qed

lemma typed_FinalizeKServiceMetrics: "typed_usage c \<Longrightarrow> typed_usage (cluster_FinalizeKServiceMetrics c)"
  by (auto simp: cluster_FinalizeKServiceMetrics_def typed_usage_def cluster_finalize_service_def service_typed_def
      fmpred_iff)

lemma typed_FinalizeClusterMetrics: "typed_usage c \<Longrightarrow> typed_usage (FinalizeClusterMetrics c)"
  by (simp add: FinalizeClusterMetrics_def typed_usage_def Let_def)

interpretation typed: executed_usage typed_usage
  by unfold_locales
    (simp_all add: typed_new typed_AddNode typed_UpdateNodeMetrics typed_FinalizeNodeMetrics typed_AddPod
      typed_UpdatePodMetrics typed_FinalizePodMetrics typed_add_series typed_FinalizeKServiceMetrics
      typed_FinalizeClusterMetrics)

section \<open>Results\<close>

lemma latency_loop_typed: "f32_ok (la_latency a) \<Longrightarrow> f32_ok (la_latency (latency_loop d ls a))"
  by (induction d ls a rule: latency_loop.induct)
    (auto simp: latency_add_def f32_ok_fadd f32_ok_fmul split: option.split)

lemma service_typed_finalize:
  assumes "service_typed k s"
  shows "service_typed k (kservice_finalize s)"
  using assms latency_loop_typed [of latency_init]
  by (auto simp: kservice_finalize_def service_typed_def latency_init_def Let_def f32_ok_fdiv split: option.splits)

lemma service_typed_UpdateWithKService:
  assumes "service_typed k s"
  shows "service_typed k (UpdateWithKService service s)"
proof -
  have "f32_ok LatencyRatioTargetDefault" "f32_ok LatencyRatioSoftLimitDefault" "f32_ok LatencyRatioHardLimitDefault"
      "f32_ok LatencyRatioDecayDefault"
    using repr_quarter [of 7] repr_quarter [of 3] repr_int [of 1] repr_int [of 4]
    by (simp_all add: LatencyRatioTargetDefault_def LatencyRatioSoftLimitDefault_def LatencyRatioHardLimitDefault_def
        LatencyRatioDecayDefault_def f32_ok_def)
  then show ?thesis
    using assms by (simp add: service_typed_def UpdateWithKService_def Let_def annotation_float_ok)
qed

definition typed_state :: "prom_strategy \<Rightarrow> bool" where
  "typed_state s \<longleftrightarrow> (\<forall>c. ps_cluster s = Some c \<longrightarrow> typed_usage c)"

lemma typed_results_loop:
  "results_loop cv alias services s = Done (rs, s') \<Longrightarrow> typed_state s \<Longrightarrow> typed_state s'"
proof (induction services arbitrary: s rs)
  case (Cons service ss)
  obtain c where c: "ps_cluster s = Some c" using Cons.prems(1) by (cases "ps_cluster s") simp_all
  let ?k = "nsname_str (service_nsname service)"
  show ?case
  proof (cases "fmlookup (cu_services c) ?k")
    case None
    then show ?thesis using Cons c by (auto simp: bind_go_Done_iff Let_def)
  next
    case (Some u)
    let ?u = "kservice_finalize (UpdateWithKService service u)"
    let ?s = "s\<lparr>ps_cluster := Some (c\<lparr>cu_services := fmupd ?k ?u (cu_services c)\<rparr>)\<rparr>"
    obtain rs1 where rest: "results_loop cv alias ss ?s = Done (rs1, s')"
      using Cons.prems(1) c Some by (auto simp: bind_go_Done_iff Let_def)
    have typed: "typed_usage c" using Cons.prems(2) c by (simp add: typed_state_def)
    then have "service_typed ?k u" using Some by (auto simp: typed_usage_def fmpred_iff)
    then have "service_typed ?k ?u" by (intro service_typed_finalize service_typed_UpdateWithKService)
    then have "typed_state ?s"
      using typed by (auto simp: typed_state_def typed_usage_def intro: fmpred_upd)
    then show ?thesis by (rule Cons.IH [OF rest])
  qed
qed simp

text \<open>
  C20. The usage that the strategy keeps is well typed: whatever the node, pod and metrics lists
  and the Prometheus answers were, after an execution every node, pod and service is filed under
  its own name, every number is a float32 and every value of a series a finite one; turning the
  usage into results keeps this.
\<close>

theorem usage_is_typed:
  assumes "typed_state s"
  shows "(Execute src s w = Done (e, s', w') \<longrightarrow> typed_state s') \<and>
    (GetResults cv services s = Done (rs, s'') \<longrightarrow> typed_state s'')"
proof -
  have "typed_state s'" if "Execute src s w = Done (e, s', w')"
  proof (cases e)
    case None
    then show ?thesis using typed.Execute_keeps [of src s w s' w'] that by (auto simp: typed_state_def)
  next
    case (Some x)
    then show ?thesis using Execute_error_keeps [of src s w x s' w'] that assms by simp
  qed
  moreover have "typed_state s''" if "GetResults cv services s = Done (rs, s'')"
    using that assms typed_results_loop by (auto simp: GetResults_def split: if_splits)
  ultimately show ?thesis by blast
qed

text \<open>A usage with one service, whose series has two values.\<close>

definition web_usage :: cluster_usage where
  "web_usage = add_series \<lparr>md_metric = Some (fmap_of_list [(''service_name'', ''web''), (''namespace_name'', ''shop'')]),
     md_data = [\<lparr>mv_timestamp = ''1'', mv_value = ''2.5''\<rparr>, \<lparr>mv_timestamp = ''2'', mv_value = ''NaN''\<rparr>]\<rparr> NewClusterUsage"

theorem usage_is_typed_witness:
  "\<exists>rs s'. GetResults (\<lambda>x. 0) [service_zero] \<lparr>ps_cluster = Some web_usage\<rparr> = Done (rs, s') \<and> typed_state s'"
proof -
  have "typed_state \<lparr>ps_cluster = Some web_usage\<rparr>"
    using typed_add_series [OF typed_new] by (simp add: typed_state_def web_usage_def)
  moreover obtain rs s' where "GetResults (\<lambda>x. 0) [service_zero] \<lparr>ps_cluster = Some web_usage\<rparr> = Done (rs, s')"
    by (cases "fmlookup (cu_services web_usage) (nsname_str (service_nsname service_zero))")
      (auto simp: GetResults_def Let_def)
  ultimately show ?thesis
    using usage_is_typed [of "\<lparr>ps_cluster = Some web_usage\<rparr>" undefined "()" None _ "()" "\<lambda>x. 0" "[service_zero]" rs s'] by blast
qed

section \<open>MarshalJSON\<close>

text \<open>
  The object that is marshalled: a number that is not one is left out, and the values of the
  series are made finite. \<open>json.Marshal\<close> has no form for infinities and NaN.
\<close>

definition MaxFloat32 :: f32 where
  "MaxFloat32 = F_Fin ((2 ^ 24 - 1) * 2 ^ 104)"

record kservice_json =
  kj_name :: string
  kj_namespace :: string
  kj_cpu :: usage_metric
  kj_cpu_pressure :: pressure
  kj_memory :: usage_metric
  kj_memory_pressure :: pressure
  kj_numbers :: "(string \<times> f32 option) list"
  kj_latencies :: "f32 list option"

definition unless_nan :: "f32 \<Rightarrow> f32 option" where
  "unless_nan x = (if fis_nan x then None else Some x)"

definition json_latency :: "f32 \<Rightarrow> f32" where
  "json_latency l =
     (let latency = (if l = F_Inf True then fneg MaxFloat32 else if l = F_Inf False then MaxFloat32 else l)
      in if fis_nan latency then F_Fin 85428 else latency)"

definition json_ok :: "kservice_json \<Rightarrow> bool" where
  "json_ok j \<longleftrightarrow>
     ffinite (um_percentage (kj_cpu j)) \<and> ffinite (um_percentage (kj_memory j)) \<and>
     list_all (\<lambda>p. case snd p of None \<Rightarrow> True | Some x \<Rightarrow> ffinite x) (kj_numbers j) \<and>
     (case kj_latencies j of None \<Rightarrow> True | Some ls \<Rightarrow> list_all ffinite ls)"

definition MarshalJSON :: "kservice_usage \<Rightarrow> string + kservice_json" where
  "MarshalJSON s =
     (let obj = \<lparr>kj_name = ku_name s, kj_namespace = ku_namespace s, kj_cpu = ku_cpu s, kj_cpu_pressure = ku_cpu_pressure s,
            kj_memory = ku_memory s, kj_memory_pressure = ku_memory_pressure s,
            kj_numbers = [(''RequestLatency'', unless_nan (ku_latency s)),
              (''RequestLatencySoftLimit'', unless_nan (ku_soft_limit s)),
              (''RequestLatencyHardLimit'', unless_nan (ku_hard_limit s)),
              (''RequestLatencyDecay'', unless_nan (ku_decay s)),
              (''RequestLatencyTarget'', unless_nan (ku_target s))],
            kj_latencies = map_option (map json_latency) (ku_latencies s)\<rparr>
      in if json_ok obj then Inr obj else Inl ''json: unsupported value'')"

lemma json_latency_finite: "ffinite (json_latency l)"
  by (cases l) (auto simp: json_latency_def MaxFloat32_def ffinite_def Let_def)

lemma json_latency_id: "ffinite l \<Longrightarrow> json_latency l = l"
  by (cases l) (auto simp: json_latency_def ffinite_def Let_def)

text \<open>The usage of a service has a JSON form unless one of its own numbers is infinite, or a share is not finite.\<close>

lemma MarshalJSON_fails_iff:
  "isl (MarshalJSON s) \<longleftrightarrow>
     \<not> ffinite (um_percentage (ku_cpu s)) \<or> \<not> ffinite (um_percentage (ku_memory s)) \<or>
     list_ex fis_inf [ku_latency s, ku_soft_limit s, ku_hard_limit s, ku_decay s, ku_target s]"
proof -
  have number: "(case unless_nan x of None \<Rightarrow> True | Some y \<Rightarrow> ffinite y) \<longleftrightarrow> \<not> fis_inf x" for x
    by (cases x) (simp_all add: unless_nan_def)
  have series: "list_all ffinite (map json_latency ls)" for ls
    by (simp add: list_all_iff json_latency_finite)
  show ?thesis
    by (cases "ku_latencies s") (simp_all add: MarshalJSON_def Let_def json_ok_def number series)
qed

end
