(* ===== verification/GoFlag.thy ===== *)
theory GoFlag
  imports Prelude
begin

text \<open>
  Package flag, as far as the mains use it: \<open>flag.StringVar\<close> declares a variable with a default,
  \<open>flag.Parse\<close> reads the arguments and ends the process on an error (\<open>flag.CommandLine\<close> has
  \<open>ExitOnError\<close>). Flags that libraries declare (logging, kubeconfig) are the argument \<open>lib\<close>. The
  outcome of a process that may end early is a \<open>process\<close>.
\<close>

section \<open>Processes\<close>

datatype 'a process = Running 'a | Exited nat | Crashed string

fun bind_process :: "'a process \<Rightarrow> ('a \<Rightarrow> 'b process) \<Rightarrow> 'b process" where
  "bind_process (Running x) f = f x"
| "bind_process (Exited n) f = Exited n"
| "bind_process (Crashed e) f = Crashed e"

fun process_of :: "'a go \<Rightarrow> 'a process" where
  "process_of (Done x) = Running x"
| "process_of (Panicked e) = Crashed e"

lemma bind_process_Running_iff: "bind_process p f = Running z \<longleftrightarrow> (\<exists>x. p = Running x \<and> f x = Running z)"
  by (cases p) auto

lemma process_of_iff [simp]:
  "process_of x = Running y \<longleftrightarrow> x = Done y" "process_of x = Crashed e \<longleftrightarrow> x = Panicked e" "process_of x \<noteq> Exited n"
  by (cases x; simp)+

section \<open>Arguments\<close>

datatype flag_token = Operand | Terminator | BadFlag | Flag string "string option"

definition flag_token :: "string \<Rightarrow> flag_token" where
  "flag_token s =
     (if length s < 2 \<or> hd s \<noteq> CHR ''-'' then Operand
      else if s = ''--'' then Terminator
      else let name = (if s ! 1 = CHR ''-'' then drop 2 s else drop 1 s) in
           if name = [] \<or> hd name = CHR ''-'' \<or> hd name = CHR ''='' then BadFlag
           else if CHR ''='' \<in> set name
           then Flag (takeWhile (\<lambda>c. c \<noteq> CHR ''='') name) (Some (tl (dropWhile (\<lambda>c. c \<noteq> CHR ''='') name)))
           else Flag name None)"

text \<open>A flag of a library: whether it is boolean, and which values it accepts.\<close>

record library_flag =
  lf_bool :: bool
  lf_accepts :: "string \<Rightarrow> bool"

fun flag_Parse :: "(string \<Rightarrow> library_flag option) \<Rightarrow> smap \<Rightarrow> string list \<Rightarrow> smap process" where
  "flag_Parse lib vars [] = Running vars"
| "flag_Parse lib vars (s # args) =
     (case flag_token s of
        Operand \<Rightarrow> Running vars
      | Terminator \<Rightarrow> Running vars
      | BadFlag \<Rightarrow> Exited 2
      | Flag name value \<Rightarrow>
          (case fmlookup vars name of
             Some _ \<Rightarrow>
               (case value of
                  Some v \<Rightarrow> flag_Parse lib (fmupd name v vars) args
                | None \<Rightarrow>
                    (case args of [] \<Rightarrow> Exited 2 | v # rest \<Rightarrow> flag_Parse lib (fmupd name v vars) rest))
           | None \<Rightarrow>
               (case lib name of
                  None \<Rightarrow> Exited (if name = ''help'' \<or> name = ''h'' then 0 else 2)
                | Some f \<Rightarrow>
                    if lf_bool f then
                      (if lf_accepts f (case value of Some v \<Rightarrow> v | None \<Rightarrow> ''true'') then flag_Parse lib vars args else Exited 2)
                    else
                      (case value of
                         Some v \<Rightarrow> if lf_accepts f v then flag_Parse lib vars args else Exited 2
                       | None \<Rightarrow>
                           (case args of
                              [] \<Rightarrow> Exited 2
                            | v # rest \<Rightarrow> if lf_accepts f v then flag_Parse lib vars rest else Exited 2)))))"

section \<open>Facts\<close>

definition plain_name :: "string \<Rightarrow> bool" where
  "plain_name n \<longleftrightarrow> n \<noteq> [] \<and> hd n \<noteq> CHR ''-'' \<and> CHR ''='' \<notin> set n"

lemma flag_token_plain:
  assumes "plain_name n"
  shows "flag_token (''--'' @ n) = Flag n None"
  using assms by (cases n) (auto simp: flag_token_def plain_name_def)

text \<open>A declared string flag takes the next argument, whatever it is.\<close>

lemma flag_Parse_string:
  assumes "plain_name n" "fmlookup vars n \<noteq> None"
  shows "flag_Parse lib vars ((''--'' @ n) # v # args) = flag_Parse lib (fmupd n v vars) args"
  using assms by (auto simp: flag_token_plain simp del: append.simps)

text \<open>Pairs of declared flags and values are all read, the last one of a name winning.\<close>

fun flag_args :: "(string \<times> string) list \<Rightarrow> string list" where
  "flag_args [] = []"
| "flag_args ((n, v) # nvs) = (''--'' @ n) # v # flag_args nvs"

fun assign_all :: "(string \<times> string) list \<Rightarrow> smap \<Rightarrow> smap" where
  "assign_all [] m = m"
| "assign_all ((n, v) # nvs) m = assign_all nvs (fmupd n v m)"

lemma flag_Parse_args:
  assumes "\<And>n v. (n, v) \<in> set nvs \<Longrightarrow> plain_name n \<and> fmlookup vars n \<noteq> None"
  shows "flag_Parse lib vars (flag_args nvs) = Running (assign_all nvs vars)"
  using assms
proof (induction nvs arbitrary: vars)
  case (Cons nv nvs)
  obtain n v where nv: "nv = (n, v)" by (cases nv)
  have "plain_name n" "fmlookup vars n \<noteq> None" using Cons.prems [of n v] nv by simp_all
  moreover have "flag_Parse lib (fmupd n v vars) (flag_args nvs) = Running (assign_all nvs (fmupd n v vars))"
    using Cons.prems by (intro Cons.IH) (force simp: nv)
  ultimately show ?case
    unfolding nv flag_args.simps assign_all.simps by (intro trans [OF flag_Parse_string])
qed simp

end
