(* ===== verification/Managers.thy ===== *)
theory Managers
  imports GoFlag
begin

text \<open>
  What both commands do with controller-runtime: the options of the manager, \<open>Options.AndFrom\<close>
  that fills them from a configuration, and the steps of a start, each of which may be refused and
  then ends the process.
\<close>

section \<open>Options of the manager\<close>

datatype new_cache = DefaultCache | ManagedScopedCache | MultiNamespacedCache "string list"

record manager_options =
  mo_scheme :: bool
  mo_metrics :: string
  mo_probe :: string
  mo_readiness :: string
  mo_liveness :: string
  mo_leader_election :: bool
  mo_leader_id :: string
  mo_leader_lock :: string
  mo_leader_namespace :: string
  mo_release_on_cancel :: bool
  mo_lease_duration :: "int option"
  mo_renew_deadline :: "int option"
  mo_retry_period :: "int option"
  mo_port :: int
  mo_host :: string
  mo_cert_dir :: string
  mo_namespace :: string
  mo_sync_period :: "int option"
  mo_cache :: new_cache
  mo_cache_sync_timeout :: "int option"
  mo_concurrency :: "(string, int) fmap"

definition manager_options_zero :: manager_options where
  "manager_options_zero = \<lparr>mo_scheme = False, mo_metrics = [], mo_probe = [], mo_readiness = [], mo_liveness = [],
     mo_leader_election = False, mo_leader_id = [], mo_leader_lock = [], mo_leader_namespace = [],
     mo_release_on_cancel = False, mo_lease_duration = None, mo_renew_deadline = None, mo_retry_period = None,
     mo_port = 0, mo_host = [], mo_cert_dir = [], mo_namespace = [], mo_sync_period = None, mo_cache = DefaultCache,
     mo_cache_sync_timeout = None, mo_concurrency = fmempty\<rparr>"

section \<open>ControllerManagerConfigurationSpec\<close>

record leader_election =
  le_elect :: "bool option"
  le_lock :: string
  le_namespace :: string
  le_name :: string
  le_lease :: int
  le_renew :: int
  le_retry :: int

record controller_spec =
  ct_sync_timeout :: "int option"
  ct_concurrency :: "(string, int) fmap"

record config_spec =
  cs_sync_period :: "int option"
  cs_leader_election :: "leader_election option"
  cs_cache_namespace :: string
  cs_controller :: "controller_spec option"
  cs_metrics :: string
  cs_probe :: string
  cs_readiness :: string
  cs_liveness :: string
  cs_port :: "int option"
  cs_host :: string
  cs_cert_dir :: string

definition config_spec_zero :: config_spec where
  "config_spec_zero = \<lparr>cs_sync_period = None, cs_leader_election = None, cs_cache_namespace = [], cs_controller = None,
     cs_metrics = [], cs_probe = [], cs_readiness = [], cs_liveness = [], cs_port = None, cs_host = [], cs_cert_dir = []\<rparr>"

section \<open>AndFrom\<close>

definition if_empty :: "string \<Rightarrow> string \<Rightarrow> string" where
  "if_empty old new = (if old = [] \<and> new \<noteq> [] then new else old)"

definition if_none :: "'a option \<Rightarrow> 'a option \<Rightarrow> 'a option" where
  "if_none old new = (if old = None \<and> new \<noteq> None then new else old)"

definition given_duration :: "int \<Rightarrow> int option" where
  "given_duration d = (if d = 0 then None else Some d)"

definition setLeaderElectionConfig :: "manager_options \<Rightarrow> config_spec \<Rightarrow> manager_options" where
  "setLeaderElectionConfig o1 obj =
     (case cs_leader_election obj of
        None \<Rightarrow> o1
      | Some l \<Rightarrow> o1\<lparr>
          mo_leader_election := (if \<not> mo_leader_election o1 \<and> le_elect l \<noteq> None then the (le_elect l) else mo_leader_election o1),
          mo_leader_lock := if_empty (mo_leader_lock o1) (le_lock l),
          mo_leader_namespace := if_empty (mo_leader_namespace o1) (le_namespace l),
          mo_leader_id := if_empty (mo_leader_id o1) (le_name l),
          mo_lease_duration := if_none (mo_lease_duration o1) (given_duration (le_lease l)),
          mo_renew_deadline := if_none (mo_renew_deadline o1) (given_duration (le_renew l)),
          mo_retry_period := if_none (mo_retry_period o1) (given_duration (le_retry l))\<rparr>)"

text \<open>The loader is what \<open>loader.Complete()\<close> returns.\<close>

definition AndFrom :: "manager_options \<Rightarrow> string + config_spec \<Rightarrow> manager_options \<times> string option" where
  "AndFrom o0 loader =
     (case loader of
        Inl e \<Rightarrow> (o0, Some e)
      | Inr newObj \<Rightarrow>
          let o1 = setLeaderElectionConfig o0 newObj;
              o2 = o1\<lparr>
                mo_sync_period := if_none (mo_sync_period o1) (cs_sync_period newObj),
                mo_namespace := if_empty (mo_namespace o1) (cs_cache_namespace newObj),
                mo_metrics := if_empty (mo_metrics o1) (cs_metrics newObj),
                mo_probe := if_empty (mo_probe o1) (cs_probe newObj),
                mo_readiness := if_empty (mo_readiness o1) (cs_readiness newObj),
                mo_liveness := if_empty (mo_liveness o1) (cs_liveness newObj),
                mo_port := (if mo_port o1 = 0 \<and> cs_port newObj \<noteq> None then the (cs_port newObj) else mo_port o1),
                mo_host := if_empty (mo_host o1) (cs_host newObj),
                mo_cert_dir := if_empty (mo_cert_dir o1) (cs_cert_dir newObj)\<rparr>
          in (case cs_controller newObj of
                None \<Rightarrow> o2
              | Some c \<Rightarrow> o2\<lparr>
                  mo_cache_sync_timeout := if_none (mo_cache_sync_timeout o2) (ct_sync_timeout c),
                  mo_concurrency := (if fmdom (mo_concurrency o2) = {||} \<and> fmdom (ct_concurrency c) \<noteq> {||}
                    then ct_concurrency c else mo_concurrency o2)\<rparr>, None))"

lemma if_empty_simps [simp]: "if_empty [] new = new" "old \<noteq> [] \<Longrightarrow> if_empty old new = old" "if_empty old [] = old"
  by (auto simp: if_empty_def)

lemma if_none_simps [simp]: "if_none None new = new" "if_none (Some x) new = Some x" "if_none old None = old"
  by (auto simp: if_none_def)

lemma leader_fields:
  "mo_metrics (setLeaderElectionConfig o1 c) = mo_metrics o1" "mo_probe (setLeaderElectionConfig o1 c) = mo_probe o1"
  "mo_sync_period (setLeaderElectionConfig o1 c) = mo_sync_period o1" "mo_cache (setLeaderElectionConfig o1 c) = mo_cache o1"
  "mo_release_on_cancel (setLeaderElectionConfig o1 c) = mo_release_on_cancel o1"
  "mo_scheme (setLeaderElectionConfig o1 c) = mo_scheme o1"
  by (simp_all add: setLeaderElectionConfig_def split: option.split)

lemma AndFrom_fields:
  "mo_metrics (fst (AndFrom o0 (Inr c))) = if_empty (mo_metrics o0) (cs_metrics c)"
  "mo_probe (fst (AndFrom o0 (Inr c))) = if_empty (mo_probe o0) (cs_probe c)"
  "mo_sync_period (fst (AndFrom o0 (Inr c))) = if_none (mo_sync_period o0) (cs_sync_period c)"
  "mo_cache (fst (AndFrom o0 (Inr c))) = mo_cache o0"
  "mo_release_on_cancel (fst (AndFrom o0 (Inr c))) = mo_release_on_cancel o0"
  "mo_scheme (fst (AndFrom o0 (Inr c))) = mo_scheme o0"
  "mo_leader_election (fst (AndFrom o0 (Inr c))) = mo_leader_election (setLeaderElectionConfig o0 c)"
  "mo_leader_id (fst (AndFrom o0 (Inr c))) = mo_leader_id (setLeaderElectionConfig o0 c)"
  by (simp_all add: AndFrom_def Let_def leader_fields split: option.split)

text \<open>A leader election that is on, and an id that is set, stay as they are.\<close>

lemma leader_keeps:
  "mo_leader_election o0 \<Longrightarrow> mo_leader_election (setLeaderElectionConfig o0 c)"
  "mo_leader_id o0 \<noteq> [] \<Longrightarrow> mo_leader_id (setLeaderElectionConfig o0 c) = mo_leader_id o0"
  by (simp_all add: setLeaderElectionConfig_def split: option.split)

section \<open>Steps of a start\<close>

text \<open>A step that is refused is logged and ends the process with code 1.\<close>

definition attempt :: "('s \<Rightarrow> bool) \<Rightarrow> 's \<Rightarrow> 's list \<Rightarrow> 's list process" where
  "attempt accept s taken = (if accept s then Running (taken @ [s]) else Exited 1)"

lemma attempt_Running_iff: "attempt accept s taken = Running ss \<longleftrightarrow> accept s \<and> ss = taken @ [s]"
  by (auto simp: attempt_def)

end
