(* ===== verification/Operator.thy ===== *)
theory Operator
  imports SimpleMirrors
begin

text \<open>
  pkg/controllers/operator and the list of namespaces of cmd/operator/main.go: the operator
  connects to the remote cluster of a KnativeEdge, copies the kubeconfig secret into the system
  namespace and keeps the deployment of the edge controller. Clients, the kubeconfig parser, the
  creation of a cluster connection and \<open>SetControllerReference\<close> are fields of
  \<open>edge_reconciler\<close>; the connections, the events and the started and stopped clusters are the
  state \<open>operator_state\<close>.
\<close>

section \<open>Objects\<close>

record edge_status =
  es_zone :: "string option"
  es_region :: "string option"
  es_environments :: string
  es_deployment_generation :: int64
  es_edge_generation :: int64
  es_cluster_generation :: int64

definition edge_status_zero :: edge_status where
  "edge_status_zero = \<lparr>es_zone = None, es_region = None, es_environments = [], es_deployment_generation = 0,
     es_edge_generation = 0, es_cluster_generation = 0\<rparr>"

record knative_edge =
  ke_meta :: object_meta
  ke_cluster_name :: string
  ke_host :: string
  ke_override_proxy_image :: string
  ke_secret_ref :: "nsname option"
  ke_http_proxy :: string
  ke_https_proxy :: string
  ke_no_proxy :: string
  ke_prometheus_url :: "string option"
  ke_status :: edge_status

definition knative_edge_zero :: knative_edge where
  "knative_edge_zero = \<lparr>ke_meta = meta_zero, ke_cluster_name = [], ke_host = [], ke_override_proxy_image = [],
     ke_secret_ref = None, ke_http_proxy = [], ke_https_proxy = [], ke_no_proxy = [], ke_prometheus_url = None,
     ke_status = edge_status_zero\<rparr>"

record edge_cluster =
  ec_generation :: int64
  ec_zone :: "string option"
  ec_region :: "string option"
  ec_environments :: "string list"

definition edge_cluster_zero :: edge_cluster where
  "edge_cluster_zero = \<lparr>ec_generation = 0, ec_zone = None, ec_region = None, ec_environments = []\<rparr>"

record deployment_spec =
  ds_replicas :: int
  ds_labels :: gomap
  ds_service_account :: string
  ds_image :: string
  ds_args :: "string list"
  ds_mount_path :: string
  ds_secret_name :: string
  ds_node_selector :: gomap

record deployment =
  dp_meta :: object_meta
  dp_spec :: "deployment_spec option"

definition deployment_zero :: deployment where
  "deployment_zero = \<lparr>dp_meta = meta_zero, dp_spec = None\<rparr>"

definition ControllerServiceAccount :: string where "ControllerServiceAccount = ''knative-edge-controller''"
definition ConfigPath :: string where "ConfigPath = ''/var/run/secrets/edge.jevv.dev/config''"

section \<open>State\<close>

record 'c remote_cluster =
  rc_cluster :: 'c
  rc_generation :: int64

record 'c operator_state =
  os_remotes :: "(string, 'c remote_cluster) fmap"
  os_started :: "'c list"
  os_stopped :: "'c list"
  os_events :: "string list"

text \<open>
  \<open>er_client_config\<close> is \<open>ClientConfig\<close>: a configuration, or nil, and an error, or nil.
\<close>

record ('w, 'k, 'cfg, 'c) edge_reconciler =
  er_get_edge :: "nsname \<Rightarrow> 'w \<Rightarrow> api_error + knative_edge"
  er_read_secret :: "nsname \<Rightarrow> 'w \<Rightarrow> api_error + secret"
  er_secrets :: "(secret, 'w) kclient"
  er_deployments :: "(deployment, 'w) kclient"
  er_update_status :: "knative_edge \<Rightarrow> 'w \<Rightarrow> api_error option \<times> 'w"
  er_get_edge_cluster :: "'c \<Rightarrow> nsname \<Rightarrow> 'w \<Rightarrow> api_error + edge_cluster"
  er_parse :: "string \<Rightarrow> string + 'k"
  er_client_config :: "'k \<Rightarrow> 'cfg option \<times> string option"
  er_new_cluster :: "'cfg \<Rightarrow> string \<Rightarrow> string + 'c"
  er_set_fields :: "'c \<Rightarrow> string option"
  er_set_owner :: "knative_edge \<Rightarrow> object_meta \<Rightarrow> object_meta"
  er_proxy_image :: string
  er_controller_image :: string

definition record_event :: "string \<Rightarrow> 'c operator_state \<Rightarrow> 'c operator_state" where
  "record_event e st = st\<lparr>os_events := os_events st @ [e]\<rparr>"

section \<open>Names, labels, builders\<close>

definition getRemoteClusterName :: "string \<Rightarrow> string \<Rightarrow> nsname" where
  "getRemoteClusterName name namespace = \<lparr>ns_namespace = namespace, ns_name = name @ ''-remote-cluster''\<rparr>"

definition getSecretName :: "string \<Rightarrow> string \<Rightarrow> nsname" where
  "getSecretName name namespace = \<lparr>ns_namespace = namespace, ns_name = name @ ''-edgeconfig''\<rparr>"

definition getDeploymentName :: "string \<Rightarrow> string \<Rightarrow> nsname" where
  "getDeploymentName name namespace = \<lparr>ns_namespace = namespace, ns_name = name @ ''-controller''\<rparr>"

definition getLabels :: "nsname \<Rightarrow> gomap" where
  "getLabels n = mput ControllerLabel (ns_name n) (mput ServiceLabel ''knative-edge'' (mput AppLabel ''controller'' (Some fmempty)))"

definition remote_key :: "knative_edge \<Rightarrow> string" where
  "remote_key edge = nsname_str (getRemoteClusterName (om_name (ke_meta edge)) SystemNamespace)"

definition buildSecret ::
  "('w, 'k, 'cfg, 'c) edge_reconciler \<Rightarrow> nsname \<Rightarrow> knative_edge \<Rightarrow> secret \<Rightarrow> secret \<Rightarrow> secret"
where
  "buildSecret r n edge src dst =
     dst\<lparr>sec_meta := er_set_owner r edge ((sec_meta dst)
           \<lparr>om_name := ns_name n, om_namespace := ns_namespace n, om_labels := getLabels n,
            om_annotations := mput ObservedGenerationAnnotation (sprint_int64 (om_generation (sec_meta src)))
              (om_annotations (sec_meta dst))\<rparr>),
         sec_data := sec_data src\<rparr>"

definition proxy_image_of :: "('w, 'k, 'cfg, 'c) edge_reconciler \<Rightarrow> knative_edge \<Rightarrow> string" where
  "proxy_image_of r edge =
     (if ke_override_proxy_image edge \<noteq> [] then ke_override_proxy_image edge else er_proxy_image r)"

text \<open>\<open>edge.Spec.Prometheus.URL\<close> is read through a pointer that may be nil.\<close>

definition buildDeployment ::
  "('w, 'k, 'cfg, 'c) edge_reconciler \<Rightarrow> nsname \<Rightarrow> nsname \<Rightarrow> knative_edge \<Rightarrow> edge_cluster \<Rightarrow> deployment \<Rightarrow> deployment go"
where
  "buildDeployment r n secretName edge edgeCluster d =
     (case ke_prometheus_url edge of
        None \<Rightarrow> Panicked ''invalid memory address or nil pointer dereference''
      | Some prometheusUrl \<Rightarrow>
          let labels = mput EdgeTagLabel ''TODO'' (getLabels n) in
          Done \<lparr>dp_meta = er_set_owner r edge ((dp_meta d)
                  \<lparr>om_name := ns_name n, om_namespace := ns_namespace n,
                   om_annotations :=
                     mput ControllerImageAnnotation (er_controller_image r)
                       (mput ProxyImageAnnotation (proxy_image_of r edge) (om_annotations (dp_meta d)))\<rparr>),
                dp_spec = Some \<lparr>ds_replicas = 1, ds_labels = labels, ds_service_account = ControllerServiceAccount,
                  ds_image = er_controller_image r,
                  ds_args =
                    [''--envs'', join_str '','' (ec_environments edgeCluster),
                     ''--proxy-image'', proxy_image_of r edge, ''--remote-url'', ke_host edge,
                     ''--http-proxy'', ke_http_proxy edge, ''--https-proxy'', ke_https_proxy edge,
                     ''--no-proxy'', ke_no_proxy edge, ''--prometheus-url'', prometheusUrl],
                  ds_mount_path = ConfigPath, ds_secret_name = ns_name secretName,
                  ds_node_selector = mput ''edge.jevv.dev/role'' ''master'' (Some fmempty)\<rparr>\<rparr>)"

definition updateEdgeStatus ::
  "('w, 'k, 'cfg, 'c) edge_reconciler \<Rightarrow> knative_edge \<Rightarrow> edge_cluster \<Rightarrow> deployment \<Rightarrow> 'w \<Rightarrow> api_error option \<times> 'w"
where
  "updateEdgeStatus r edge edgeCluster d w =
     er_update_status r (edge\<lparr>ke_status := \<lparr>es_zone = ec_zone edgeCluster, es_region = ec_region edgeCluster,
       es_environments = join_str '','' (ec_environments edgeCluster),
       es_deployment_generation = om_generation (dp_meta d),
       es_edge_generation = om_generation (ke_meta edge),
       es_cluster_generation = ec_generation edgeCluster\<rparr>\<rparr>) w"

section \<open>reconcileCluster\<close>

text \<open>
  A new connection is put into the map before \<open>SetFields\<close> and started after it. The kubeconfig
  is written to (\<open>kubeconfig.Proxy = ...\<close>) before the error is looked at.
\<close>

definition connect ::
  "('w, 'k, 'cfg, 'c) edge_reconciler \<Rightarrow> knative_edge \<Rightarrow> secret \<Rightarrow> 'c operator_state \<Rightarrow> (bool \<times> 'c operator_state) go"
where
  "connect r edge kubeconfigSecret st =
     (case mlookup (sec_data kubeconfigSecret) ''kubeconfig'' of
        None \<Rightarrow> Done (False, record_event ''KubeconfigMissing'' st)
      | Some kubeconfigData \<Rightarrow>
     (case er_parse r kubeconfigData of
        Inl e \<Rightarrow> Done (False, record_event ''KubeconfigParsingError'' st)
      | Inr config \<Rightarrow>
     (case er_client_config r config of
        (None, _) \<Rightarrow> Panicked ''invalid memory address or nil pointer dereference''
      | (Some kubeconfig, Some e) \<Rightarrow> Done (False, record_event ''KubeconfigParsingError'' st)
      | (Some kubeconfig, None) \<Rightarrow>
     (case er_new_cluster r kubeconfig (ke_https_proxy edge) of
        Inl e \<Rightarrow> Done (False, record_event ''RemoteClusterError'' st)
      | Inr remoteCluster \<Rightarrow>
          let st1 = st\<lparr>os_remotes := fmupd (remote_key edge)
                \<lparr>rc_cluster = remoteCluster, rc_generation = om_generation (sec_meta kubeconfigSecret)\<rparr> (os_remotes st)\<rparr>
          in case er_set_fields r remoteCluster of
               Some e \<Rightarrow> Done (False, record_event ''RemoteClusterInternalError'' st1)
             | None \<Rightarrow>
                 Done (True, record_event ''RemoteClusterConnected'' (st1\<lparr>os_started := os_started st1 @ [remoteCluster]\<rparr>))))))"

definition disconnect :: "knative_edge \<Rightarrow> 'c remote_cluster \<Rightarrow> 'c operator_state \<Rightarrow> 'c operator_state" where
  "disconnect edge existing st =
     record_event ''RemoteClusterDisconnected''
       (st\<lparr>os_stopped := os_stopped st @ [rc_cluster existing], os_remotes := fmdrop (remote_key edge) (os_remotes st)\<rparr>)"

definition reconcileCluster ::
  "('w, 'k, 'cfg, 'c) edge_reconciler \<Rightarrow> knative_edge \<Rightarrow> 'c operator_state \<Rightarrow> 'w \<Rightarrow> (secret option \<times> 'c operator_state) go"
where
  "reconcileCluster r edge st w =
     (case ke_secret_ref edge of
        None \<Rightarrow> Done (Some secret_zero, st)
      | Some ref \<Rightarrow>
     (case er_read_secret r ref w of
        Inl e \<Rightarrow> Done (None, record_event (if e = NotFound then ''RemoteKubeconfigMissing'' else ''RemoteKubeconfigError'') st)
      | Inr kubeconfigSecret \<Rightarrow>
          let existing = fmlookup (os_remotes st) (remote_key edge);
              changed = (case existing of None \<Rightarrow> False
                         | Some x \<Rightarrow> rc_generation x \<noteq> om_generation (sec_meta kubeconfigSecret));
              st1 = (if changed then disconnect edge (the existing) st else st)
          in if existing \<noteq> None \<and> \<not> changed then Done (Some kubeconfigSecret, st1)
             else bind_go (connect r edge kubeconfigSecret st1) (\<lambda>res.
               Done (if fst res then Some kubeconfigSecret else None, snd res))))"

section \<open>reconcileSecret\<close>

text \<open>\<open>ref\<close> is the secret in the context, if \<open>reconcileCluster\<close> returned one (context.go).\<close>

definition withKubeconfigFromContext :: "secret option \<Rightarrow> secret" where
  "withKubeconfigFromContext kubeconfigSecret =
     (case kubeconfigSecret of None \<Rightarrow> secret_zero | Some s \<Rightarrow> s)"

definition write_secret ::
  "('w, 'k, 'cfg, 'c) edge_reconciler \<Rightarrow> bool \<Rightarrow> bool \<Rightarrow> bool \<Rightarrow> secret \<Rightarrow> secret \<Rightarrow> 'c operator_state \<Rightarrow> 'w
    \<Rightarrow> (ctrl_result \<times> api_error option \<times> 'c operator_state) \<times> 'w"
where
  "write_secret r shouldCreate shouldUpdate shouldDelete built current st w =
     (if shouldCreate then
        (case kc_create (er_secrets r) built w of
           (Inr _, w') \<Rightarrow> ((result_zero, None, record_event ''SecretCreated'' st), w')
         | (Inl e, w') \<Rightarrow> if e = AlreadyExists then ((requeue_now, None, st), w') else ((result_zero, Some e, st), w'))
      else if shouldUpdate then
        (case kc_update (er_secrets r) built w of
           (Inr _, w') \<Rightarrow> ((result_zero, None, record_event ''SecretUpdated'' st), w')
         | (Inl e, w') \<Rightarrow>
             if e = Conflict \<or> e = NotFound then ((requeue_now, None, st), w') else ((result_zero, Some e, st), w'))
      else if shouldDelete then
        (case kc_delete (er_secrets r) current w of
           (None, w') \<Rightarrow> ((result_zero, None, st), w')
         | (Some e, w') \<Rightarrow> if e = NotFound then ((result_zero, None, st), w') else ((result_zero, Some e, st), w'))
      else ((result_zero, None, st), w))"

definition reconcileSecret ::
  "('w, 'k, 'cfg, 'c) edge_reconciler \<Rightarrow> secret option \<Rightarrow> knative_edge \<Rightarrow> 'c operator_state \<Rightarrow> 'w
    \<Rightarrow> (ctrl_result \<times> api_error option \<times> 'c operator_state) \<times> 'w"
where
  "reconcileSecret r ctx edge st w =
     (let refSecret = withKubeconfigFromContext ctx;
          n = getSecretName (om_name (ke_meta edge)) SystemNamespace;
          deleted = (om_deletion (ke_meta edge) \<noteq> None)
      in if om_name (sec_meta refSecret) = ns_name n \<and> om_namespace (sec_meta refSecret) = ns_namespace n
         then ((result_zero, None, st), w)
         else
           let g = kc_get (er_secrets r) n w in
           case g of
             Inl e \<Rightarrow>
               if e \<noteq> NotFound then ((result_zero, Some e, st), w)
               else
                 let shouldCreate = (ke_secret_ref edge \<noteq> None \<and> \<not> deleted);
                     shouldDelete = (deleted \<and> ke_secret_ref edge \<noteq> None);
                     shouldUpdate = (\<not> shouldCreate \<and> \<not> shouldDelete)
                 in write_secret r shouldCreate shouldUpdate shouldDelete (buildSecret r n edge refSecret secret_zero)
                      secret_zero st w
           | Inr s \<Rightarrow>
               let shouldUpdate = (\<not> deleted \<and>
                     (om_annotations (sec_meta s) = None \<or>
                      mget (om_annotations (sec_meta s)) ObservedGenerationAnnotation
                        \<noteq> sprint_int64 (om_generation (sec_meta refSecret))))
               in write_secret r False shouldUpdate deleted (buildSecret r n edge refSecret s) s st w)"

section \<open>reconcileDeployment\<close>

definition deployment_outdated ::
  "('w, 'k, 'cfg, 'c) edge_reconciler \<Rightarrow> knative_edge \<Rightarrow> edge_cluster \<Rightarrow> deployment \<Rightarrow> bool"
where
  "deployment_outdated r edge edgeCluster d \<longleftrightarrow>
     om_generation (dp_meta d) \<noteq> es_deployment_generation (ke_status edge) \<or>
     om_generation (ke_meta edge) \<noteq> es_edge_generation (ke_status edge) \<or>
     ec_generation edgeCluster \<noteq> es_cluster_generation (ke_status edge) \<or>
     mget (om_annotations (dp_meta d)) ProxyImageAnnotation \<noteq> proxy_image_of r edge \<or>
     mget (om_annotations (dp_meta d)) ControllerImageAnnotation \<noteq> er_controller_image r"

text \<open>The status is that of the deployment as the server has stored it.\<close>

definition finish_write ::
  "('w, 'k, 'cfg, 'c) edge_reconciler \<Rightarrow> knative_edge \<Rightarrow> edge_cluster \<Rightarrow> string \<Rightarrow> deployment \<Rightarrow> 'c operator_state \<Rightarrow> 'w
    \<Rightarrow> (ctrl_result \<times> api_error option \<times> 'c operator_state) \<times> 'w"
where
  "finish_write r edge edgeCluster ev stored st w =
     (case updateEdgeStatus r edge edgeCluster stored w of (err, w') \<Rightarrow> ((result_zero, err, record_event ev st), w'))"

definition write_deployment ::
  "('w, 'k, 'cfg, 'c) edge_reconciler \<Rightarrow> knative_edge \<Rightarrow> edge_cluster \<Rightarrow> bool \<Rightarrow> 'c operator_state \<Rightarrow> 'w
    \<Rightarrow> ((ctrl_result \<times> api_error option \<times> 'c operator_state) \<times> 'w) go"
where
  "write_deployment r edge edgeCluster shouldDelete st w =
     (let n = getDeploymentName (om_name (ke_meta edge)) SystemNamespace;
          sn = getSecretName (om_name (ke_meta edge)) SystemNamespace;
          g = kc_get (er_deployments r) n w
      in case hard_error g of
           Some e \<Rightarrow> Done ((result_zero, Some e, st), w)
         | None \<Rightarrow>
             let missing = isl g; d = got deployment_zero g in
             if shouldDelete then
               (case kc_delete (er_deployments r) d w of
                  (None, w') \<Rightarrow> Done ((result_zero, None, st), w')
                | (Some e, w') \<Rightarrow>
                    if e = NotFound then Done ((result_zero, None, st), w') else Done ((result_zero, Some e, st), w'))
             else if missing then
               bind_go (buildDeployment r n sn edge edgeCluster d) (\<lambda>built.
                 case kc_create (er_deployments r) built w of
                   (Inr stored, w') \<Rightarrow> Done (finish_write r edge edgeCluster ''DeploymentCreated'' stored st w')
                 | (Inl e, w') \<Rightarrow>
                     if e = AlreadyExists then Done ((requeue_now, None, st), w') else Done ((result_zero, Some e, st), w'))
             else if deployment_outdated r edge edgeCluster d then
               bind_go (buildDeployment r n sn edge edgeCluster d) (\<lambda>built.
                 case kc_update (er_deployments r) built w of
                   (Inr stored, w') \<Rightarrow> Done (finish_write r edge edgeCluster ''DeploymentUpdated'' stored st w')
                 | (Inl e, w') \<Rightarrow>
                     if e = Conflict \<or> e = NotFound then Done ((requeue_now, None, st), w')
                     else Done ((result_zero, Some e, st), w'))
             else Done ((result_zero, None, st), w))"

definition reconcileDeployment ::
  "('w, 'k, 'cfg, 'c) edge_reconciler \<Rightarrow> knative_edge \<Rightarrow> 'c operator_state \<Rightarrow> 'w
    \<Rightarrow> ((ctrl_result \<times> api_error option \<times> 'c operator_state) \<times> 'w) go"
where
  "reconcileDeployment r edge st w =
     (let shouldDelete = (om_deletion (ke_meta edge) \<noteq> None) in
      if \<not> shouldDelete \<and> ke_secret_ref edge \<noteq> None then
        (case fmlookup (os_remotes st) (remote_key edge) of
           None \<Rightarrow> Done ((requeue_in (30 * second), None, st), w)
         | Some remote \<Rightarrow>
             (case er_get_edge_cluster r (rc_cluster remote) \<lparr>ns_namespace = [], ns_name = ke_cluster_name edge\<rparr> w of
                Inl e \<Rightarrow>
                  Done ((result_zero, if e = NotFound then None else Some e, record_event ''EdgeClusterError'' st), w)
              | Inr edgeCluster \<Rightarrow> write_deployment r edge edgeCluster shouldDelete st w))
      else write_deployment r edge edge_cluster_zero shouldDelete st w)"

section \<open>Reconcile\<close>

text \<open>
  A KnativeEdge that is not found is reconciled as the zero object. The error of
  \<open>reconcileCluster\<close> is always nil.
\<close>

definition operator_Reconcile ::
  "('w, 'k, 'cfg, 'c) edge_reconciler \<Rightarrow> nsname \<Rightarrow> 'c operator_state \<Rightarrow> 'w
    \<Rightarrow> ((ctrl_result \<times> api_error option \<times> 'c operator_state) \<times> 'w) go"
where
  "operator_Reconcile r req st w =
     (let g = er_get_edge r req w in
      case hard_error g of
        Some e \<Rightarrow> Done ((result_zero, Some e, st), w)
      | None \<Rightarrow>
          let edge = got knative_edge_zero g in
          bind_go (reconcileCluster r edge st w) (\<lambda>cs.
            case reconcileSecret r (fst cs) edge (snd cs) w of
              ((result, err, st2), w2) \<Rightarrow>
                if err \<noteq> None \<or> requeue result \<or> 0 < requeue_after result then Done ((result, err, st2), w2)
                else reconcileDeployment r edge st2 w2))"

text \<open>cmd/operator/main.go: the namespaces the cache watches.\<close>

definition withSystemNamespace :: "string list \<Rightarrow> string list" where
  "withSystemNamespace namespaces =
     (if list_ex (\<lambda>namespace. namespace = SystemNamespace) namespaces then namespaces
      else namespaces @ [SystemNamespace])"

section \<open>Facts\<close>

lemma withSystemNamespace_mem: "SystemNamespace \<in> set (withSystemNamespace ns) \<and> set ns \<subseteq> set (withSystemNamespace ns)"
  by (auto simp: withSystemNamespace_def list_ex_iff)

lemma withSystemNamespace_idem: "withSystemNamespace (withSystemNamespace ns) = withSystemNamespace ns"
  by (simp add: withSystemNamespace_def)

text \<open>Without a secret reference nothing is read from the context but the zero secret.\<close>

lemma reconcileSecret_no_ref:
  assumes "ke_secret_ref edge = None" "kc_get (er_secrets r) (getSecretName (om_name (ke_meta edge)) SystemNamespace) w = Inl NotFound"
    and "\<And>s. fst (kc_update (er_secrets r) s w) = Inl NotFound"
  shows "\<exists>w'. reconcileSecret r (Some secret_zero) edge st w = ((requeue_now, None, st), w')"
proof -
  let ?n = "getSecretName (om_name (ke_meta edge)) SystemNamespace"
  obtain w' where "kc_update (er_secrets r) (buildSecret r ?n edge secret_zero secret_zero) w = (Inl NotFound, w')"
    using assms(3) by (metis prod.collapse)
  then show ?thesis
    using assms(1,2)
    by (simp add: reconcileSecret_def withKubeconfigFromContext_def Let_def write_secret_def secret_zero_def
        meta_zero_def getSecretName_def)
qed

lemma operator_requeues:
  assumes "er_get_edge r req w = Inl NotFound \<or> (\<exists>edge. er_get_edge r req w = Inr edge \<and> ke_secret_ref edge = None)"
    and "\<And>n. kc_get (er_secrets r) n w = Inl NotFound"
    and "\<And>s. fst (kc_update (er_secrets r) s w) = Inl NotFound"
  shows "\<exists>w'. operator_Reconcile r req st w = Done ((requeue_now, None, st), w')"
proof -
  let ?edge = "got knative_edge_zero (er_get_edge r req w)"
  have e: "hard_error (er_get_edge r req w) = None" "ke_secret_ref ?edge = None"
    using assms(1) by (auto simp: knative_edge_zero_def)
  obtain w' where "reconcileSecret r (Some secret_zero) ?edge st w = ((requeue_now, None, st), w')"
    using reconcileSecret_no_ref [OF e(2) assms(2,3)] by blast
  then show ?thesis using e by (simp add: operator_Reconcile_def reconcileCluster_def)
qed

text \<open>A deployment whose status is recorded is not touched again.\<close>

definition keeps_annotations :: "('w, 'k, 'cfg, 'c) edge_reconciler \<Rightarrow> bool" where
  "keeps_annotations r \<longleftrightarrow> (\<forall>e m. om_annotations (er_set_owner r e m) = om_annotations m)"

lemma buildDeployment_annotations:
  assumes "keeps_annotations r" "buildDeployment r n sn edge ec d = Done d'"
  shows "mget (om_annotations (dp_meta d')) ProxyImageAnnotation = proxy_image_of r edge"
    and "mget (om_annotations (dp_meta d')) ControllerImageAnnotation = er_controller_image r"
  using assms by (auto simp: buildDeployment_def keeps_annotations_def Let_def constant_defs split: option.splits)

definition status_recorded :: "knative_edge \<Rightarrow> edge_cluster \<Rightarrow> deployment \<Rightarrow> knative_edge" where
  "status_recorded edge ec d = edge\<lparr>ke_status := \<lparr>es_zone = ec_zone ec, es_region = ec_region ec,
     es_environments = join_str '','' (ec_environments ec), es_deployment_generation = om_generation (dp_meta d),
     es_edge_generation = om_generation (ke_meta edge), es_cluster_generation = ec_generation ec\<rparr>\<rparr>"

lemma deployment_settled:
  assumes "keeps_annotations r" "buildDeployment r n sn edge ec d = Done d'"
    and "om_annotations (dp_meta stored) = om_annotations (dp_meta d')"
  shows "\<not> deployment_outdated r (status_recorded edge ec stored) ec stored"
  using buildDeployment_annotations [OF assms(1,2)] assms(3)
  by (simp add: deployment_outdated_def status_recorded_def proxy_image_of_def)

lemma updateEdgeStatus_status:
  "updateEdgeStatus r edge ec d w = er_update_status r (status_recorded edge ec d) w"
  by (simp add: updateEdgeStatus_def status_recorded_def)

text \<open>The connections: every cluster in the map was started, or \<open>SetFields\<close> failed for it.\<close>

lemma connect_remotes:
  assumes "connect r edge s st = Done (ok, st')"
  shows "(ok \<longrightarrow> (\<exists>c. fmlookup (os_remotes st') (remote_key edge) =
             Some \<lparr>rc_cluster = c, rc_generation = om_generation (sec_meta s)\<rparr> \<and> os_started st' = os_started st @ [c])) \<and>
         (\<not> ok \<longrightarrow> os_started st' = os_started st) \<and> os_stopped st' = os_stopped st \<and>
         (\<forall>k. k \<noteq> remote_key edge \<longrightarrow> fmlookup (os_remotes st') k = fmlookup (os_remotes st) k)"
  using assms
  by (auto simp: connect_def record_event_def Let_def split: option.splits sum.splits prod.splits)

lemma connect_set_fields_fails:
  assumes "mlookup (sec_data s) ''kubeconfig'' = Some data" "er_parse r data = Inr k"
    and "er_client_config r k = (Some cfg, None)" "er_new_cluster r cfg (ke_https_proxy edge) = Inr c"
    and "er_set_fields r c = Some e"
  shows "\<exists>st'. connect r edge s st = Done (False, st') \<and> c \<notin> set (os_started st') - set (os_started st) \<and>
    fmlookup (os_remotes st') (remote_key edge) = Some \<lparr>rc_cluster = c, rc_generation = om_generation (sec_meta s)\<rparr>"
  using assms by (simp add: connect_def record_event_def Let_def)

lemma reconcileCluster_connected:
  assumes "ke_secret_ref edge = Some ref" "er_read_secret r ref w = Inr s"
    and "fmlookup (os_remotes st) (remote_key edge) = Some x" "rc_generation x = om_generation (sec_meta s)"
  shows "reconcileCluster r edge st w = Done (Some s, st)"
  using assms by (simp add: reconcileCluster_def Let_def)

lemma reconcileCluster_replaces:
  assumes "ke_secret_ref edge = Some ref" "er_read_secret r ref w = Inr s"
    and "fmlookup (os_remotes st) (remote_key edge) = Some x" "rc_generation x \<noteq> om_generation (sec_meta s)"
    and "reconcileCluster r edge st w = Done (res, st')"
  shows "os_stopped st' = os_stopped st @ [rc_cluster x] \<and>
    (case res of
       None \<Rightarrow> os_started st' = os_started st
     | Some _ \<Rightarrow> \<exists>c. fmlookup (os_remotes st') (remote_key edge) =
           Some \<lparr>rc_cluster = c, rc_generation = om_generation (sec_meta s)\<rparr> \<and> os_started st' = os_started st @ [c])"
proof -
  obtain ok st2 where c: "connect r edge s (disconnect edge x st) = Done (ok, st2)"
      "res = (if ok then Some s else None)" "st' = st2"
    using assms by (auto simp: reconcileCluster_def Let_def bind_go_Done_iff)
  then show ?thesis
    using connect_remotes [OF c(1)] by (auto simp: disconnect_def record_event_def)
qed

end
