(* ===== verification/OperatorConverge.thy ===== *)
theory OperatorConverge
  imports Operator ApiServer
begin

text \<open>
  The operator against an API server: after one \<open>Reconcile\<close> of a connected KnativeEdge the secret
  and the deployment in the system namespace are what the KnativeEdge asks for, and the next
  \<open>Reconcile\<close> writes nothing. \<open>operator_world\<close> is what is assumed of the server: the secrets and
  the deployments are served as in theory \<open>ApiServer\<close>, and an update of the status of a
  KnativeEdge stores it without touching its generation.
\<close>

section \<open>The world of the operator\<close>

text \<open>\<open>SetControllerReference\<close> only adds an owner.\<close>

definition owner_only :: "('w, 'k, 'cfg, 'c) edge_reconciler \<Rightarrow> bool" where
  "owner_only r \<longleftrightarrow>
     (\<forall>e m. om_name (er_set_owner r e m) = om_name m \<and> om_namespace (er_set_owner r e m) = om_namespace m \<and>
        om_resource_version (er_set_owner r e m) = om_resource_version m \<and>
        om_labels (er_set_owner r e m) = om_labels m \<and> om_annotations (er_set_owner r e m) = om_annotations m)"

definition status_updates ::
  "('w, 'k, 'cfg, 'c) edge_reconciler \<Rightarrow> ('w \<Rightarrow> nsname \<Rightarrow> knative_edge option) \<Rightarrow> ('w \<Rightarrow> 'v) \<Rightarrow> bool"
where
  "status_updates r eview other \<longleftrightarrow>
     (\<forall>e w. \<exists>w' m. er_update_status r e w = (None, w') \<and>
        eview w' = (eview w)(meta_nsname (ke_meta e) \<mapsto> e\<lparr>ke_meta := m\<rparr>) \<and> other w' = other w \<and>
        meta_nsname m = meta_nsname (ke_meta e) \<and> om_generation m = om_generation (ke_meta e) \<and>
        om_deletion m = om_deletion (ke_meta e))"

definition operator_world ::
  "('w, 'k, 'cfg, 'c) edge_reconciler \<Rightarrow> ('w \<Rightarrow> nsname \<Rightarrow> secret option) \<Rightarrow> ('w \<Rightarrow> nsname \<Rightarrow> deployment option) \<Rightarrow>
    ('w \<Rightarrow> nsname \<Rightarrow> knative_edge option) \<Rightarrow> bool"
where
  "operator_world r sview dview eview \<longleftrightarrow>
     owner_only r \<and>
     serves sec_meta sec_data (er_secrets r) sview \<and> isolated (er_secrets r) (\<lambda>w. (dview w, eview w)) \<and>
     serves dp_meta dp_spec (er_deployments r) dview \<and> isolated (er_deployments r) (\<lambda>w. (sview w, eview w)) \<and>
     (\<forall>n w. er_get_edge r n w = (case eview w n of None \<Rightarrow> Inl NotFound | Some e \<Rightarrow> Inr e)) \<and>
     (\<forall>n w e. eview w n = Some e \<longrightarrow> meta_nsname (ke_meta e) = n) \<and>
     (\<forall>n w. er_read_secret r n w = (case sview w n of None \<Rightarrow> Inl NotFound | Some s \<Rightarrow> Inr s)) \<and>
     status_updates r eview (\<lambda>w. (sview w, dview w))"

lemma operator_worldD:
  assumes "operator_world r sview dview eview"
  shows "owner_only r" "serves sec_meta sec_data (er_secrets r) sview" "serves dp_meta dp_spec (er_deployments r) dview"
    and "er_get_edge r n w = (case eview w n of None \<Rightarrow> Inl NotFound | Some e \<Rightarrow> Inr e)"
    and "er_read_secret r n w = (case sview w n of None \<Rightarrow> Inl NotFound | Some s \<Rightarrow> Inr s)"
    and "dview (snd (kc_create (er_secrets r) x w)) = dview w" "eview (snd (kc_create (er_secrets r) x w)) = eview w"
    and "dview (snd (kc_update (er_secrets r) x w)) = dview w" "eview (snd (kc_update (er_secrets r) x w)) = eview w"
    and "sview (snd (kc_create (er_deployments r) y w)) = sview w" "eview (snd (kc_create (er_deployments r) y w)) = eview w"
    and "sview (snd (kc_update (er_deployments r) y w)) = sview w" "eview (snd (kc_update (er_deployments r) y w)) = eview w"
    and "eview w n = Some e \<Longrightarrow> meta_nsname (ke_meta e) = n"
    and "status_updates r eview (\<lambda>w. (sview w, dview w))"
  using assms by (simp_all add: operator_world_def isolated_def)

lemma same_events: "\<exists>ev. st = st\<lparr>os_events := ev\<rparr>"
  by (rule exI [of _ "os_events st"]) simp

section \<open>The secret\<close>

abbreviation secret_name :: "knative_edge \<Rightarrow> nsname" where
  "secret_name edge \<equiv> getSecretName (om_name (ke_meta edge)) SystemNamespace"

definition secret_current :: "secret \<Rightarrow> secret \<Rightarrow> bool" where
  "secret_current s y \<longleftrightarrow>
     mlookup (om_annotations (sec_meta y)) ObservedGenerationAnnotation = Some (sprint_int64 (om_generation (sec_meta s)))"

lemma secret_quiet:
  assumes "om_deletion (ke_meta edge) = None" "meta_nsname (sec_meta s) \<noteq> secret_name edge"
    and "kc_get (er_secrets r) (secret_name edge) w = Inr y" "secret_current s y"
  shows "reconcileSecret r (Some s) edge st w = ((result_zero, None, st), w)"
proof -
  obtain a where "om_annotations (sec_meta y) = Some a"
    using assms(4) by (cases "om_annotations (sec_meta y)") (simp_all add: secret_current_def)
  then show ?thesis
    using assms
    by (auto simp: reconcileSecret_def withKubeconfigFromContext_def Let_def write_secret_def secret_current_def mget_def
        meta_nsname_def)
qed

lemma buildSecret_fields:
  assumes "owner_only r"
  shows "meta_nsname (sec_meta (buildSecret r n edge s d)) = n" "sec_data (buildSecret r n edge s d) = sec_data s"
    "om_resource_version (sec_meta (buildSecret r n edge s d)) = om_resource_version (sec_meta d)"
    "secret_current s (buildSecret r n edge s d)"
  using assms by (simp_all add: buildSecret_def owner_only_def meta_nsname_def secret_current_def)

lemma secret_current_accepted: "secret_current s x \<Longrightarrow> accepted sec_meta sec_data x y \<Longrightarrow> secret_current s y"
  by (simp add: secret_current_def accepted_def)

lemma secret_converges:
  assumes world: "operator_world r sview dview eview"
    and edge: "om_deletion (ke_meta edge) = None" "ke_secret_ref edge \<noteq> None"
    and s: "meta_nsname (sec_meta s) \<noteq> secret_name edge"
  shows "\<exists>w' y ev. reconcileSecret r (Some s) edge st w = ((result_zero, None, st\<lparr>os_events := ev\<rparr>), w') \<and>
    sview w' (secret_name edge) = Some y \<and> secret_current s y \<and>
    (sview w (secret_name edge) = Some y \<and> w' = w \<or> sec_data y = sec_data s) \<and>
    (\<forall>n. n \<noteq> secret_name edge \<longrightarrow> sview w' n = sview w n) \<and> dview w' = dview w \<and> eview w' = eview w"
proof -
  let ?n = "secret_name edge"
  note serve = operator_worldD(2) [OF world] and own = buildSecret_fields [where r = r and n = ?n and edge = edge and s = s, OF operator_worldD(1) [OF world]]
  have reads: "reads sec_meta (er_secrets r) sview" using serve by (simp add: serves_def)
  note get = serves_get [OF reads]
  have differs: "\<not> (om_name (sec_meta s) = ns_name ?n \<and> om_namespace (sec_meta s) = ns_namespace ?n)"
    using s by (cases ?n) (auto simp: meta_nsname_def)
  show ?thesis
  proof (cases "sview w ?n")
    case None
    let ?x = "buildSecret r ?n edge s secret_zero"
    obtain y w' where w': "kc_create (er_secrets r) ?x w = (Inr y, w')" "accepted sec_meta sec_data ?x y"
        "sview w' = (sview w)(?n \<mapsto> y)"
      by (rule serves_create [OF serve None own(1) [of secret_zero]])
        (simp add: own(3) secret_zero_def meta_zero_def)
    have "reconcileSecret r (Some s) edge st w = ((result_zero, None, record_event ''SecretCreated'' st), w')"
      using edge differs get(1) [OF None] w'(1)
      by (auto simp: reconcileSecret_def withKubeconfigFromContext_def Let_def write_secret_def)
    moreover have "dview w' = dview w" "eview w' = eview w"
      using operator_worldD(6,7) [OF world, of ?x w] w'(1) by simp_all
    moreover have "secret_current s y" "sec_data y = sec_data s"
      using secret_current_accepted [OF own(4) w'(2)] w'(2) own(2) by (simp_all add: accepted_def)
    ultimately show ?thesis using w'(3) by (auto simp: record_event_def)
  next
    case (Some z)
    show ?thesis
    proof (cases "secret_current s z")
      case True
      have "reconcileSecret r (Some s) edge st w = ((result_zero, None, st), w)"
        by (rule secret_quiet [OF edge(1) s get(2) [OF Some] True])
      then have "reconcileSecret r (Some s) edge st w = ((result_zero, None, st\<lparr>os_events := os_events st\<rparr>), w)" by simp
      then show ?thesis using Some True by blast
    next
      case False
      let ?x = "buildSecret r ?n edge s z"
      obtain y w' where w': "kc_update (er_secrets r) ?x w = (Inr y, w')" "accepted sec_meta sec_data ?x y"
          "sview w' = (sview w)(?n \<mapsto> y)"
        by (rule serves_update [OF serve Some own(1) [of z] own(3) [of z]])
      have "om_annotations (sec_meta z) = None \<or>
          mget (om_annotations (sec_meta z)) ObservedGenerationAnnotation \<noteq> sprint_int64 (om_generation (sec_meta s))"
        using False by (cases "mlookup (om_annotations (sec_meta z)) ObservedGenerationAnnotation")
          (auto simp: secret_current_def mget_def)
      then have "reconcileSecret r (Some s) edge st w = ((result_zero, None, record_event ''SecretUpdated'' st), w')"
        using edge differs get(2) [OF Some] w'(1)
        by (auto simp: reconcileSecret_def withKubeconfigFromContext_def Let_def write_secret_def)
      moreover have "dview w' = dview w" "eview w' = eview w"
        using operator_worldD(8,9) [OF world, of ?x w] w'(1) by simp_all
      moreover have "secret_current s y" "sec_data y = sec_data s"
        using secret_current_accepted [OF own(4) w'(2)] w'(2) own(2) by (simp_all add: accepted_def)
      ultimately show ?thesis using w'(3) by (auto simp: record_event_def)
    qed
  qed
qed

section \<open>The deployment\<close>

abbreviation deployment_name :: "knative_edge \<Rightarrow> nsname" where
  "deployment_name edge \<equiv> getDeploymentName (om_name (ke_meta edge)) SystemNamespace"

text \<open>The KnativeEdge with another status and another resource version.\<close>

definition same_edge :: "knative_edge \<Rightarrow> knative_edge \<Rightarrow> bool" where
  "same_edge edge edge' \<longleftrightarrow>
     (\<exists>m st. edge' = edge\<lparr>ke_meta := m, ke_status := st\<rparr> \<and> meta_nsname m = meta_nsname (ke_meta edge) \<and>
        om_generation m = om_generation (ke_meta edge) \<and> om_deletion m = om_deletion (ke_meta edge))"

lemma same_edge_refl: "same_edge edge edge"
  unfolding same_edge_def by (rule exI [of _ "ke_meta edge"], rule exI [of _ "ke_status edge"]) simp

lemma same_edgeD:
  assumes "same_edge edge edge'"
  shows "om_name (ke_meta edge') = om_name (ke_meta edge)" "om_deletion (ke_meta edge') = om_deletion (ke_meta edge)"
    "ke_secret_ref edge' = ke_secret_ref edge" "ke_cluster_name edge' = ke_cluster_name edge" "remote_key edge' = remote_key edge"
  using assms by (auto simp: same_edge_def meta_nsname_def remote_key_def)

definition deployment_current ::
  "('w, 'k, 'cfg, 'c) edge_reconciler \<Rightarrow> edge_cluster \<Rightarrow> knative_edge \<Rightarrow> knative_edge option \<Rightarrow> deployment option \<Rightarrow> bool"
where
  "deployment_current r ec edge stored d \<longleftrightarrow>
     (\<exists>e y. stored = Some e \<and> d = Some y \<and> same_edge edge e \<and> \<not> deployment_outdated r e ec y)"

lemma owner_only_annotations: "owner_only r \<Longrightarrow> keeps_annotations r"
  by (simp add: owner_only_def keeps_annotations_def)

lemma buildDeployment_fields:
  assumes "owner_only r" "buildDeployment r n sn edge ec d = Done x"
  shows "meta_nsname (dp_meta x) = n" "om_resource_version (dp_meta x) = om_resource_version (dp_meta d)"
  using assms by (auto simp: buildDeployment_def owner_only_def meta_nsname_def Let_def split: option.splits)

text \<open>Recording the status makes the deployment that was just stored the current one.\<close>

lemma finish_write_current:
  assumes world: "operator_world r sview dview eview" and edge: "eview w req = Some edge"
    and built: "buildDeployment r n sn edge ec d = Done x" and stored: "accepted dp_meta dp_spec x y"
    and w1: "dview w1 = (dview w)(n \<mapsto> y)" "eview w1 = eview w" "sview w1 = sview w"
  shows "\<exists>w'. finish_write r edge ec ev y st w1 = ((result_zero, None, record_event ev st), w') \<and>
    deployment_current r ec edge (eview w' req) (dview w' n) \<and> sview w' = sview w"
proof -
  let ?e = "status_recorded edge ec y"
  have req: "meta_nsname (ke_meta ?e) = req"
    using operator_worldD(14) [OF world edge] by (simp add: status_recorded_def)
  obtain w' m where w': "er_update_status r ?e w1 = (None, w')" "eview w' = (eview w1)(meta_nsname (ke_meta ?e) \<mapsto> ?e\<lparr>ke_meta := m\<rparr>)"
      "(sview w', dview w') = (sview w1, dview w1)"
      "meta_nsname m = meta_nsname (ke_meta ?e)" "om_generation m = om_generation (ke_meta ?e)" "om_deletion m = om_deletion (ke_meta ?e)"
    using operator_worldD(15) [OF world] unfolding status_updates_def by metis
  have out: "\<not> deployment_outdated r ?e ec y"
    using stored owner_only_annotations [OF operator_worldD(1) [OF world]] built
    by (intro deployment_settled [of r n sn edge ec d x]) (simp_all add: accepted_def)
  have "same_edge edge (?e\<lparr>ke_meta := m\<rparr>)"
    using w'(4-6) unfolding same_edge_def
    by (intro exI [of _ m] exI [of _ "ke_status ?e"]) (simp add: status_recorded_def)
  moreover have "\<not> deployment_outdated r (?e\<lparr>ke_meta := m\<rparr>) ec y"
    using out w'(5) by (simp add: deployment_outdated_def proxy_image_of_def)
  ultimately have "deployment_current r ec edge (eview w' req) (dview w' n)"
    using w'(2,3) w1 req by (simp add: deployment_current_def)
  then show ?thesis
    using w'(1,3) w1 by (simp add: finish_write_def updateEdgeStatus_status)
qed

lemma deployment_converges:
  assumes world: "operator_world r sview dview eview" and edge: "eview w req = Some edge" "ke_prometheus_url edge = Some url"
    and n: "n = deployment_name edge"
  shows "\<exists>w' ev. write_deployment r edge ec False st w = Done ((result_zero, None, st\<lparr>os_events := ev\<rparr>), w') \<and>
    deployment_current r ec edge (eview w' req) (dview w' n) \<and> sview w' = sview w"
proof -
  note serve = operator_worldD(3) [OF world]
  have reads: "reads dp_meta (er_deployments r) dview" using serve by (simp add: serves_def)
  note get = serves_get [OF reads]
  let ?sn = "secret_name edge"
  have build: "\<exists>x. buildDeployment r n ?sn edge ec d = Done x" for d
    using edge(2) by (simp add: buildDeployment_def Let_def)
  show ?thesis
  proof (cases "dview w n")
    case None
    obtain x where x: "buildDeployment r n ?sn edge ec deployment_zero = Done x" using build by blast
    have v: "om_resource_version (dp_meta x) = []"
      using buildDeployment_fields(2) [OF operator_worldD(1) [OF world] x] by (simp add: deployment_zero_def meta_zero_def)
    obtain y w1 where w1: "kc_create (er_deployments r) x w = (Inr y, w1)" "accepted dp_meta dp_spec x y"
        "dview w1 = (dview w)(n \<mapsto> y)"
      by (rule serves_create [OF serve None buildDeployment_fields(1) [OF operator_worldD(1) [OF world] x] v])
    have other: "sview w1 = sview w" "eview w1 = eview w"
      using operator_worldD(10,11) [OF world, of x w] w1(1) by simp_all
    obtain w' where w': "finish_write r edge ec ''DeploymentCreated'' y st w1 = ((result_zero, None, record_event ''DeploymentCreated'' st), w')"
        "deployment_current r ec edge (eview w' req) (dview w' n)" "sview w' = sview w"
      using finish_write_current [OF world edge(1) x w1(2,3) other(2,1)] by blast
    have "write_deployment r edge ec False st w = Done ((result_zero, None, record_event ''DeploymentCreated'' st), w')"
      using n get(1) [OF None] x w1(1) w'(1) by (simp add: write_deployment_def Let_def)
    then show ?thesis using w'(2,3) by (auto simp: record_event_def)
  next
    case (Some z)
    show ?thesis
    proof (cases "deployment_outdated r edge ec z")
      case True
      obtain x where x: "buildDeployment r n ?sn edge ec z = Done x" using build by blast
      note fields = buildDeployment_fields [OF operator_worldD(1) [OF world] x]
      obtain y w1 where w1: "kc_update (er_deployments r) x w = (Inr y, w1)" "accepted dp_meta dp_spec x y"
          "dview w1 = (dview w)(n \<mapsto> y)"
        by (rule serves_update [OF serve Some fields])
      have other: "sview w1 = sview w" "eview w1 = eview w"
        using operator_worldD(12,13) [OF world, of x w] w1(1) by simp_all
      obtain w' where w': "finish_write r edge ec ''DeploymentUpdated'' y st w1 = ((result_zero, None, record_event ''DeploymentUpdated'' st), w')"
          "deployment_current r ec edge (eview w' req) (dview w' n)" "sview w' = sview w"
        using finish_write_current [OF world edge(1) x w1(2,3) other(2,1)] by blast
      have "write_deployment r edge ec False st w = Done ((result_zero, None, record_event ''DeploymentUpdated'' st), w')"
        using n get(2) [OF Some] x w1(1) w'(1) True by (simp add: write_deployment_def Let_def)
      then show ?thesis using w'(2,3) by (auto simp: record_event_def)
    next
      case False
      have "write_deployment r edge ec False st w = Done ((result_zero, None, st\<lparr>os_events := os_events st\<rparr>), w)"
        using n get(2) [OF Some] False by (simp add: write_deployment_def Let_def)
      then show ?thesis
        using edge(1) Some False same_edge_refl [of edge] same_events [of st] by (auto simp: deployment_current_def)
    qed
  qed
qed

lemma deployment_quiet:
  assumes "operator_world r sview dview eview" "deployment_current r ec edge (Some e) (dview w (deployment_name e))"
  shows "write_deployment r e ec False st w = Done ((result_zero, None, st), w)"
proof -
  have reads: "reads dp_meta (er_deployments r) dview" using operator_worldD(3) [OF assms(1)] by (simp add: serves_def)
  show ?thesis
    using assms(2) serves_get(2) [OF reads, of w "deployment_name e"]
    by (auto simp: deployment_current_def write_deployment_def Let_def)
qed

section \<open>The whole handler\<close>

lemma reconcileCluster_registers:
  assumes "ke_secret_ref edge = Some ref" "reconcileCluster r edge st w = Done (Some s, st1)"
  shows "er_read_secret r ref w = Inr s \<and>
    (\<exists>x. fmlookup (os_remotes st1) (remote_key edge) = Some x \<and> rc_generation x = om_generation (sec_meta s))"
  using assms connect_remotes
  by (fastforce simp: reconcileCluster_def Let_def bind_go_Done_iff split: sum.splits if_splits option.splits)

text \<open>
  When the connection works, one \<open>Reconcile\<close> makes the secret and the deployment current, and a
  second one changes nothing.
\<close>

lemma Reconcile_settles:
  assumes world: "operator_world r sview dview eview"
    and edge: "eview w req = Some edge" "om_deletion (ke_meta edge) = None" "ke_secret_ref edge = Some ref"
      "ref \<noteq> secret_name edge" "ke_prometheus_url edge = Some url"
    and ec: "\<And>c n w. er_get_edge_cluster r c n w = Inr ec"
    and connected: "reconcileCluster r edge st w = Done (Some s, st0)"
  shows "\<exists>w' st' y. operator_Reconcile r req st w = Done ((result_zero, None, st'), w') \<and> os_remotes st' = os_remotes st0 \<and>
    sview w' (secret_name edge) = Some y \<and> secret_current s y \<and> sview w' ref = Some s \<and>
    deployment_current r ec edge (eview w' req) (dview w' (deployment_name edge))"
proof -
  have sreads: "reads sec_meta (er_secrets r) sview" using operator_worldD(2) [OF world] by (simp add: serves_def)
  obtain x where x: "er_read_secret r ref w = Inr s" "fmlookup (os_remotes st0) (remote_key edge) = Some x"
    using reconcileCluster_registers [OF edge(3) connected] by blast
  have s: "sview w ref = Some s"
    using x(1) operator_worldD(5) [OF world, of ref w] by (cases "sview w ref") simp_all
  have "meta_nsname (sec_meta s) \<noteq> secret_name edge"
    using serves_get(3) [OF sreads s] edge(4) by simp
  then obtain w1 y ev where sec: "reconcileSecret r (Some s) edge st0 w = ((result_zero, None, st0\<lparr>os_events := ev\<rparr>), w1)"
      "sview w1 (secret_name edge) = Some y" "secret_current s y" "\<And>n. n \<noteq> secret_name edge \<Longrightarrow> sview w1 n = sview w n"
      "eview w1 = eview w"
    using secret_converges [OF world edge(2), of s st0 w] edge(3) by blast
  have "eview w1 req = Some edge" using sec(5) edge(1) by simp
  then obtain w2 ev2 where dep: "write_deployment r edge ec False (st0\<lparr>os_events := ev\<rparr>) w1 =
        Done ((result_zero, None, st0\<lparr>os_events := ev\<rparr>\<lparr>os_events := ev2\<rparr>), w2)"
      "deployment_current r ec edge (eview w2 req) (dview w2 (deployment_name edge))" "sview w2 = sview w1"
    using deployment_converges [OF world _ edge(5) refl] by blast
  have "er_get_edge r req w = Inr edge" using operator_worldD(4) [OF world] edge(1) by simp
  then have "operator_Reconcile r req st w = Done ((result_zero, None, st0\<lparr>os_events := ev2\<rparr>), w2)"
    using connected sec(1) dep(1) edge(2,3) x(2) ec
    by (simp add: operator_Reconcile_def reconcileDeployment_def Let_def result_zero_def)
  moreover have "sview w2 ref = Some s" using dep(3) sec(4) [OF edge(4)] s by simp
  ultimately show ?thesis using sec(2,3) dep(2,3) by fastforce
qed

lemma Reconcile_quiet:
  assumes world: "operator_world r sview dview eview"
    and edge: "om_deletion (ke_meta edge) = None" "ke_secret_ref edge = Some ref" "ref \<noteq> secret_name edge"
    and ec: "\<And>c n w. er_get_edge_cluster r c n w = Inr ec"
    and remote: "fmlookup (os_remotes st) (remote_key edge) = Some x" "rc_generation x = om_generation (sec_meta s)"
    and settled: "sview w ref = Some s" "sview w (secret_name edge) = Some y" "secret_current s y"
      "deployment_current r ec edge (eview w req) (dview w (deployment_name edge))"
  shows "operator_Reconcile r req st w = Done ((result_zero, None, st), w)"
proof -
  have sreads: "reads sec_meta (er_secrets r) sview" using operator_worldD(2) [OF world] by (simp add: serves_def)
  obtain e where e: "eview w req = Some e" "same_edge edge e" "deployment_current r ec edge (Some e) (dview w (deployment_name e))"
    using settled(4) same_edgeD(1) by (fastforce simp: deployment_current_def)
  note same = same_edgeD [OF e(2)]
  have "er_read_secret r ref w = Inr s" using settled(1) operator_worldD(5) [OF world, of ref w] by simp
  then have connected: "reconcileCluster r e st w = Done (Some s, st)"
    using edge(2) remote same(3,5) by (intro reconcileCluster_connected [of e ref r w s st x]) simp_all
  have "meta_nsname (sec_meta s) \<noteq> secret_name e"
    using serves_get(3) [OF sreads settled(1)] edge(3) same(1) by simp
  then have sec: "reconcileSecret r (Some s) e st w = ((result_zero, None, st), w)"
    using edge(1) same(1,2) serves_get(2) [OF sreads settled(2)] settled(3) by (intro secret_quiet) simp_all
  have "er_get_edge r req w = Inr e" using operator_worldD(4) [OF world] e(1) by simp
  then show ?thesis
    using connected sec deployment_quiet [OF world e(3)] edge(1,2) same(2,3,5) remote(1) ec
    by (simp add: operator_Reconcile_def reconcileDeployment_def Let_def result_zero_def)
qed

section \<open>The operator converges\<close>


text \<open>A cloud in memory: secrets, deployments and KnativeEdges.\<close>

type_synonym fleet = "secret memory \<times> deployment memory \<times> (nsname, knative_edge) fmap"

definition set_dp_meta :: "object_meta \<Rightarrow> deployment \<Rightarrow> deployment" where
  "set_dp_meta m d = d\<lparr>dp_meta := m\<rparr>"

definition fleet_secrets :: "fleet \<Rightarrow> nsname \<Rightarrow> secret option" where
  "fleet_secrets w = memory_find sec_meta (fst w)"

definition fleet_deployments :: "fleet \<Rightarrow> nsname \<Rightarrow> deployment option" where
  "fleet_deployments w = memory_find dp_meta (fst (snd w))"

definition fleet_edges :: "fleet \<Rightarrow> nsname \<Rightarrow> knative_edge option" where
  "fleet_edges w n = (case fmlookup (snd (snd w)) n of None \<Rightarrow> None
     | Some e \<Rightarrow> if meta_nsname (ke_meta e) = n then Some e else None)"

definition fleet_reconciler :: "(fleet, unit, unit, nat) edge_reconciler" where
  "fleet_reconciler =
     \<lparr>er_get_edge = (\<lambda>n w. case fleet_edges w n of None \<Rightarrow> Inl NotFound | Some e \<Rightarrow> Inr e),
      er_read_secret = (\<lambda>n w. case fleet_secrets w n of None \<Rightarrow> Inl NotFound | Some s \<Rightarrow> Inr s),
      er_secrets = memory_client sec_meta set_sec_meta fst (\<lambda>m w. (m, snd w)),
      er_deployments = memory_client dp_meta set_dp_meta (\<lambda>w. fst (snd w)) (\<lambda>m w. (fst w, m, snd (snd w))),
      er_update_status = (\<lambda>e w. (None, (fst w, fst (snd w), fmupd (meta_nsname (ke_meta e)) e (snd (snd w))))),
      er_get_edge_cluster = (\<lambda>c n w. Inr edge_cluster_zero), er_parse = (\<lambda>s. Inr ()), er_client_config = (\<lambda>k. (Some (), None)),
      er_new_cluster = (\<lambda>c p. Inr 7), er_set_fields = (\<lambda>c. None), er_set_owner = (\<lambda>e m. m),
      er_proxy_image = ''proxy:1'', er_controller_image = ''controller:1''\<rparr>"

lemma fleet_world: "operator_world fleet_reconciler fleet_secrets fleet_deployments fleet_edges"
proof -
  have "serves sec_meta sec_data (er_secrets fleet_reconciler) fleet_secrets"
    using memory_serves [of sec_meta set_sec_meta sec_data fst "\<lambda>m w. (m, snd w)"]
    by (simp add: memory_fits_def set_sec_meta_def fleet_reconciler_def fleet_secrets_def [abs_def])
  moreover have "serves dp_meta dp_spec (er_deployments fleet_reconciler) fleet_deployments"
    using memory_serves [of dp_meta set_dp_meta dp_spec "\<lambda>w. fst (snd w)" "\<lambda>m w. (fst w, m, snd (snd w))"]
    by (simp add: memory_fits_def set_dp_meta_def fleet_reconciler_def fleet_deployments_def [abs_def])
  moreover have "isolated (er_secrets fleet_reconciler) (\<lambda>w. (fleet_deployments w, fleet_edges w))"
    by (simp add: fleet_reconciler_def memory_isolated fleet_deployments_def fleet_edges_def [abs_def])
  moreover have "isolated (er_deployments fleet_reconciler) (\<lambda>w. (fleet_secrets w, fleet_edges w))"
    by (simp add: fleet_reconciler_def memory_isolated fleet_secrets_def fleet_edges_def [abs_def])
  moreover have "status_updates fleet_reconciler fleet_edges (\<lambda>w. (fleet_secrets w, fleet_deployments w))"
    unfolding status_updates_def
    by (intro allI exI conjI) (auto simp: fleet_reconciler_def fleet_edges_def fleet_secrets_def fleet_deployments_def fun_eq_iff)
  moreover have "owner_only fleet_reconciler" by (simp add: owner_only_def fleet_reconciler_def)
  ultimately show ?thesis
    by (simp add: operator_world_def fleet_reconciler_def fleet_edges_def split: option.splits)
qed

definition fleet_edge :: knative_edge where
  "fleet_edge = knative_edge_zero\<lparr>ke_meta := meta_zero\<lparr>om_name := ''app''\<rparr>,
     ke_secret_ref := Some \<lparr>ns_namespace = ''ops'', ns_name = ''hub''\<rparr>, ke_prometheus_url := Some ''http://prom''\<rparr>"

definition fleet_hub :: secret where
  "fleet_hub = secret_zero\<lparr>sec_meta := meta_zero\<lparr>om_name := ''hub'', om_namespace := ''ops'', om_generation := 2\<rparr>,
     sec_data := Some (fmap_of_list [(''kubeconfig'', ''yaml'')])\<rparr>"

definition fleet_start :: fleet where
  "fleet_start =
     (\<lparr>my_objects = fmap_of_list [(\<lparr>ns_namespace = ''ops'', ns_name = ''hub''\<rparr>, fleet_hub)], my_writes = 0\<rparr>,
      \<lparr>my_objects = fmempty, my_writes = 0\<rparr>,
      fmap_of_list [(\<lparr>ns_namespace = [], ns_name = ''app''\<rparr>, fleet_edge)])"

definition fleet_state :: "nat operator_state" where
  "fleet_state = \<lparr>os_remotes = fmempty, os_started = [], os_stopped = [], os_events = []\<rparr>"

lemma fleet_reads_hub:
  "er_read_secret fleet_reconciler \<lparr>ns_namespace = ''ops'', ns_name = ''hub''\<rparr> fleet_start = Inr fleet_hub"
  by (simp add: fleet_reconciler_def fleet_secrets_def memory_find_def fleet_start_def fleet_hub_def meta_nsname_def)


end
