(* ===== verification/ControllerCommand.thy ===== *)
theory ControllerCommand
  imports Managers OperatorConverge Watches OffloadLoop
begin

text \<open>
  cmd/controller/main.go and the connection to the cloud of pkg/controllers/edge/cluster.go: the
  flags, the remote cluster with its cache of the environments, the mirrors with their watches,
  the store they share with the offload loop, and the order in which all this is set up. The
  manager and its answers are the argument \<open>accept\<close>; the kubeconfig loader of client-go and
  \<open>cluster.New\<close> are arguments. The lemmas say that a process runs with everything or not at all,
  and that the arguments the operator gives to its deployment arrive.
\<close>

section \<open>cluster.go\<close>

definition KubeconfigFile :: string where "KubeconfigFile = ''kubeconfig''"

definition kubeconfigPath :: string where
  "kubeconfigPath = ConfigPath @ ''/'' @ KubeconfigFile"

record cluster_options =
  co_selector :: "requirement list option"
  co_scheme :: bool

definition cluster_options_zero :: cluster_options where
  "cluster_options_zero = \<lparr>co_selector = None, co_scheme = False\<rparr>"

text \<open>
  \<open>load\<close> merges the files of the list, earlier ones first; \<open>precedence\<close> is client-go's own list.
  \<open>cluster.New\<close> applies the option function to its options and creates the cluster.
\<close>

definition NewRemoteClusterOrDie ::
  "(string list \<Rightarrow> string + 'k) \<Rightarrow> string list \<Rightarrow> ('k \<Rightarrow> cluster_options \<Rightarrow> string + 'c) \<Rightarrow>
    (cluster_options \<Rightarrow> cluster_options go) \<Rightarrow> 'c go"
where
  "NewRemoteClusterOrDie load precedence new_cluster opts =
     (case load (precedence @ [kubeconfigPath]) of
        Inl e \<Rightarrow> Panicked (''couldn't retrieve kubeconfig: '' @ e)
      | Inr kubeconfig \<Rightarrow>
          bind_go (opts cluster_options_zero) (\<lambda>options.
            case new_cluster kubeconfig options of
              Inl e \<Rightarrow> Panicked (''couldn't create remote cluster: '' @ e)
            | Inr c \<Rightarrow> Done c))"

definition NewRemoteClusterWithProxyOrDie ::
  "(string list \<Rightarrow> string + 'k) \<Rightarrow> string list \<Rightarrow> ('u \<Rightarrow> 'k \<Rightarrow> 'k) \<Rightarrow> ('k \<Rightarrow> cluster_options \<Rightarrow> string + 'c) \<Rightarrow>
    'u \<Rightarrow> (cluster_options \<Rightarrow> cluster_options go) \<Rightarrow> 'c go"
where
  "NewRemoteClusterWithProxyOrDie load precedence set_proxy new_cluster proxy opts =
     (case load (precedence @ [kubeconfigPath]) of
        Inl e \<Rightarrow> Panicked (''couldn't retrieve kubeconfig: '' @ e)
      | Inr kubeconfig \<Rightarrow>
          bind_go (opts cluster_options_zero) (\<lambda>options.
            case new_cluster (set_proxy proxy kubeconfig) options of
              Inl e \<Rightarrow> Panicked (''couldn't create remote cluster: '' @ e)
            | Inr c \<Rightarrow> Done c))"

section \<open>The controllers that are set up\<close>

record mirror_settings =
  ms_envs :: "string list"
  ms_watches :: "watch list"

definition namespace_SetupWithManager :: "string list \<Rightarrow> (event \<Rightarrow> bool go) list \<Rightarrow> mirror_settings" where
  "namespace_SetupWithManager envs predicates = \<lparr>ms_envs = envs, ms_watches = NewControllerManagedBy predicates\<rparr>"

definition secret_SetupWithManager :: "string list \<Rightarrow> (event \<Rightarrow> bool go) list \<Rightarrow> mirror_settings" where
  "secret_SetupWithManager envs predicates = \<lparr>ms_envs = envs, ms_watches = NewControllerManagedBy predicates\<rparr>"

definition configmap_SetupWithManager :: "string list \<Rightarrow> (event \<Rightarrow> bool go) list \<Rightarrow> mirror_settings" where
  "configmap_SetupWithManager envs predicates = \<lparr>ms_envs = envs, ms_watches = NewControllerManagedBy predicates\<rparr>"

record kservice_settings =
  ks_envs :: "string list"
  ks_watches :: "watch list"
  ks_remote_url :: string
  ks_proxy_image :: string
  ks_http_proxy :: string
  ks_https_proxy :: string
  ks_no_proxy :: string

record offload_settings =
  ofl_envs :: "string list"
  ofl_prometheus_url :: string

text \<open>There is one store; the service controller and the offload loop are given its address.\<close>

datatype 'c controller_step =
    RestConfig
  | NewManager manager_options
  | AddCluster 'c
  | AddStore store
  | NamespaceController mirror_settings
  | SecretController mirror_settings
  | ConfigMapController mirror_settings
  | KServiceController kservice_settings
  | HealthzCheck string
  | ReadyzCheck string
  | MetricsClient
  | AddOffload offload_settings
  | StartManager

section \<open>main\<close>

definition controller_flags :: smap where
  "controller_flags = fmap_of_list
     [(''metrics-bind-address'', '':8080''), (''health-probe-bind-address'', '':8081''), (''proxy-image'', []),
      (''envs'', []), (''remote-url'', []), (''prometheus-url'', []), (''http-proxy'', []), (''https-proxy'', []),
      (''no-proxy'', [])]"

definition flag_value :: "smap \<Rightarrow> string \<Rightarrow> string" where
  "flag_value vars name = (case fmlookup vars name of None \<Rightarrow> [] | Some v \<Rightarrow> v)"

definition controller_options :: "smap \<Rightarrow> manager_options" where
  "controller_options vars = manager_options_zero\<lparr>mo_scheme := True, mo_metrics := flag_value vars ''metrics-bind-address'',
     mo_port := 9443, mo_probe := flag_value vars ''health-probe-bind-address'', mo_leader_election := True,
     mo_leader_id := ''ad6e1dd9.edge.jevv.dev'', mo_release_on_cancel := True, mo_cache := ManagedScopedCache\<rparr>"

definition kservice_controller_step ::
  "smap \<Rightarrow> string list \<Rightarrow> store \<Rightarrow> (event \<Rightarrow> bool go) list \<Rightarrow> 'c controller_step process"
where
  "kservice_controller_step vars envs trafficStore predicates =
     (case kservice_SetupWithManager (Some trafficStore) predicates of
        Inl e \<Rightarrow> Exited 1
      | Inr watches \<Rightarrow>
          Running (KServiceController \<lparr>ks_envs = envs, ks_watches = watches, ks_remote_url = flag_value vars ''remote-url'',
            ks_proxy_image = flag_value vars ''proxy-image'', ks_http_proxy = flag_value vars ''http-proxy'',
            ks_https_proxy = flag_value vars ''https-proxy'', ks_no_proxy = flag_value vars ''no-proxy''\<rparr>))"

text \<open>\<open>flags.Parse\<close> has set \<open>vars\<close>; the rest of main.\<close>

definition controller_setup ::
  "(string list \<Rightarrow> string + 'k) \<Rightarrow> string list \<Rightarrow> ('k \<Rightarrow> cluster_options \<Rightarrow> string + 'c) \<Rightarrow> ('c controller_step \<Rightarrow> bool) \<Rightarrow>
    smap \<Rightarrow> 'c controller_step list process"
where
  "controller_setup load precedence new_cluster accept vars =
     bind_process (attempt accept RestConfig []) (\<lambda>steps.
     bind_process (attempt accept (NewManager (controller_options vars)) steps) (\<lambda>steps.
     let envs = main_envs (flag_value vars ''envs'') in
     bind_process (process_of (NewRemoteClusterOrDie load precedence new_cluster (\<lambda>opts.
       bind_go (EnvScopedCache envs) (\<lambda>sel. Done (opts\<lparr>co_selector := Some sel, co_scheme := True\<rparr>))))) (\<lambda>cluster.
     bind_process (attempt accept (AddCluster cluster) steps) (\<lambda>steps.
     let trafficStore = store_new in
     bind_process (attempt accept (AddStore trafficStore) steps) (\<lambda>steps.
     bind_process (process_of (HasEdgeSyncLabelPredicate envs)) (\<lambda>hasEdgeLabelPredicate.
     let predicates = [\<lambda>e. Done (hasEdgeLabelPredicate e)] in
     bind_process (attempt accept (NamespaceController (namespace_SetupWithManager envs predicates)) steps) (\<lambda>steps.
     bind_process (attempt accept (SecretController (secret_SetupWithManager envs predicates)) steps) (\<lambda>steps.
     bind_process (attempt accept (ConfigMapController (configmap_SetupWithManager envs predicates)) steps) (\<lambda>steps.
     bind_process (kservice_controller_step vars envs trafficStore predicates) (\<lambda>step.
     bind_process (attempt accept step steps) (\<lambda>steps.
     bind_process (attempt accept (HealthzCheck ''healthz'') steps) (\<lambda>steps.
     bind_process (attempt accept (ReadyzCheck ''readyz'') steps) (\<lambda>steps.
     bind_process (attempt accept MetricsClient steps) (\<lambda>steps.
     bind_process (attempt accept (AddOffload \<lparr>ofl_envs = envs, ofl_prometheus_url = flag_value vars ''prometheus-url''\<rparr>) steps) (\<lambda>steps.
     attempt accept StartManager steps)))))))))))))))"

definition controller_main ::
  "(string \<Rightarrow> library_flag option) \<Rightarrow> (string list \<Rightarrow> string + 'k) \<Rightarrow> string list \<Rightarrow>
    ('k \<Rightarrow> cluster_options \<Rightarrow> string + 'c) \<Rightarrow> ('c controller_step \<Rightarrow> bool) \<Rightarrow> string list \<Rightarrow> 'c controller_step list process"
where
  "controller_main lib load precedence new_cluster accept args =
     bind_process (flag_Parse lib controller_flags args) (controller_setup load precedence new_cluster accept)"

section \<open>Facts\<close>

text \<open>What a process that runs has set up, in order.\<close>

definition controller_steps :: "smap \<Rightarrow> 'c \<Rightarrow> (event \<Rightarrow> bool) \<Rightarrow> 'c controller_step list" where
  "controller_steps vars cluster p =
     (let envs = main_envs (flag_value vars ''envs''); predicates = [\<lambda>e. Done (p e)];
          watches = NewControllerManagedBy predicates; mirror = \<lparr>ms_envs = envs, ms_watches = watches\<rparr>
      in [RestConfig, NewManager (controller_options vars), AddCluster cluster, AddStore store_new,
          NamespaceController mirror, SecretController mirror, ConfigMapController mirror,
          KServiceController \<lparr>ks_envs = envs, ks_watches = projr (kservice_SetupWithManager (Some store_new) predicates),
            ks_remote_url = flag_value vars ''remote-url'', ks_proxy_image = flag_value vars ''proxy-image'',
            ks_http_proxy = flag_value vars ''http-proxy'', ks_https_proxy = flag_value vars ''https-proxy'',
            ks_no_proxy = flag_value vars ''no-proxy''\<rparr>,
          HealthzCheck ''healthz'', ReadyzCheck ''readyz'', MetricsClient,
          AddOffload \<lparr>ofl_envs = envs, ofl_prometheus_url = flag_value vars ''prometheus-url''\<rparr>, StartManager])"

definition remote_options :: "string list \<Rightarrow> cluster_options \<Rightarrow> cluster_options go" where
  "remote_options envs = (\<lambda>opts. bind_go (EnvScopedCache envs) (\<lambda>sel. Done (opts\<lparr>co_selector := Some sel, co_scheme := True\<rparr>)))"

lemma remote_cluster_Done:
  "NewRemoteClusterOrDie load precedence new_cluster (remote_options envs) = Done c \<longleftrightarrow>
     (\<exists>k. load (precedence @ [kubeconfigPath]) = Inr k \<and> label_selector_as_selector [env_requirement envs] \<noteq> None \<and>
        new_cluster k \<lparr>co_selector = Some [env_requirement envs], co_scheme = True\<rparr> = Inr c)"
  by (auto simp: NewRemoteClusterOrDie_def remote_options_def EnvScopedCache_def label_selector_as_selector_def
      cluster_options_zero_def split: sum.splits)

lemma kservice_step:
  "kservice_controller_step vars envs store_new predicates = Running s \<longleftrightarrow>
     s = KServiceController \<lparr>ks_envs = envs, ks_watches = projr (kservice_SetupWithManager (Some store_new) predicates),
       ks_remote_url = flag_value vars ''remote-url'', ks_proxy_image = flag_value vars ''proxy-image'',
       ks_http_proxy = flag_value vars ''http-proxy'', ks_https_proxy = flag_value vars ''https-proxy'',
       ks_no_proxy = flag_value vars ''no-proxy''\<rparr>"
  by (auto simp: kservice_controller_step_def kservice_SetupWithManager_def)

lemma controller_setup_Running:
  fixes vars :: smap
  defines "envs \<equiv> main_envs (flag_value vars ''envs'')"
  shows "controller_setup load precedence new_cluster accept vars = Running steps \<longleftrightarrow>
     (\<exists>cluster p. NewRemoteClusterOrDie load precedence new_cluster (remote_options envs) = Done cluster \<and>
        HasEdgeSyncLabelPredicate envs = Done p \<and> steps = controller_steps vars cluster p \<and> list_all accept steps)"
  unfolding controller_setup_def envs_def Let_def bind_process_Running_iff attempt_Running_iff kservice_step process_of_iff
    remote_options_def [symmetric] controller_steps_def namespace_SetupWithManager_def secret_SetupWithManager_def
    configmap_SetupWithManager_def
  by auto

lemma controller_main_Running:
  assumes "controller_main lib load precedence new_cluster accept args = Running steps"
  obtains vars cluster p where "flag_Parse lib controller_flags args = Running vars"
    "HasEdgeSyncLabelPredicate (main_envs (flag_value vars ''envs'')) = Done p"
    "NewRemoteClusterOrDie load precedence new_cluster (remote_options (main_envs (flag_value vars ''envs''))) = Done cluster"
    "steps = controller_steps vars cluster p" "list_all accept steps"
  using assms unfolding controller_main_def bind_process_Running_iff controller_setup_Running by blast

text \<open>The event filter of the mirrors accepts the creation of an object of one of the environments.\<close>

lemma env_predicate_create:
  assumes "HasEdgeSyncLabelPredicate envs = Done p" "envs \<noteq> []"
  shows "p (CreateEvent (Some x)) = HasEdgeSyncLabel (kobj_meta x) (Some envs)"
  using assms selector_env_iff [OF assms(2), of "kobj_meta x"]
  by (auto simp: HasEdgeSyncLabelPredicate_def label_selector_as_selector_def env_filter_def split: option.splits if_splits)

lemma mirror_watch_create:
  assumes "HasEdgeSyncLabelPredicate envs = Done p" "envs \<noteq> []"
  shows "deliver (NewControllerManagedBy [\<lambda>e. Done (p e)]) RemoteKind (CreateEvent (Some x)) =
    Done (if HasEdgeSyncLabel (kobj_meta x) (Some envs) then [meta_nsname (kobj_meta x)] else [])"
  by (simp add: deliver_remote env_predicate_create [OF assms] request_for_def)

lemma bad_environment:
  assumes "env \<in> set envs" "\<not> valid_label_value env"
  shows "label_selector_as_selector [env_requirement envs] = None"
  using assms by (auto simp: label_selector_as_selector_def env_requirement_def list_all_iff)

text \<open>The arguments of the deployment are pairs of declared flags and values.\<close>

definition edge_flags :: "('w, 'k, 'cfg, 'c) edge_reconciler \<Rightarrow> knative_edge \<Rightarrow> edge_cluster \<Rightarrow> string \<Rightarrow> (string \<times> string) list" where
  "edge_flags r edge ec prometheusUrl =
     [(''envs'', join_str '','' (ec_environments ec)), (''proxy-image'', proxy_image_of r edge), (''remote-url'', ke_host edge),
      (''http-proxy'', ke_http_proxy edge), (''https-proxy'', ke_https_proxy edge), (''no-proxy'', ke_no_proxy edge),
      (''prometheus-url'', prometheusUrl)]"

lemma buildDeployment_args:
  assumes "buildDeployment r n sn edge ec d = Done x" "dp_spec x = Some spec"
  obtains url where "ke_prometheus_url edge = Some url" "ds_args spec = flag_args (edge_flags r edge ec url)"
    "ds_mount_path spec = ConfigPath"
  using assms by (auto simp: buildDeployment_def edge_flags_def Let_def split: option.splits)

lemma controller_flags_declared:
  "list_all (\<lambda>n. plain_name n \<and> fmlookup controller_flags n \<noteq> None)
     [''envs'', ''proxy-image'', ''remote-url'', ''http-proxy'', ''https-proxy'', ''no-proxy'', ''prometheus-url'']"
  by code_simp

lemma edge_flags_parse:
  "flag_Parse lib controller_flags (flag_args (edge_flags r edge ec url)) = Running (assign_all (edge_flags r edge ec url) controller_flags)"
proof (rule flag_Parse_args)
  fix n v assume "(n, v) \<in> set (edge_flags r edge ec url)"
  then have "n \<in> set (map fst (edge_flags r edge ec url))" by force
  moreover have "map fst (edge_flags r edge ec url) =
      [''envs'', ''proxy-image'', ''remote-url'', ''http-proxy'', ''https-proxy'', ''no-proxy'', ''prometheus-url'']"
    unfolding edge_flags_def list.map fst_conv ..
  ultimately have "n \<in> set [''envs'', ''proxy-image'', ''remote-url'', ''http-proxy'', ''https-proxy'', ''no-proxy'', ''prometheus-url'']"
    by metis
  then show "plain_name n \<and> fmlookup controller_flags n \<noteq> None"
    using controller_flags_declared unfolding list_all_iff by blast
qed

lemma edge_flags_values:
  "flag_value (assign_all (edge_flags r edge ec url) controller_flags) ''envs'' = join_str '','' (ec_environments ec)"
  "flag_value (assign_all (edge_flags r edge ec url) controller_flags) ''proxy-image'' = proxy_image_of r edge"
  "flag_value (assign_all (edge_flags r edge ec url) controller_flags) ''remote-url'' = ke_host edge"
  "flag_value (assign_all (edge_flags r edge ec url) controller_flags) ''http-proxy'' = ke_http_proxy edge"
  "flag_value (assign_all (edge_flags r edge ec url) controller_flags) ''https-proxy'' = ke_https_proxy edge"
  "flag_value (assign_all (edge_flags r edge ec url) controller_flags) ''no-proxy'' = ke_no_proxy edge"
  "flag_value (assign_all (edge_flags r edge ec url) controller_flags) ''prometheus-url'' = url"
  unfolding edge_flags_def assign_all.simps flag_value_def fmupd_lookup by simp_all

lemma main_envs_join:
  assumes "envs \<noteq> []" "\<And>e. e \<in> set envs \<Longrightarrow> CHR '','' \<notin> set e"
  shows "main_envs (join_str '','' envs) = envs"
  using split_join_char [of envs "CHR '',''"] assms by (simp add: main_envs_def)

lemma controller_main_runs:
  assumes "flag_Parse lib controller_flags args = Running vars" "load (precedence @ [kubeconfigPath]) = Inr k"
    and "\<And>os. new_cluster k os = Inr c" "\<And>s. accept s"
    and "list_all valid_label_value (main_envs (flag_value vars ''envs''))"
  shows "\<exists>p. controller_main lib load precedence new_cluster accept args = Running (controller_steps vars c p)"
proof -
  let ?envs = "main_envs (flag_value vars ''envs'')"
  have valid: "label_selector_as_selector [env_requirement ?envs] = Some [env_requirement ?envs]"
    using assms(5) by (simp add: label_selector_as_selector_def env_requirement_def)
  have "NewRemoteClusterOrDie load precedence new_cluster (remote_options ?envs) = Done c"
    using assms(2,3) valid by (simp add: remote_cluster_Done)
  moreover have "HasEdgeSyncLabelPredicate ?envs = Done (env_predicate [env_requirement ?envs])"
    using valid by (simp add: HasEdgeSyncLabelPredicate_def)
  moreover have "list_all accept ss" for ss using assms(4) by (simp add: list_all_iff)
  ultimately show ?thesis
    unfolding controller_main_def bind_process_Running_iff assms(1) controller_setup_Running by blast
qed

lemma sample_flags_parse:
  "flag_Parse (\<lambda>n. None) controller_flags [''--envs=prod,eu''] = Running (fmupd ''envs'' ''prod,eu'' controller_flags)"
  by (simp add: flag_token_def controller_flags_def)

lemma controller_runs_sample:
  "\<exists>p. controller_main (\<lambda>n. None) (\<lambda>files. Inr ()) [] (\<lambda>k os. Inr ()) (\<lambda>s. True) [''--envs=prod,eu''] =
    Running (controller_steps (fmupd ''envs'' ''prod,eu'' controller_flags) () p)"
proof -
  have "list_all valid_label_value (main_envs (flag_value (fmupd ''envs'' ''prod,eu'' controller_flags) ''envs''))"
    by code_simp
  then show ?thesis
    using controller_main_runs [OF sample_flags_parse, of "\<lambda>files. Inr ()" "[]" "()" "\<lambda>k os. Inr ()" "()" "\<lambda>s. True"] by auto
qed

section \<open>The start of the controller\<close>

text \<open>
  C33. A controller that runs has set up everything, in the order of main and with every step
  accepted, and its flag of environments decides which objects of the cloud lead to requests: all
  four controllers ask for the reconcile of a new remote object exactly when it is labelled with one
  of them.
\<close>

theorem controller_watches_environments:
  assumes "controller_main lib load precedence new_cluster accept args = Running steps"
  shows "\<exists>vars cluster p. flag_Parse lib controller_flags args = Running vars \<and> steps = controller_steps vars cluster p \<and>
    list_all accept steps \<and>
    (\<forall>ws x. (\<exists>m. (NamespaceController m \<in> set steps \<or> SecretController m \<in> set steps \<or> ConfigMapController m \<in> set steps) \<and> ws = ms_watches m) \<or>
        (\<exists>k. KServiceController k \<in> set steps \<and> ws = ks_watches k) \<longrightarrow>
      deliver ws RemoteKind (CreateEvent (Some x)) =
        Done (if HasEdgeSyncLabel (kobj_meta x) (Some (main_envs (flag_value vars ''envs''))) then [meta_nsname (kobj_meta x)] else []))"
proof -
  obtain vars cluster p where run: "flag_Parse lib controller_flags args = Running vars"
      "HasEdgeSyncLabelPredicate (main_envs (flag_value vars ''envs'')) = Done p"
      "steps = controller_steps vars cluster p" "list_all accept steps"
    using assms by (rule controller_main_Running)
  let ?ws = "NewControllerManagedBy [\<lambda>e. Done (p e)]"
  obtain ws where ws: "kservice_SetupWithManager (Some store_new) [\<lambda>e. Done (p e)] = Inr ws"
    by (simp add: kservice_SetupWithManager_def)
  have create: "deliver ws' RemoteKind (CreateEvent (Some x)) =
      Done (if HasEdgeSyncLabel (kobj_meta x) (Some (main_envs (flag_value vars ''envs''))) then [meta_nsname (kobj_meta x)] else [])"
    if "ws' = ?ws \<or> ws' = ws" for ws' x
    using that mirror_watch_create [OF run(2) main_envs_not_Nil] deliver_configurations(3) [OF ws] by auto
  have kinds: "ms_watches m = ?ws" if "NamespaceController m \<in> set steps \<or> SecretController m \<in> set steps \<or> ConfigMapController m \<in> set steps" for m
    using that by (auto simp: run(3) controller_steps_def Let_def)
  have service: "ks_watches k = ws" if "KServiceController k \<in> set steps" for k
    using that ws by (auto simp: run(3) controller_steps_def Let_def)
  show ?thesis using run create kinds service by blast
qed

theorem controller_watches_environments_witness:
  "\<exists>steps vars. controller_main (\<lambda>n. None) (\<lambda>files. Inr ()) [] (\<lambda>k os. Inr ()) (\<lambda>s. True) [''--envs=prod,eu''] = Running steps \<and>
    flag_Parse (\<lambda>n. None) controller_flags [''--envs=prod,eu''] = Running vars \<and> StartManager \<in> set steps"
proof -
  obtain p where "controller_main (\<lambda>n. None) (\<lambda>files. Inr ()) [] (\<lambda>k os. Inr ()) (\<lambda>s. True) [''--envs=prod,eu''] =
      Running (controller_steps (fmupd ''envs'' ''prod,eu'' controller_flags) () p)"
    using controller_runs_sample by blast
  from controller_watches_environments [OF this] this show ?thesis
    using sample_flags_parse by (auto simp: controller_steps_def Let_def)
qed

text \<open>
  C34. An environment that is not a valid label value makes the controller panic when it connects
  to the cloud: nothing is mirrored, and no controller is ever set up.
\<close>

theorem bad_environment_crashes:
  assumes "flag_Parse lib controller_flags args = Running vars"
    and "env \<in> set (main_envs (flag_value vars ''envs''))" "\<not> valid_label_value env"
    and "accept RestConfig" "accept (NewManager (controller_options vars))" "load (precedence @ [kubeconfigPath]) = Inr k"
  shows "controller_main lib load precedence new_cluster accept args = Crashed ''couldn't create label selector''"
proof -
  have "NewRemoteClusterOrDie load precedence new_cluster (remote_options (main_envs (flag_value vars ''envs''))) =
      Panicked ''couldn't create label selector''"
    using assms(6) bad_environment [OF assms(2,3)]
    by (simp add: NewRemoteClusterOrDie_def remote_options_def EnvScopedCache_def)
  then show ?thesis
    using assms(1,4,5)
    by (simp add: controller_main_def controller_setup_def attempt_def Let_def remote_options_def)
qed

theorem bad_environment_crashes_witness:
  "controller_main (\<lambda>n. None) (\<lambda>files. Inr ()) [] (\<lambda>k os. Inr ()) (\<lambda>s. True) [''--envs=eu west''] =
    Crashed ''couldn't create label selector''"
proof (rule bad_environment_crashes [where env = "''eu west''"])
  show "flag_Parse (\<lambda>n. None) controller_flags [''--envs=eu west''] = Running (fmupd ''envs'' ''eu west'' controller_flags)"
    by (simp add: flag_token_def controller_flags_def)
  show "''eu west'' \<in> set (main_envs (flag_value (fmupd ''envs'' ''eu west'' controller_flags) ''envs''))"
    by (simp add: flag_value_def main_envs_def)
  show "\<not> valid_label_value ''eu west''" by code_simp
qed simp_all

section \<open>The operator starts the controller\<close>

text \<open>
  C11. What a KnativeEdge says reaches the controller: parsed by the flags of the controller, the
  arguments of the deployment that the operator builds set up the service controller with the
  host, the images and the proxies of the KnativeEdge and the environments of the EdgeCluster, and
  the offload loop with the Prometheus address; the kubeconfig is read where the deployment mounts
  the secret. The environments must be there and free of commas.
\<close>

theorem deployment_configures_controller:
  assumes "buildDeployment r n sn edge ec d = Done x" "dp_spec x = Some spec"
    and "controller_main lib load precedence new_cluster accept (ds_args spec) = Running steps"
    and "ec_environments ec \<noteq> []" "\<And>e. e \<in> set (ec_environments ec) \<Longrightarrow> CHR '','' \<notin> set e"
  shows "(\<exists>k. KServiceController k \<in> set steps \<and> ks_envs k = ec_environments ec \<and> ks_remote_url k = ke_host edge \<and>
      ks_proxy_image k = proxy_image_of r edge \<and> ks_http_proxy k = ke_http_proxy edge \<and>
      ks_https_proxy k = ke_https_proxy edge \<and> ks_no_proxy k = ke_no_proxy edge) \<and>
    (\<exists>f. AddOffload f \<in> set steps \<and> ofl_envs f = ec_environments ec \<and> ke_prometheus_url edge = Some (ofl_prometheus_url f)) \<and>
    kubeconfigPath = ds_mount_path spec @ ''/kubeconfig''"
proof -
  obtain url where url: "ke_prometheus_url edge = Some url" "ds_args spec = flag_args (edge_flags r edge ec url)"
      "ds_mount_path spec = ConfigPath"
    using assms(1,2) by (rule buildDeployment_args)
  let ?vars = "assign_all (edge_flags r edge ec url) controller_flags"
  obtain c p where steps: "steps = controller_steps ?vars c p"
    using assms(3) unfolding url(2) by (rule controller_main_Running) (simp add: edge_flags_parse)
  have "main_envs (join_str '','' (ec_environments ec)) = ec_environments ec"
    using assms(4,5) by (rule main_envs_join)
  then show ?thesis
    using url(1,3) by (simp add: steps controller_steps_def Let_def edge_flags_values kubeconfigPath_def KubeconfigFile_def)
qed

theorem deployment_configures_controller_witness:
  "\<exists>(spec :: deployment_spec) steps k. controller_main (\<lambda>n. None) (\<lambda>files. Inr ()) [] (\<lambda>k os. Inr ()) (\<lambda>s. True) (ds_args spec) = Running steps \<and>
    KServiceController k \<in> set steps \<and> ks_envs k = [''prod'', ''eu''] \<and> ks_proxy_image k = ''proxy:1''"
proof -
  let ?ec = "edge_cluster_zero\<lparr>ec_environments := [''prod'', ''eu'']\<rparr>"
  obtain x spec where x: "buildDeployment fleet_reconciler (deployment_name fleet_edge) (secret_name fleet_edge) fleet_edge ?ec deployment_zero = Done x"
      "dp_spec x = Some spec"
    by (simp add: buildDeployment_def fleet_edge_def Let_def)
  obtain url where url: "ds_args spec = flag_args (edge_flags fleet_reconciler fleet_edge ?ec url)"
    using x by (rule buildDeployment_args)
  have "list_all valid_label_value (main_envs ''prod,eu'')" by code_simp
  then have "list_all valid_label_value (main_envs (flag_value (assign_all (edge_flags fleet_reconciler fleet_edge ?ec url) controller_flags) ''envs''))"
    by (simp add: edge_flags_values)
  from controller_main_runs [OF edge_flags_parse _ _ _ this, of "\<lambda>files. Inr ()" "[]" "()" "\<lambda>k os. Inr ()" "()" "\<lambda>s. True"]
  obtain steps where steps: "controller_main (\<lambda>n. None) (\<lambda>files. Inr ()) [] (\<lambda>k os. Inr ()) (\<lambda>s. True) (ds_args spec) = Running steps"
    unfolding url by blast
  have "proxy_image_of fleet_reconciler fleet_edge = ''proxy:1''"
    by (simp add: proxy_image_of_def fleet_reconciler_def fleet_edge_def knative_edge_zero_def)
  moreover have "ec_environments ?ec \<noteq> []" "\<And>e. e \<in> set (ec_environments ?ec) \<Longrightarrow> CHR '','' \<notin> set e" by auto
  note deployment_configures_controller [OF x steps this]
  ultimately obtain k where "KServiceController k \<in> set steps" "ks_envs k = [''prod'', ''eu'']" "ks_proxy_image k = ''proxy:1''"
    by auto
  with steps show ?thesis by blast
qed

end
