(* ===== verification/OperatorCommand.thy ===== *)
theory OperatorCommand
  imports ControllerCommand
begin

text \<open>
  cmd/operator/main.go and the \<open>SetupWithManager\<close> of the operator: the flags, how defaults, flags
  and the configuration file make the options of the manager, the namespaces that are watched, the
  start, and which events lead to a reconcile of a KnativeEdge. The loader of the file, the
  manager and the references to owners in the metadata are arguments.
\<close>

section \<open>Configuration\<close>

record operator_config =
  oc_spec :: config_spec
  oc_namespaces :: "string list option"
  oc_remote_sync :: "int option"

definition operator_config_zero :: operator_config where
  "operator_config_zero = \<lparr>oc_spec = config_spec_zero, oc_namespaces = None, oc_remote_sync = None\<rparr>"

definition defaultManagerOptions :: "string + config_spec" where
  "defaultManagerOptions = Inr (config_spec_zero\<lparr>cs_metrics := '':8080'', cs_probe := '':8081'',
     cs_leader_election := Some \<lparr>le_elect = Some True, le_lock = [], le_namespace = [],
       le_name = ''d0dsk0s.operator.edge.jevv.dev'', le_lease = 0, le_renew = 0, le_retry = 0\<rparr>\<rparr>)"

text \<open>
  The options of the manager and the sync period of remote clusters. The file is loaded into
  \<open>ctrlConfig\<close>, whose specification is what the loader gives to \<open>AndFrom\<close>.
\<close>

definition finish_options :: "manager_options \<Rightarrow> operator_config \<Rightarrow> manager_options \<times> int" where
  "finish_options options3 ctrlConfig =
     (let remoteSyncPeriod = (case oc_remote_sync ctrlConfig of None \<Rightarrow> 300 * second | Some d \<Rightarrow> d);
          options4 = (case oc_namespaces ctrlConfig of
              None \<Rightarrow> options3\<lparr>mo_namespace := []\<rparr>
            | Some ns \<Rightarrow> options3\<lparr>mo_cache := MultiNamespacedCache (withSystemNamespace ns), mo_namespace := []\<rparr>);
          options5 = (if mo_sync_period options4 = None then options4\<lparr>mo_sync_period := Some (60 * second)\<rparr> else options4)
      in (options5, remoteSyncPeriod))"

definition operator_options ::
  "(string \<Rightarrow> string + operator_config) \<Rightarrow> string \<Rightarrow> string \<Rightarrow> string \<Rightarrow> (manager_options \<times> int) process"
where
  "operator_options load_config configFile metricsAddr probeAddr =
     (let options1 = manager_options_zero\<lparr>mo_scheme := True, mo_metrics := metricsAddr, mo_probe := probeAddr,
            mo_release_on_cancel := True\<rparr>;
          options2 = fst (AndFrom options1 defaultManagerOptions)
      in if configFile = [] then Running (finish_options options2 operator_config_zero)
         else
           (case load_config configFile of
              Inl e \<Rightarrow> Exited 1
            | Inr c \<Rightarrow> Running (finish_options (fst (AndFrom options2 (Inr (oc_spec c)))) c)))"

section \<open>The start\<close>

record edge_settings =
  es_proxy_image :: string
  es_controller_image :: string
  es_remote_sync :: int

datatype operator_step =
    OperatorRestConfig
  | OperatorManager manager_options
  | NewSystemCluster string
  | AddSystemCluster
  | EdgeController edge_settings
  | OperatorHealthzCheck string
  | OperatorReadyzCheck string
  | StartOperator

definition operator_SetupWithManager ::
  "(operator_step \<Rightarrow> bool) \<Rightarrow> edge_settings \<Rightarrow> operator_step list \<Rightarrow> operator_step list process"
where
  "operator_SetupWithManager accept settings steps =
     bind_process (attempt accept (NewSystemCluster SystemNamespace) steps) (\<lambda>steps.
     bind_process (attempt accept AddSystemCluster steps) (\<lambda>steps.
     attempt accept (EdgeController settings) steps))"

definition operator_flags :: smap where
  "operator_flags = fmap_of_list
     [(''config'', []), (''metrics-bind-address'', []), (''health-probe-bind-address'', []), (''proxy-image'', []),
      (''controller-image'', [])]"

definition operator_main ::
  "(string \<Rightarrow> library_flag option) \<Rightarrow> (string \<Rightarrow> string + operator_config) \<Rightarrow> (operator_step \<Rightarrow> bool) \<Rightarrow> string list \<Rightarrow>
    operator_step list process"
where
  "operator_main lib load_config accept args =
     bind_process (flag_Parse lib operator_flags args) (\<lambda>vars.
     bind_process (operator_options load_config (flag_value vars ''config'') (flag_value vars ''metrics-bind-address'')
       (flag_value vars ''health-probe-bind-address'')) (\<lambda>op.
     bind_process (attempt accept OperatorRestConfig []) (\<lambda>steps.
     bind_process (attempt accept (OperatorManager (fst op)) steps) (\<lambda>steps.
     bind_process (operator_SetupWithManager accept \<lparr>es_proxy_image = flag_value vars ''proxy-image'',
       es_controller_image = flag_value vars ''controller-image'', es_remote_sync = snd op\<rparr> steps) (\<lambda>steps.
     bind_process (attempt accept (OperatorHealthzCheck ''healthz'') steps) (\<lambda>steps.
     bind_process (attempt accept (OperatorReadyzCheck ''readyz'') steps) (\<lambda>steps.
     attempt accept StartOperator steps)))))))"

section \<open>The watches of the operator\<close>

text \<open>
  \<open>controller_of\<close> reads the name of the KnativeEdge that controls an object out of the rest of its
  metadata. KnativeEdge is a namespaced kind: the request has the namespace of the object.
\<close>

definition getOwnerReconcileRequest :: "(string \<Rightarrow> string option) \<Rightarrow> kobject option \<Rightarrow> nsname list" where
  "getOwnerReconcileRequest controller_of obj =
     (case obj of
        None \<Rightarrow> []
      | Some x \<Rightarrow>
          (case controller_of (om_other (kobj_meta x)) of
             None \<Rightarrow> []
           | Some name \<Rightarrow> [\<lparr>ns_namespace = om_namespace (kobj_meta x), ns_name = name\<rparr>]))"

fun EnqueueRequestForOwner :: "(string \<Rightarrow> string option) \<Rightarrow> event \<Rightarrow> nsname list" where
  "EnqueueRequestForOwner controller_of (CreateEvent obj) = getOwnerReconcileRequest controller_of obj"
| "EnqueueRequestForOwner controller_of (UpdateEvent old new) =
     remdups (getOwnerReconcileRequest controller_of old @ getOwnerReconcileRequest controller_of new)"
| "EnqueueRequestForOwner controller_of (DeleteEvent obj) = getOwnerReconcileRequest controller_of obj"
| "EnqueueRequestForOwner controller_of (GenericEvent obj) = getOwnerReconcileRequest controller_of obj"

datatype operator_source = KnativeEdges | SystemDeployments | SystemSecrets

fun operator_watches :: "(string \<Rightarrow> string option) \<Rightarrow> operator_source \<Rightarrow> event \<Rightarrow> nsname list" where
  "operator_watches controller_of KnativeEdges e = EnqueueRequestForObject e"
| "operator_watches controller_of SystemDeployments e = EnqueueRequestForOwner controller_of e"
| "operator_watches controller_of SystemSecrets e = EnqueueRequestForOwner controller_of e"

text \<open>\<open>SetControllerReference\<close> refuses an owner from another namespace; the operator ignores the error.\<close>

definition validateOwner :: "string \<Rightarrow> string \<Rightarrow> bool" where
  "validateOwner ownerNs objNs \<longleftrightarrow> (ownerNs \<noteq> [] \<longrightarrow> objNs \<noteq> [] \<and> ownerNs = objNs)"

definition sets_controller :: "('w, 'k, 'cfg, 'c) edge_reconciler \<Rightarrow> (string \<Rightarrow> string option) \<Rightarrow> bool" where
  "sets_controller r controller_of \<longleftrightarrow>
     owner_only r \<and>
     (\<forall>e m. controller_of (om_other m) = None \<longrightarrow>
        controller_of (om_other (er_set_owner r e m)) =
          (if validateOwner (om_namespace (ke_meta e)) (om_namespace m) then Some (om_name (ke_meta e)) else None))"

section \<open>Facts\<close>

lemma defaults_options:
  assumes "o1 = manager_options_zero\<lparr>mo_scheme := True, mo_metrics := m, mo_probe := p, mo_release_on_cancel := True\<rparr>"
    and "o2 = fst (AndFrom o1 defaultManagerOptions)"
  shows "mo_metrics o2 = (if m = [] then '':8080'' else m)" "mo_probe o2 = (if p = [] then '':8081'' else p)"
    "mo_leader_election o2" "mo_leader_id o2 = ''d0dsk0s.operator.edge.jevv.dev''" "mo_sync_period o2 = None"
    "mo_cache o2 = DefaultCache"
  using assms
  by (simp_all add: defaultManagerOptions_def AndFrom_fields config_spec_zero_def manager_options_zero_def
      setLeaderElectionConfig_def)

lemma file_keeps:
  assumes "mo_metrics o2 \<noteq> []" "mo_probe o2 \<noteq> []" "mo_leader_election o2" "mo_leader_id o2 \<noteq> []"
  shows "mo_metrics (fst (AndFrom o2 (Inr c))) = mo_metrics o2" "mo_probe (fst (AndFrom o2 (Inr c))) = mo_probe o2"
    "mo_leader_election (fst (AndFrom o2 (Inr c)))" "mo_leader_id (fst (AndFrom o2 (Inr c))) = mo_leader_id o2"
  using assms by (simp_all add: AndFrom_fields leader_keeps)

text \<open>The file that a run of the operator has read, or the empty configuration.\<close>

definition configured :: "(string \<Rightarrow> string + operator_config) \<Rightarrow> string \<Rightarrow> operator_config option" where
  "configured load_config configFile =
     (if configFile = [] then Some operator_config_zero
      else case load_config configFile of Inl e \<Rightarrow> None | Inr c \<Rightarrow> Some c)"

lemma operator_options_Running:
  assumes "operator_options load_config f m p = Running (opts, remoteSync)"
  obtains c where "configured load_config f = Some c"
    "mo_metrics opts = (if m = [] then '':8080'' else m)" "mo_probe opts = (if p = [] then '':8081'' else p)"
    "mo_leader_election opts" "mo_leader_id opts = ''d0dsk0s.operator.edge.jevv.dev''"
    "mo_sync_period opts = (case cs_sync_period (oc_spec c) of None \<Rightarrow> Some (60 * second) | Some d \<Rightarrow> Some d)"
    "mo_namespace opts = []"
    "mo_cache opts = (case oc_namespaces c of None \<Rightarrow> DefaultCache | Some ns \<Rightarrow> MultiNamespacedCache (withSystemNamespace ns))"
    "remoteSync = (case oc_remote_sync c of None \<Rightarrow> 300 * second | Some d \<Rightarrow> d)"
proof -
  define o1 where "o1 = manager_options_zero\<lparr>mo_scheme := True, mo_metrics := m, mo_probe := p, mo_release_on_cancel := True\<rparr>"
  define o2 where "o2 = fst (AndFrom o1 defaultManagerOptions)"
  note d = defaults_options [OF o1_def o2_def]
  have keep: "mo_metrics (fst (AndFrom o2 (Inr c))) = mo_metrics o2" "mo_probe (fst (AndFrom o2 (Inr c))) = mo_probe o2"
    "mo_leader_election (fst (AndFrom o2 (Inr c)))" "mo_leader_id (fst (AndFrom o2 (Inr c))) = mo_leader_id o2" for c
    by (rule file_keeps; use d in simp)+
  obtain o3 c where oc: "configured load_config f = Some c" "o3 = o2 \<and> f = [] \<or> o3 = fst (AndFrom o2 (Inr (oc_spec c))) \<and> f \<noteq> []"
    and opts: "(opts, remoteSync) = finish_options o3 c"
    using assms unfolding operator_options_def o1_def [symmetric] Let_def o2_def [symmetric]
    by (cases "f = []"; cases "load_config f") (auto simp: configured_def)
  have o3: "mo_metrics o3 = mo_metrics o2" "mo_probe o3 = mo_probe o2" "mo_leader_election o3" "mo_leader_id o3 = mo_leader_id o2"
      "mo_cache o3 = DefaultCache" "mo_sync_period o3 = cs_sync_period (oc_spec c)"
    using oc d keep by (auto simp: configured_def operator_config_zero_def config_spec_zero_def AndFrom_fields)
  show ?thesis
    by (rule that [of c]; use oc(1) opts o3 d in \<open>simp add: finish_options_def Let_def split: option.splits\<close>)
qed

lemma getOwnerReconcileRequest_owned:
  assumes "sets_controller r controller_of" "om_namespace (ke_meta edge) \<noteq> []"
    and "controller_of (om_other m) = None" "om_namespace m = SystemNamespace"
  shows "getOwnerReconcileRequest controller_of (Some (KOther (er_set_owner r edge m))) =
    (if om_namespace (ke_meta edge) = SystemNamespace then [meta_nsname (ke_meta edge)] else [])"
proof -
  have "om_namespace (er_set_owner r edge m) = SystemNamespace"
    using assms(1,4) by (simp add: sets_controller_def owner_only_def)
  then show ?thesis
    using assms by (simp add: getOwnerReconcileRequest_def sets_controller_def validateOwner_def meta_nsname_def)
qed

section \<open>The command and the watches\<close>

text \<open>
  C35. The configuration file of the operator decides about the namespaces, which then contain the
  system namespace, and the sync periods, which are one and five minutes without it. The
  addresses of the metrics and of the probes, the leader election and its name are those of the
  flags or the built-in defaults, whatever the file says: the defaults are applied before the
  file is read, and set options are not overwritten.
\<close>

theorem config_file_cannot_override:
  assumes "operator_options load_config f m p = Running (opts, remoteSync)"
  shows "\<exists>c. configured load_config f = Some c \<and>
    mo_metrics opts = (if m = [] then '':8080'' else m) \<and> mo_probe opts = (if p = [] then '':8081'' else p) \<and>
    mo_leader_election opts \<and> mo_leader_id opts = ''d0dsk0s.operator.edge.jevv.dev'' \<and>
    mo_sync_period opts = (case cs_sync_period (oc_spec c) of None \<Rightarrow> Some (60 * second) | Some d \<Rightarrow> Some d) \<and>
    remoteSync = (case oc_remote_sync c of None \<Rightarrow> 300 * second | Some d \<Rightarrow> d) \<and> mo_namespace opts = [] \<and>
    (case oc_namespaces c of
       None \<Rightarrow> mo_cache opts = DefaultCache
     | Some ns \<Rightarrow> \<exists>ns'. mo_cache opts = MultiNamespacedCache ns' \<and> SystemNamespace \<in> set ns' \<and> set ns \<subseteq> set ns')"
proof -
  obtain c where c: "configured load_config f = Some c"
    "mo_metrics opts = (if m = [] then '':8080'' else m)" "mo_probe opts = (if p = [] then '':8081'' else p)"
    "mo_leader_election opts" "mo_leader_id opts = ''d0dsk0s.operator.edge.jevv.dev''"
    "mo_sync_period opts = (case cs_sync_period (oc_spec c) of None \<Rightarrow> Some (60 * second) | Some d \<Rightarrow> Some d)"
    "mo_namespace opts = []"
    "mo_cache opts = (case oc_namespaces c of None \<Rightarrow> DefaultCache | Some ns \<Rightarrow> MultiNamespacedCache (withSystemNamespace ns))"
    "remoteSync = (case oc_remote_sync c of None \<Rightarrow> 300 * second | Some d \<Rightarrow> d)"
    using assms by (rule operator_options_Running)
  then have "case oc_namespaces c of
      None \<Rightarrow> mo_cache opts = DefaultCache
    | Some ns \<Rightarrow> \<exists>ns'. mo_cache opts = MultiNamespacedCache ns' \<and> SystemNamespace \<in> set ns' \<and> set ns \<subseteq> set ns'"
    using withSystemNamespace_mem by (simp split: option.split)
  with c show ?thesis by blast
qed

definition sample_file :: operator_config where
  "sample_file = \<lparr>oc_spec = config_spec_zero\<lparr>cs_metrics := '':9090'', cs_sync_period := Some (120 * second)\<rparr>,
     oc_namespaces = Some [''shop''], oc_remote_sync = None\<rparr>"

theorem config_file_cannot_override_witness:
  "\<exists>opts. operator_options (\<lambda>f. Inr sample_file) ''operator.yaml'' [] [] = Running (opts, 300 * second) \<and>
    mo_metrics opts = '':8080'' \<and> mo_sync_period opts = Some (120 * second)"
proof -
  obtain opts s where run: "operator_options (\<lambda>f. Inr sample_file) ''operator.yaml'' [] [] = Running (opts, s)"
    by (simp add: operator_options_def finish_options_def Let_def)
  have "configured (\<lambda>f. Inr sample_file) ''operator.yaml'' = Some sample_file" by (simp add: configured_def)
  then show ?thesis
    using config_file_cannot_override [OF run] run by (auto simp: sample_file_def)
qed


text \<open>References to owners, as the name in the rest of the metadata.\<close>

definition marking_reconciler :: "(fleet, unit, unit, nat) edge_reconciler" where
  "marking_reconciler = fleet_reconciler\<lparr>er_set_owner := (\<lambda>e m.
     if validateOwner (om_namespace (ke_meta e)) (om_namespace m) then m\<lparr>om_other := CHR ''!'' # om_name (ke_meta e)\<rparr> else m)\<rparr>"

definition marked_controller :: "string \<Rightarrow> string option" where
  "marked_controller s = (case s of [] \<Rightarrow> None | c # cs \<Rightarrow> if c = CHR ''!'' then Some cs else None)"

lemma marking_sets_controller: "sets_controller marking_reconciler marked_controller"
  by (auto simp: sets_controller_def owner_only_def marking_reconciler_def marked_controller_def)

definition edge_in :: "string \<Rightarrow> knative_edge" where
  "edge_in namespace = fleet_edge\<lparr>ke_meta := meta_zero\<lparr>om_name := ''app'', om_namespace := namespace\<rparr>\<rparr>"


text \<open>
  KnativeEdges are told apart by their names only, although they live in namespaces: two of
  the same name have one secret, one deployment and one connection, so that the second one is
  taken for connected, without a look at its kubeconfig, when the generations agree.
\<close>

theorem edges_share_connection:
  assumes "om_name (ke_meta b) = om_name (ke_meta a)" "ke_secret_ref b = Some ref" "er_read_secret r ref w = Inr s"
    and "fmlookup (os_remotes st) (remote_key a) = Some x" "rc_generation x = om_generation (sec_meta s)"
  shows "reconcileCluster r b st w = Done (Some s, st) \<and> fmlookup (os_remotes st) (remote_key b) = Some x \<and>
    secret_name b = secret_name a \<and> deployment_name b = deployment_name a"
proof -
  have key: "remote_key b = remote_key a" using assms(1) by (simp add: remote_key_def)
  then show ?thesis
    using assms reconcileCluster_connected [OF assms(2,3), of st x] by simp
qed

theorem edges_share_connection_witness:
  "reconcileCluster fleet_reconciler (edge_in ''shop'')
     (fleet_state\<lparr>os_remotes := fmupd (remote_key (edge_in ''ops'')) \<lparr>rc_cluster = 3, rc_generation = 2\<rparr> fmempty\<rparr>) fleet_start =
   Done (Some fleet_hub, fleet_state\<lparr>os_remotes := fmupd (remote_key (edge_in ''ops'')) \<lparr>rc_cluster = 3, rc_generation = 2\<rparr> fmempty\<rparr>)"
  using edges_share_connection [of "edge_in ''shop''" "edge_in ''ops''" "\<lparr>ns_namespace = ''ops'', ns_name = ''hub''\<rparr>"
      fleet_reconciler fleet_start fleet_hub] fleet_reads_hub
  by (simp add: edge_in_def fleet_edge_def fleet_hub_def)

text \<open>
  A kubeconfig that changes without a new generation of its secret is not noticed: the
  connection is kept and the copy of the secret stays as it is, whatever the new data.
\<close>

theorem rotation_unnoticed:
  assumes "om_deletion (ke_meta edge) = None" "ke_secret_ref edge = Some ref" "er_read_secret r ref w = Inr s"
    and "fmlookup (os_remotes st) (remote_key edge) = Some x" "rc_generation x = om_generation (sec_meta s)"
    and "meta_nsname (sec_meta s) \<noteq> secret_name edge" "kc_get (er_secrets r) (secret_name edge) w = Inr y" "secret_current s y"
  shows "reconcileCluster r edge st w = Done (Some s, st) \<and> reconcileSecret r (Some s) edge st w = ((result_zero, None, st), w)"
  using reconcileCluster_connected [OF assms(2-5)] secret_quiet [OF assms(1,6-8)] by simp

theorem rotation_unnoticed_witness:
  "\<exists>st w s. reconcileSecret fleet_reconciler (Some s) fleet_edge st w = ((result_zero, None, st), w) \<and> sec_data s \<noteq> None"
proof -
  let ?copy = "secret_zero\<lparr>sec_meta := meta_zero\<lparr>om_name := ''app-edgeconfig'', om_namespace := SystemNamespace,
    om_annotations := Some (fmap_of_list [(ObservedGenerationAnnotation, sprint_int64 2)])\<rparr>\<rparr>"
  let ?w = "(\<lparr>my_objects = fmap_of_list [(\<lparr>ns_namespace = ''ops'', ns_name = ''hub''\<rparr>, fleet_hub), (secret_name fleet_edge, ?copy)],
      my_writes = 0\<rparr>, snd fleet_start)"
  let ?st = "fleet_state\<lparr>os_remotes := fmupd (remote_key fleet_edge) \<lparr>rc_cluster = 3, rc_generation = 2\<rparr> fmempty\<rparr>"
  have name: "secret_name fleet_edge = \<lparr>ns_namespace = SystemNamespace, ns_name = ''app-edgeconfig''\<rparr>"
    by (simp add: getSecretName_def fleet_edge_def)
  have "kc_get (er_secrets fleet_reconciler) (secret_name fleet_edge) ?w = Inr ?copy"
    unfolding name by (simp add: fleet_reconciler_def memory_client_def memory_find_def fmlookup_of_list meta_nsname_def SystemNamespace_def)
  moreover have "er_read_secret fleet_reconciler \<lparr>ns_namespace = ''ops'', ns_name = ''hub''\<rparr> ?w = Inr fleet_hub"
    by (simp add: fleet_reconciler_def fleet_secrets_def memory_find_def fleet_hub_def meta_nsname_def fmlookup_of_list)
  moreover have "meta_nsname (sec_meta fleet_hub) \<noteq> secret_name fleet_edge" "om_generation (sec_meta fleet_hub) = 2"
    by (simp_all add: name fleet_hub_def meta_nsname_def)
  moreover have "secret_current fleet_hub ?copy"
    by (simp add: secret_current_def fleet_hub_def fmlookup_of_list)
  ultimately have "reconcileSecret fleet_reconciler (Some fleet_hub) fleet_edge ?st ?w = ((result_zero, None, ?st), ?w)"
    using rotation_unnoticed [of fleet_edge "\<lparr>ns_namespace = ''ops'', ns_name = ''hub''\<rparr>" fleet_reconciler ?w fleet_hub ?st
        "\<lparr>rc_cluster = 3, rc_generation = 2\<rparr>" ?copy]
    by (simp add: fleet_edge_def meta_zero_def knative_edge_zero_def)
  moreover have "sec_data fleet_hub \<noteq> None" by (simp add: fleet_hub_def)
  ultimately show ?thesis by blast
qed

end
