(* ===== verification/Leadership.thy ===== *)
theory Leadership
  imports ControllerCommand
begin

text \<open>
  Replicas of the edge controller: the groups into which the manager of controller-runtime
  (vendor/sigs.k8s.io/controller-runtime/pkg/manager) sorts what main adds to it, and what runs
  before and after a replica is elected. The store says that it does not need to be elected, the
  offload loop says that it does (\<open>NeedLeaderElection\<close>), and the controllers say nothing. The
  lemmas show what a standby does to the store that it will have when it becomes the leader.
\<close>

section \<open>The groups of runnables\<close>

datatype runnable_group = Webhooks | Caches | LeaderElection | Others

text \<open>What \<open>runnables.Add\<close> asks of the type of a runnable: the interfaces it implements.\<close>

record runnable_type =
  rt_has_cache :: bool
  rt_webhook_server :: bool
  rt_need_leader_election :: "bool option"

definition runnables_Add :: "runnable_type \<Rightarrow> runnable_group" where
  "runnables_Add fn =
     (if rt_has_cache fn then Caches
      else if rt_webhook_server fn then Webhooks
      else case rt_need_leader_election fn of
             Some needLeaderElection \<Rightarrow> if \<not> needLeaderElection then Others else LeaderElection
           | None \<Rightarrow> LeaderElection)"

definition store_NeedLeaderElection :: bool where "store_NeedLeaderElection = False"

definition offload_NeedLeaderElection :: bool where "offload_NeedLeaderElection = True"

text \<open>The runnables that main adds; a controller adds itself when it is built and has no such method.\<close>

definition runnable_of :: "'c controller_step \<Rightarrow> runnable_type option" where
  "runnable_of step =
     (let plain = \<lparr>rt_has_cache = False, rt_webhook_server = False, rt_need_leader_election = None\<rparr>
      in case step of
           AddCluster c \<Rightarrow> Some (plain\<lparr>rt_has_cache := True\<rparr>)
         | AddStore st \<Rightarrow> Some (plain\<lparr>rt_need_leader_election := Some store_NeedLeaderElection\<rparr>)
         | NamespaceController m \<Rightarrow> Some plain
         | SecretController m \<Rightarrow> Some plain
         | ConfigMapController m \<Rightarrow> Some plain
         | KServiceController k \<Rightarrow> Some plain
         | AddOffload f \<Rightarrow> Some (plain\<lparr>rt_need_leader_election := Some offload_NeedLeaderElection\<rparr>)
         | _ \<Rightarrow> None)"

definition in_group :: "runnable_group \<Rightarrow> 'c controller_step list \<Rightarrow> 'c controller_step list" where
  "in_group g steps = filter (\<lambda>s. map_option runnables_Add (runnable_of s) = Some g) steps"

text \<open>
  \<open>Start\<close> of the manager: what it has started, in its order, once every group is up. Without the
  option of leader election there is no lock, and the last group starts at once. A leader that
  loses its lock ends the process, so that no replica goes back.
\<close>

definition manager_started :: "manager_options \<Rightarrow> bool \<Rightarrow> 'c controller_step list \<Rightarrow> 'c controller_step list" where
  "manager_started opts elected steps =
     in_group Webhooks steps @ in_group Caches steps @ in_group Others steps @
     (if mo_leader_election opts \<and> \<not> elected then [] else in_group LeaderElection steps)"

section \<open>Histories of a replica\<close>

text \<open>Which runnable an event of the loop or of the store comes from.\<close>

fun causes :: "'c controller_step \<Rightarrow> loop_event \<Rightarrow> bool" where
  "causes (AddOffload f) (Tick services err) = True"
| "causes (AddOffload f) Stop = True"
| "causes (AddStore st) (Sweep now) = True"
| "causes step e = False"

definition replica_history :: "manager_options \<Rightarrow> bool \<Rightarrow> 'c controller_step list \<Rightarrow> loop_event list \<Rightarrow> bool" where
  "replica_history opts elected steps es \<longleftrightarrow>
     list_all (\<lambda>e. list_ex (\<lambda>s. causes s e) (manager_started opts elected steps)) es"

section \<open>What a standby does\<close>

lemmas leadership_defs = manager_started_def in_group_def runnable_of_def runnables_Add_def
  store_NeedLeaderElection_def offload_NeedLeaderElection_def

lemma standby_started:
  assumes "controller_main lib load precedence new_cluster accept args = Running steps" "NewManager opts \<in> set steps"
  obtains c where "manager_started opts False steps = [AddCluster c, AddStore store_new]"
    "AddStore st \<in> set steps \<Longrightarrow> st = store_new"
proof -
  obtain vars c p where steps: "flag_Parse lib controller_flags args = Running vars" "steps = controller_steps vars c p"
    using assms(1) by (rule controller_main_Running)
  have "opts = controller_options vars" using assms(2) by (simp add: steps(2) controller_steps_def Let_def)
  then have "manager_started opts False steps = [AddCluster c, AddStore store_new]"
    by (simp add: steps(2) controller_steps_def leadership_defs controller_options_def Let_def)
  moreover have "AddStore st \<in> set steps \<Longrightarrow> st = store_new" by (simp add: steps(2) controller_steps_def Let_def)
  ultimately show ?thesis by (rule that)
qed

lemma leader_started:
  assumes "controller_main lib load precedence new_cluster accept args = Running steps" "NewManager opts \<in> set steps"
  shows "set (manager_started opts True steps) = {s \<in> set steps. runnable_of s \<noteq> None}"
proof -
  obtain vars c p where steps: "steps = controller_steps vars c p" using assms(1) by (rule controller_main_Running)
  show ?thesis
    by (auto simp: steps controller_steps_def leadership_defs Let_def)
qed

lemma sweep_empty: "store_cleanUp now (store_Start store_new) = store_Start store_new"
  by (simp add: store_cleanUp_def store_Start_def store_new_def)

text \<open>A standby only cleans, and a store that nobody writes stays empty.\<close>

lemma standby_loop:
  assumes "list_all (\<lambda>e. \<exists>now. e = Sweep now) es" "of_store t = store_Start store_new"
  shows "offload_loop cv clk sg n running es t w = Done (t, w)"
  using assms
proof (induction es arbitrary: t)
  case (Cons e es)
  then obtain now where "e = Sweep now" by auto
  moreover have "t\<lparr>of_store := store_cleanUp now (of_store t)\<rparr> = t"
    using Cons.prems(2) by (simp add: sweep_empty)
  ultimately show ?case using Cons by simp
qed simp

lemma standby_history:
  assumes "controller_main lib load precedence new_cluster accept args = Running steps" "NewManager opts \<in> set steps"
    and "replica_history opts False steps es"
  shows "list_all (\<lambda>e. \<exists>now. e = Sweep now) es"
proof -
  have sweep: "causes (AddStore store_new) e \<or> causes (AddCluster c) e \<Longrightarrow> \<exists>now. e = Sweep now" for c e
    by (cases e) auto
  obtain c where "manager_started opts False steps = [AddCluster c, AddStore store_new]"
    using assms(1,2) by (rule standby_started)
  then show ?thesis using assms(3) sweep by (fastforce simp: replica_history_def list_all_iff)
qed

theorem standby_keeps_empty_store:
  assumes "controller_main lib load precedence new_cluster accept args = Running steps"
    and "NewManager opts \<in> set steps" "AddStore st \<in> set steps" "replica_history opts False steps es"
    and "of_store t = store_Start st"
  shows "offload_loop cv clk sg n running es t w = Done (t, w) \<and> store_Get k (of_store t) = (0, False)"
proof -
  have st: "of_store t = store_Start store_new" using standby_started [OF assms(1,2)] assms(3,5) by metis
  then show ?thesis
    using standby_loop [OF standby_history [OF assms(1,2,4)] st]
    by (simp add: store_Get_def store_lookup_def store_Start_def store_new_def)
qed

end
