(* ===== verification/DeepCopy.thy ===== *)
theory DeepCopy
  imports Prelude
begin

text \<open>
  Deep copies over an explicit store. A pointer is an address or nil; a copier is a function that
  copies a value and what it points to, with the meaning of its type: when a value is valid in a
  store, which addresses it reaches, and when two values in two stores are equal in the sense of
  \<open>reflect.DeepEqual\<close>. The locale \<open>deep_copier\<close> is the contract of a deep copy: equal to the
  original, valid, and made of new addresses only. The combinators follow the shapes of the
  generated code (flat fields, \<open>new\<close> and copy, \<open>make\<close> and copy each element, a struct field by field)
  and each of them keeps the contract.
\<close>

section \<open>The store\<close>

type_synonym addr = nat

record 'c heap =
  hp_cells :: "addr \<rightharpoonup> 'c"
  hp_next :: addr

definition heap_ok :: "'c heap \<Rightarrow> bool" where
  "heap_ok h \<longleftrightarrow> (\<forall>a \<in> dom (hp_cells h). a < hp_next h)"

definition allocate :: "'c \<Rightarrow> 'c heap \<Rightarrow> addr \<times> 'c heap" where
  "allocate c h = (hp_next h, \<lparr>hp_cells = (hp_cells h)(hp_next h \<mapsto> c), hp_next = Suc (hp_next h)\<rparr>)"

definition write_cell :: "addr \<Rightarrow> 'c \<Rightarrow> 'c heap \<Rightarrow> 'c heap" where
  "write_cell a c h = h\<lparr>hp_cells := (hp_cells h)(a \<mapsto> c)\<rparr>"

lemma heap_simps [simp]:
  "hp_cells (write_cell a c h) = (hp_cells h)(a \<mapsto> c)" "hp_next (write_cell a c h) = hp_next h"
  by (simp_all add: write_cell_def)

section \<open>The contract of a copy\<close>

record ('a, 'c) copier =
  cp_into :: "'a \<Rightarrow> 'c heap \<Rightarrow> 'a \<times> 'c heap"
  cp_valid :: "(addr \<rightharpoonup> 'c) \<Rightarrow> 'a \<Rightarrow> bool"
  cp_addrs :: "(addr \<rightharpoonup> 'c) \<Rightarrow> 'a \<Rightarrow> addr set"
  cp_same :: "(addr \<rightharpoonup> 'c) \<Rightarrow> 'a \<Rightarrow> (addr \<rightharpoonup> 'c) \<Rightarrow> 'a \<Rightarrow> bool"

definition agree :: "addr set \<Rightarrow> (addr \<rightharpoonup> 'c) \<Rightarrow> (addr \<rightharpoonup> 'c) \<Rightarrow> bool" where
  "agree A m m' \<longleftrightarrow> (\<forall>a \<in> A. m' a = m a)"

text \<open>\<open>y\<close> in \<open>h'\<close> is a copy of \<open>x\<close> in \<open>h\<close> that shares nothing with the old store, which is as it was.\<close>

definition copied :: "('a, 'c) copier \<Rightarrow> 'c heap \<Rightarrow> 'a \<Rightarrow> 'c heap \<Rightarrow> 'a \<Rightarrow> bool" where
  "copied C h x h' y \<longleftrightarrow>
     heap_ok h' \<and> hp_cells h \<subseteq>\<^sub>m hp_cells h' \<and> hp_next h \<le> hp_next h' \<and> cp_valid C (hp_cells h') y \<and>
     cp_same C (hp_cells h) x (hp_cells h') y \<and> (\<forall>a \<in> cp_addrs C (hp_cells h') y. hp_next h \<le> a)"

locale deep_copier =
  fixes C :: "('a, 'c) copier"
  assumes copies: "heap_ok h \<Longrightarrow> cp_valid C (hp_cells h) x \<Longrightarrow> cp_into C x h = (y, h') \<Longrightarrow> copied C h x h' y"
    and reaches: "cp_valid C m x \<Longrightarrow> cp_addrs C m x \<subseteq> dom m"
    and frame: "cp_valid C m x \<Longrightarrow> agree (cp_addrs C m x) m m' \<Longrightarrow>
      cp_valid C m' x \<and> cp_addrs C m' x = cp_addrs C m x \<and>
      (\<forall>n y. cp_same C m' x n y = cp_same C m x n y) \<and> (\<forall>n y. cp_same C n y m' x = cp_same C n y m x)"
    and same_refl: "cp_valid C m x \<Longrightarrow> cp_same C m x m x"
begin

lemma frame_le:
  assumes "cp_valid C m x" "m \<subseteq>\<^sub>m m'"
  shows "cp_valid C m' x" "cp_addrs C m' x = cp_addrs C m x"
    "cp_same C m' x n y = cp_same C m x n y" "cp_same C n y m' x = cp_same C n y m x"
proof -
  have "agree (cp_addrs C m x) m m'"
    using reaches [OF assms(1)] assms(2) unfolding agree_def map_le_def by (metis subsetD)
  from frame [OF assms(1) this]
  show "cp_valid C m' x" "cp_addrs C m' x = cp_addrs C m x"
    "cp_same C m' x n y = cp_same C m x n y" "cp_same C n y m' x = cp_same C n y m x"
    by blast+
qed

text \<open>A copy stays a copy when the store grows, and a copy of a later store is one of the earlier.\<close>

lemma copied_later:
  assumes "copied C h x h1 y" "heap_ok h2" "hp_cells h1 \<subseteq>\<^sub>m hp_cells h2" "hp_next h1 \<le> hp_next h2"
  shows "copied C h x h2 y"
  using assms frame_le [of "hp_cells h1" y "hp_cells h2"] map_le_trans [of "hp_cells h" "hp_cells h1" "hp_cells h2"]
  by (simp add: copied_def)

lemma copied_earlier:
  assumes "copied C h1 x h2 y" "cp_valid C (hp_cells h) x" "hp_cells h \<subseteq>\<^sub>m hp_cells h1" "hp_next h \<le> hp_next h1"
  shows "copied C h x h2 y"
  using assms frame_le [of "hp_cells h" x "hp_cells h1"] map_le_trans [of "hp_cells h" "hp_cells h1" "hp_cells h2"]
  by (auto simp: copied_def)

text \<open>
  Whoever writes through the copy, at addresses that the copy reaches or at later ones, leaves
  the original as it was.
\<close>

lemma copy_separate:
  assumes "heap_ok h" "cp_valid C (hp_cells h) x" "cp_into C x h = (y, h')"
    and "\<forall>a. a < hp_next h \<longrightarrow> m a = hp_cells h' a"
  shows "cp_same C (hp_cells h) x m x"
proof -
  have "hp_cells h \<subseteq>\<^sub>m hp_cells h'" using copies [OF assms(1-3)] by (simp add: copied_def)
  then have "m a = hp_cells h a" if "a \<in> dom (hp_cells h)" for a
    using that assms(1,4) unfolding heap_ok_def map_le_def by metis
  then have "agree (cp_addrs C (hp_cells h) x) (hp_cells h) m"
    using reaches [OF assms(2)] unfolding agree_def by blast
  then show ?thesis using frame [OF assms(2)] same_refl [OF assms(2)] by blast
qed

end

section \<open>The shapes of the generated code\<close>

text \<open>A value without pointers: \<open>*out = *in\<close>.\<close>

definition flat_copier :: "('a, 'c) copier" where
  "flat_copier = \<lparr>cp_into = (\<lambda>x h. (x, h)), cp_valid = (\<lambda>m x. True), cp_addrs = (\<lambda>m x. {}), cp_same = (\<lambda>m x n y. x = y)\<rparr>"

text \<open>Two fields, one after the other.\<close>

definition pair_copier :: "('a, 'c) copier \<Rightarrow> ('b, 'c) copier \<Rightarrow> ('a \<times> 'b, 'c) copier" where
  "pair_copier A B =
     \<lparr>cp_into = (\<lambda>(x1, x2) h. let (y1, h1) = cp_into A x1 h; (y2, h2) = cp_into B x2 h1 in ((y1, y2), h2)),
      cp_valid = (\<lambda>m (x1, x2). cp_valid A m x1 \<and> cp_valid B m x2),
      cp_addrs = (\<lambda>m (x1, x2). cp_addrs A m x1 \<union> cp_addrs B m x2),
      cp_same = (\<lambda>m (x1, x2) n (y1, y2). cp_same A m x1 n y1 \<and> cp_same B m x2 n y2)\<rparr>"

text \<open>A struct: \<open>*out = *in\<close>, then the fields that need it; \<open>get\<close> and \<open>put\<close> read and write those fields.\<close>

definition struct_copier :: "('s \<Rightarrow> 'a) \<Rightarrow> ('a \<Rightarrow> 's \<Rightarrow> 's) \<Rightarrow> ('a, 'c) copier \<Rightarrow> ('s, 'c) copier" where
  "struct_copier get put A =
     \<lparr>cp_into = (\<lambda>x h. let (y, h1) = cp_into A (get x) h in (put y x, h1)),
      cp_valid = (\<lambda>m x. cp_valid A m (get x)), cp_addrs = (\<lambda>m x. cp_addrs A m (get x)),
      cp_same = (\<lambda>m x n y. put (get x) y = x \<and> cp_same A m (get x) n (get y))\<rparr>"

text \<open>The elements of a slice, in the order of the index.\<close>

fun copy_all :: "('a \<Rightarrow> 'c heap \<Rightarrow> 'a \<times> 'c heap) \<Rightarrow> 'a list \<Rightarrow> 'c heap \<Rightarrow> 'a list \<times> 'c heap" where
  "copy_all into [] h = ([], h)"
| "copy_all into (x # xs) h = (let (y, h1) = into x h; (ys, h2) = copy_all into xs h1 in (y # ys, h2))"

definition list_copier :: "('a, 'c) copier \<Rightarrow> ('a list, 'c) copier" where
  "list_copier A =
     \<lparr>cp_into = copy_all (cp_into A), cp_valid = (\<lambda>m xs. \<forall>x \<in> set xs. cp_valid A m x),
      cp_addrs = (\<lambda>m xs. \<Union> (cp_addrs A m ` set xs)), cp_same = (\<lambda>m xs n ys. list_all2 (\<lambda>x y. cp_same A m x n y) xs ys)\<rparr>"

text \<open>
  A pointer or a slice: nil stays nil, otherwise \<open>new\<close> or \<open>make\<close> and a copy into the new cell. \<open>mk\<close>
  makes a cell of a value, \<open>sel\<close> reads it; a store of Go is typed, so the pointer leads to a cell
  of its type (a pointer that does not is not valid, and it is left alone).
\<close>

definition deref :: "('a \<Rightarrow> 'c) \<Rightarrow> ('c \<Rightarrow> 'a) \<Rightarrow> (addr \<rightharpoonup> 'c) \<Rightarrow> addr \<Rightarrow> 'a option" where
  "deref mk sel m a =
     (case m a of None \<Rightarrow> None | Some c \<Rightarrow> if mk (sel c) = c then Some (sel c) else None)"

definition copy_ref ::
  "('a \<Rightarrow> 'c) \<Rightarrow> ('c \<Rightarrow> 'a) \<Rightarrow> 'a \<Rightarrow> ('a \<Rightarrow> 'c heap \<Rightarrow> 'a \<times> 'c heap) \<Rightarrow> addr option \<Rightarrow> 'c heap \<Rightarrow> addr option \<times> 'c heap"
where
  "copy_ref mk sel zero into p h =
     (case p of
        None \<Rightarrow> (None, h)
      | Some a \<Rightarrow>
          (case deref mk sel (hp_cells h) a of
             None \<Rightarrow> (p, h)
           | Some x \<Rightarrow>
               let (b, h1) = allocate (mk zero) h; (y, h2) = into x h1
               in (Some b, write_cell b (mk y) h2)))"

definition ref_copier :: "('a \<Rightarrow> 'c) \<Rightarrow> ('c \<Rightarrow> 'a) \<Rightarrow> 'a \<Rightarrow> ('a, 'c) copier \<Rightarrow> (addr option, 'c) copier" where
  "ref_copier mk sel zero A =
     \<lparr>cp_into = copy_ref mk sel zero (cp_into A),
      cp_valid = (\<lambda>m p. case p of None \<Rightarrow> True
        | Some a \<Rightarrow> (case deref mk sel m a of None \<Rightarrow> False | Some x \<Rightarrow> cp_valid A m x)),
      cp_addrs = (\<lambda>m p. case p of None \<Rightarrow> {}
        | Some a \<Rightarrow> (case deref mk sel m a of None \<Rightarrow> {a} | Some x \<Rightarrow> insert a (cp_addrs A m x))),
      cp_same = (\<lambda>m p n q. case (p, q) of (None, None) \<Rightarrow> True
        | (Some a, Some b) \<Rightarrow>
            (case (deref mk sel m a, deref mk sel n b) of (Some x, Some y) \<Rightarrow> cp_same A m x n y | _ \<Rightarrow> False)
        | _ \<Rightarrow> False)\<rparr>"

section \<open>Each shape keeps the contract\<close>

lemma flat_deep: "deep_copier flat_copier"
  by unfold_locales (auto simp: flat_copier_def copied_def)

lemmas copier_laws = deep_copier.copies deep_copier.reaches deep_copier.frame deep_copier.same_refl

lemma agree_Un [simp]: "agree (A \<union> B) m m' \<longleftrightarrow> agree A m m' \<and> agree B m m'"
  by (auto simp: agree_def)

lemma agree_insert [simp]: "agree (insert a A) m m' \<longleftrightarrow> m' a = m a \<and> agree A m m'"
  by (auto simp: agree_def)

text \<open>The step that every sequence of copies takes: a first copy, then a second one in the larger store.\<close>

lemma copied_seq:
  assumes A: "deep_copier A" and B: "deep_copier B" and h: "heap_ok h"
    and v: "cp_valid A (hp_cells h) x1" "cp_valid B (hp_cells h) x2"
    and run: "cp_into A x1 h = (y1, h1)" and rest: "cp_valid B (hp_cells h1) x2 \<Longrightarrow> heap_ok h1 \<Longrightarrow> copied B h1 x2 h2 y2"
  shows "copied A h x1 h2 y1 \<and> copied B h x2 h2 y2"
proof -
  have 1: "copied A h x1 h1 y1" by (rule deep_copier.copies [OF A h v(1) run])
  then have le: "heap_ok h1" "hp_cells h \<subseteq>\<^sub>m hp_cells h1" "hp_next h \<le> hp_next h1" by (simp_all add: copied_def)
  have 2: "copied B h1 x2 h2 y2" by (rule rest [OF deep_copier.frame_le(1) [OF B v(2) le(2)] le(1)])
  then have "heap_ok h2" "hp_cells h1 \<subseteq>\<^sub>m hp_cells h2" "hp_next h1 \<le> hp_next h2" by (simp_all add: copied_def)
  then show ?thesis
    using deep_copier.copied_later [OF A 1] deep_copier.copied_earlier [OF B 2 v(2) le(2,3)] by blast
qed

lemma pair_deep:
  assumes A: "deep_copier A" and B: "deep_copier B"
  shows "deep_copier (pair_copier A B)"
proof
  fix h :: "'b heap" and x y h'
  assume h: "heap_ok h" and v: "cp_valid (pair_copier A B) (hp_cells h) x" and run: "cp_into (pair_copier A B) x h = (y, h')"
  obtain x1 x2 where x: "x = (x1, x2)" by (cases x)
  obtain y1 h1 where 1: "cp_into A x1 h = (y1, h1)" by (cases "cp_into A x1 h")
  obtain y2 h2 where 2: "cp_into B x2 h1 = (y2, h2)" by (cases "cp_into B x2 h1")
  have "copied A h x1 h2 y1 \<and> copied B h x2 h2 y2"
    by (rule copied_seq [OF A B h _ _ 1])
      (use v x deep_copier.copies [OF B _ _ 2] in \<open>simp_all add: pair_copier_def\<close>)
  moreover have "y = (y1, y2)" "h' = h2" using run x 1 2 by (simp_all add: pair_copier_def)
  ultimately show "copied (pair_copier A B) h x h' y" using x by (auto simp: copied_def pair_copier_def)
next
  fix m x
  assume "cp_valid (pair_copier A B) m x"
  then have v: "cp_valid A m (fst x)" "cp_valid B m (snd x)" by (auto simp: pair_copier_def split: prod.splits)
  show "cp_addrs (pair_copier A B) m x \<subseteq> dom m"
    using deep_copier.reaches [OF A v(1)] deep_copier.reaches [OF B v(2)] by (auto simp: pair_copier_def split: prod.splits)
  show "cp_same (pair_copier A B) m x m x"
    using deep_copier.same_refl [OF A v(1)] deep_copier.same_refl [OF B v(2)] by (auto simp: pair_copier_def split: prod.splits)
  fix m'
  assume "agree (cp_addrs (pair_copier A B) m x) m m'"
  then have "agree (cp_addrs A m (fst x)) m m'" "agree (cp_addrs B m (snd x)) m m'"
    by (simp_all add: pair_copier_def split: prod.splits)
  from deep_copier.frame [OF A v(1) this(1)] deep_copier.frame [OF B v(2) this(2)]
  show "cp_valid (pair_copier A B) m' x \<and> cp_addrs (pair_copier A B) m' x = cp_addrs (pair_copier A B) m x \<and>
      (\<forall>n y. cp_same (pair_copier A B) m' x n y = cp_same (pair_copier A B) m x n y) \<and>
      (\<forall>n y. cp_same (pair_copier A B) n y m' x = cp_same (pair_copier A B) n y m x)"
    by (cases x) (simp add: pair_copier_def)
qed

text \<open>\<open>get\<close> and \<open>put\<close> are the lens of the fields that are copied.\<close>

definition lens :: "('s \<Rightarrow> 'a) \<Rightarrow> ('a \<Rightarrow> 's \<Rightarrow> 's) \<Rightarrow> bool" where
  "lens get put \<longleftrightarrow> (\<forall>v x. get (put v x) = v) \<and> (\<forall>v w x. put v (put w x) = put v x) \<and> (\<forall>x. put (get x) x = x)"

lemma struct_deep:
  assumes A: "deep_copier A" and l: "lens get put"
  shows "deep_copier (struct_copier get put A)"
proof
  fix h :: "'b heap" and x y h'
  assume h: "heap_ok h" and v: "cp_valid (struct_copier get put A) (hp_cells h) x"
    and run: "cp_into (struct_copier get put A) x h = (y, h')"
  obtain z h1 where 1: "cp_into A (get x) h = (z, h1)" by (cases "cp_into A (get x) h")
  have "copied A h (get x) h1 z" using deep_copier.copies [OF A h _ 1] v by (simp add: struct_copier_def)
  moreover have "y = put z x" "h' = h1" using run 1 by (simp_all add: struct_copier_def)
  ultimately show "copied (struct_copier get put A) h x h' y" using l by (simp add: copied_def struct_copier_def lens_def)
next
  fix m x
  assume "cp_valid (struct_copier get put A) m x"
  then have v: "cp_valid A m (get x)" by (simp add: struct_copier_def)
  show "cp_addrs (struct_copier get put A) m x \<subseteq> dom m"
    using deep_copier.reaches [OF A v] by (simp add: struct_copier_def)
  show "cp_same (struct_copier get put A) m x m x"
    using deep_copier.same_refl [OF A v] l by (simp add: struct_copier_def lens_def)
  fix m'
  assume "agree (cp_addrs (struct_copier get put A) m x) m m'"
  then have "agree (cp_addrs A m (get x)) m m'" by (simp add: struct_copier_def)
  from deep_copier.frame [OF A v this]
  show "cp_valid (struct_copier get put A) m' x \<and>
      cp_addrs (struct_copier get put A) m' x = cp_addrs (struct_copier get put A) m x \<and>
      (\<forall>n y. cp_same (struct_copier get put A) m' x n y = cp_same (struct_copier get put A) m x n y) \<and>
      (\<forall>n y. cp_same (struct_copier get put A) n y m' x = cp_same (struct_copier get put A) n y m x)"
    by (simp add: struct_copier_def)
qed

lemma copy_all_copied:
  assumes A: "deep_copier A"
  shows "heap_ok h \<Longrightarrow> cp_valid (list_copier A) (hp_cells h) xs \<Longrightarrow> copy_all (cp_into A) xs h = (ys, h') \<Longrightarrow>
    copied (list_copier A) h xs h' ys"
proof (induction xs arbitrary: h ys h')
  case Nil
  then show ?case by (simp add: copied_def list_copier_def)
next
  case (Cons x xs)
  obtain y h1 where 1: "cp_into A x h = (y, h1)" by (cases "cp_into A x h")
  obtain zs h2 where 2: "copy_all (cp_into A) xs h1 = (zs, h2)" by (cases "copy_all (cp_into A) xs h1")
  have v: "cp_valid A (hp_cells h) x" "\<forall>z \<in> set xs. cp_valid A (hp_cells h) z" using Cons.prems(2) by (simp_all add: list_copier_def)
  have c: "copied A h x h1 y" by (rule deep_copier.copies [OF A Cons.prems(1) v(1) 1])
  then have le: "heap_ok h1" "hp_cells h \<subseteq>\<^sub>m hp_cells h1" "hp_next h \<le> hp_next h1" by (simp_all add: copied_def)
  note fr = deep_copier.frame_le [OF A _ le(2)]
  have "copied (list_copier A) h1 xs h2 zs"
    by (rule Cons.IH [OF le(1) _ 2]) (use v(2) fr(1) in \<open>simp add: list_copier_def\<close>)
  moreover from this have le2: "heap_ok h2" "hp_cells h1 \<subseteq>\<^sub>m hp_cells h2" "hp_next h1 \<le> hp_next h2"
    by (simp_all add: copied_def)
  moreover have "list_all2 (\<lambda>a b. cp_same A (hp_cells h1) a (hp_cells h2) b) xs zs \<longleftrightarrow>
      list_all2 (\<lambda>a b. cp_same A (hp_cells h) a (hp_cells h2) b) xs zs"
    by (rule list.rel_cong) (use v(2) fr(3) in simp_all)
  moreover have "copied A h x h2 y" by (rule deep_copier.copied_later [OF A c le2])
  moreover have "ys = y # zs" "h' = h2" using Cons.prems(3) 1 2 by simp_all
  ultimately show ?case
    using le(3) by (fastforce simp: copied_def list_copier_def)
qed

lemma list_deep:
  assumes A: "deep_copier A"
  shows "deep_copier (list_copier A)"
proof
  fix h :: "'b heap" and x y h'
  assume "heap_ok h" "cp_valid (list_copier A) (hp_cells h) x" "cp_into (list_copier A) x h = (y, h')"
  then show "copied (list_copier A) h x h' y"
    using copy_all_copied [OF A, of h x y h'] by (simp add: list_copier_def)
next
  fix m xs
  assume "cp_valid (list_copier A) m xs"
  then have v: "\<And>x. x \<in> set xs \<Longrightarrow> cp_valid A m x" by (simp add: list_copier_def)
  show "cp_addrs (list_copier A) m xs \<subseteq> dom m"
    using deep_copier.reaches [OF A v] by (fastforce simp: list_copier_def)
  show "cp_same (list_copier A) m xs m xs"
    using deep_copier.same_refl [OF A v] by (simp add: list_copier_def list_all2_same)
  fix m'
  assume "agree (cp_addrs (list_copier A) m xs) m m'"
  then have "\<And>x. x \<in> set xs \<Longrightarrow> agree (cp_addrs A m x) m m'" by (auto simp: list_copier_def agree_def)
  note fr = deep_copier.frame [OF A v this]
  have "list_all2 (\<lambda>x y. cp_same A m' x n y) xs ys = list_all2 (\<lambda>x y. cp_same A m x n y) xs ys" for n ys
    by (rule list.rel_cong) (use fr in simp_all)
  moreover have "list_all2 (\<lambda>y x. cp_same A n y m' x) ys xs = list_all2 (\<lambda>y x. cp_same A n y m x) ys xs" for n ys
    by (rule list.rel_cong) (use fr in simp_all)
  ultimately show "cp_valid (list_copier A) m' xs \<and> cp_addrs (list_copier A) m' xs = cp_addrs (list_copier A) m xs \<and>
      (\<forall>n y. cp_same (list_copier A) m' xs n y = cp_same (list_copier A) m xs n y) \<and>
      (\<forall>n y. cp_same (list_copier A) n y m' xs = cp_same (list_copier A) n y m xs)"
    using fr by (simp add: list_copier_def)
qed

text \<open>\<open>sel\<close> gets back what \<open>mk\<close> has stored.\<close>

definition reads_back :: "('a \<Rightarrow> 'c) \<Rightarrow> ('c \<Rightarrow> 'a) \<Rightarrow> bool" where
  "reads_back mk sel \<longleftrightarrow> (\<forall>x. sel (mk x) = x)"

lemma deref_stored: "reads_back mk sel \<Longrightarrow> m a = Some (mk x) \<Longrightarrow> deref mk sel m a = Some x"
  by (simp add: deref_def reads_back_def)

lemma deref_dom: "deref mk sel m a = Some x \<Longrightarrow> a \<in> dom m"
  by (auto simp: deref_def split: option.splits)

lemma ref_copied:
  assumes A: "deep_copier A" and mk: "reads_back mk sel" and h: "heap_ok h"
    and a: "deref mk sel (hp_cells h) a = Some x" and v: "cp_valid A (hp_cells h) x"
    and run: "allocate (mk zero) h = (b, h1)" "cp_into A x h1 = (y, h2)"
  shows "copied (ref_copier mk sel zero A) h (Some a) (write_cell b (mk y) h2) (Some b)"
proof -
  let ?h = "write_cell b (mk y) h2"
  have b: "b = hp_next h" "hp_cells h b = None" using run(1) h by (auto simp: allocate_def heap_ok_def)
  have h1: "hp_cells h1 = (hp_cells h)(b \<mapsto> mk zero)" "hp_next h1 = Suc b" using run(1) b by (auto simp: allocate_def)
  then have ok1: "heap_ok h1" using h b(1) by (auto simp: heap_ok_def dom_def less_Suc_eq)
  have le1: "hp_cells h \<subseteq>\<^sub>m hp_cells h1" using h1 b by (auto simp: map_le_def)
  have "copied A h1 x h2 y" by (rule deep_copier.copies [OF A ok1 deep_copier.frame_le(1) [OF A v le1] run(2)])
  then have c: "copied A h1 x h2 y" and ok2: "heap_ok h2" and le2: "hp_cells h1 \<subseteq>\<^sub>m hp_cells h2" "Suc b \<le> hp_next h2"
    and y: "cp_valid A (hp_cells h2) y" "\<forall>a \<in> cp_addrs A (hp_cells h2) y. Suc b \<le> a"
    using h1 by (simp_all add: copied_def)
  have same: "cp_same A (hp_cells h) x (hp_cells h2) y"
    using c deep_copier.frame_le(3) [OF A v le1] by (simp add: copied_def)
  have ag: "agree (cp_addrs A (hp_cells h2) y) (hp_cells h2) (hp_cells ?h)" using y(2) by (auto simp: agree_def)
  note fr = deep_copier.frame [OF A y(1) ag]
  have le: "hp_cells h \<subseteq>\<^sub>m hp_cells ?h"
    using map_le_trans [OF le1 le2(1)] b by (auto simp: map_le_def dom_def)
  have d: "deref mk sel (hp_cells ?h) b = Some y" by (rule deref_stored [OF mk]) simp
  have "heap_ok ?h" using ok2 le2(2) by (auto simp: heap_ok_def)
  then show ?thesis
    using le le2(2) b d a y fr same by (auto simp: copied_def ref_copier_def)
qed

lemma ref_deep:
  assumes A: "deep_copier A" and mk: "reads_back mk sel"
  shows "deep_copier (ref_copier mk sel zero A)"
proof
  fix h :: "'b heap" and p q h'
  assume h: "heap_ok h" and v: "cp_valid (ref_copier mk sel zero A) (hp_cells h) p"
    and run: "cp_into (ref_copier mk sel zero A) p h = (q, h')"
  show "copied (ref_copier mk sel zero A) h p h' q"
  proof (cases p)
    case None
    then have "q = None" "h' = h" using run by (simp_all add: ref_copier_def copy_ref_def)
    then show ?thesis using None h by (simp add: copied_def ref_copier_def)
  next
    case (Some a)
    then obtain x where x: "deref mk sel (hp_cells h) a = Some x" "cp_valid A (hp_cells h) x"
      using v by (auto simp: ref_copier_def split: option.splits)
    obtain b h1 where 1: "allocate (mk zero) h = (b, h1)" by (cases "allocate (mk zero) h")
    obtain y h2 where 2: "cp_into A x h1 = (y, h2)" by (cases "cp_into A x h1")
    have "q = Some b" "h' = write_cell b (mk y) h2" using run Some x 1 2 by (simp_all add: ref_copier_def copy_ref_def)
    then show ?thesis using ref_copied [OF A mk h x 1 2] Some by simp
  qed
next
  fix m p
  assume v: "cp_valid (ref_copier mk sel zero A) m p"
  have some: "\<exists>x. deref mk sel m a = Some x \<and> cp_valid A m x" if "p = Some a" for a
    using v that by (auto simp: ref_copier_def split: option.splits)
  show "cp_addrs (ref_copier mk sel zero A) m p \<subseteq> dom m"
  proof (cases p)
    case (Some a)
    then obtain x where "deref mk sel m a = Some x" "cp_valid A m x" using some by blast
    then show ?thesis using Some deref_dom [of mk sel m a x] deep_copier.reaches [OF A] by (simp add: ref_copier_def)
  qed (simp add: ref_copier_def)
  show "cp_same (ref_copier mk sel zero A) m p m p"
  proof (cases p)
    case (Some a)
    then obtain x where "deref mk sel m a = Some x" "cp_valid A m x" using some by blast
    then show ?thesis using Some deep_copier.same_refl [OF A] by (simp add: ref_copier_def)
  qed (simp add: ref_copier_def)
  fix m'
  assume ag: "agree (cp_addrs (ref_copier mk sel zero A) m p) m m'"
  show "cp_valid (ref_copier mk sel zero A) m' p \<and>
      cp_addrs (ref_copier mk sel zero A) m' p = cp_addrs (ref_copier mk sel zero A) m p \<and>
      (\<forall>n y. cp_same (ref_copier mk sel zero A) m' p n y = cp_same (ref_copier mk sel zero A) m p n y) \<and>
      (\<forall>n y. cp_same (ref_copier mk sel zero A) n y m' p = cp_same (ref_copier mk sel zero A) n y m p)"
  proof (cases p)
    case (Some a)
    then obtain x where x: "deref mk sel m a = Some x" "cp_valid A m x" using some by blast
    then have "m' a = m a" "agree (cp_addrs A m x) m m'" using ag Some by (simp_all add: ref_copier_def)
    then have "deref mk sel m' a = Some x" using x(1) by (simp add: deref_def)
    then show ?thesis
      using Some x deep_copier.frame [OF A x(2) \<open>agree (cp_addrs A m x) m m'\<close>]
      by (auto simp: ref_copier_def split: option.splits)
  qed (auto simp: ref_copier_def split: option.splits)
qed

lemmas deep_intros = flat_deep pair_deep struct_deep list_deep ref_deep

end
