(* ===== verification/ApiTypes.thy ===== *)
theory ApiTypes
  imports DeepCopy
begin

text \<open>
  The API types of pkg/apis/operator/v1alpha1 and pkg/apis/edge/v1alpha1 as they lie in memory, with
  pointers, and their deep copies (the two files zz_generated.deepcopy.go). The caches hand out
  such copies, and the controllers change them in place; the copies keep the contract of
  \<open>DeepCopy\<close>. The structs of other packages (\<open>ObjectMeta\<close>, \<open>ListMeta\<close>,
  \<open>ControllerManagerConfigurationSpec\<close>) are type parameters with their own deep copies as
  arguments; \<open>'x\<close> is what those keep in the store.
\<close>

section \<open>The structs\<close>

record secret_reference =
  sr_name :: string
  sr_namespace :: string

record type_meta =
  tm_kind :: string
  tm_api_version :: string

record condition_struct =
  cn_type :: string
  cn_status :: string
  cn_observed_generation :: int64
  cn_last_transition :: int
  cn_reason :: string
  cn_message :: string

record prometheus_struct =
  gp_url :: string
  gp_user :: "addr option"
  gp_password :: "addr option"
  gp_secret_ref :: "addr option"

record proxy_struct =
  gx_http_proxy :: string
  gx_https_proxy :: string
  gx_no_proxy :: string

record edge_spec_struct =
  gs_cluster_name :: string
  gs_cluster_host :: string
  gs_override_image :: string
  gs_secret_ref :: "addr option"
  gs_proxy :: proxy_struct
  gs_prometheus :: "addr option"

record edge_status_struct =
  gt_zone :: "addr option"
  gt_region :: "addr option"
  gt_environments :: string
  gt_deployment_generation :: int64
  gt_edge_generation :: int64
  gt_cluster_generation :: int64
  gt_conditions :: "addr option"

record 'm edge_struct =
  ge_type :: type_meta
  ge_meta :: 'm
  ge_spec :: edge_spec_struct
  ge_status :: edge_status_struct

record 'l edge_list_struct =
  gl_type :: type_meta
  gl_meta :: 'l
  gl_items :: "addr option"

record options_struct =
  gn_namespaces :: "addr option"
  gn_remote_sync :: "addr option"

record 'g config_struct =
  gc_type :: type_meta
  gc_spec :: 'g
  gc_options :: options_struct

record cluster_spec_struct =
  gk_zone :: "addr option"
  gk_region :: "addr option"
  gk_environments :: "addr option"

record 'm cluster_struct =
  gm_type :: type_meta
  gm_meta :: 'm
  gm_spec :: cluster_spec_struct
  gm_last_reported :: string

record 'l cluster_list_struct =
  gq_type :: type_meta
  gq_meta :: 'l
  gq_items :: "addr option"

text \<open>What an address can hold: what is allocated with \<open>new\<close>, and the arrays of slices.\<close>

datatype ('m, 'l, 'g, 'x) go_cell =
    CString (un_string: string)
  | CSecretReference (un_secret: secret_reference)
  | CDuration (un_duration: int)
  | CStrings (un_strings: "string list")
  | CSlice (un_slice: "addr option")
  | CConditions (un_conditions: "condition_struct list")
  | CPrometheus (un_prometheus: prometheus_struct)
  | CProxy (un_proxy: proxy_struct)
  | CEdgeSpec (un_edge_spec: edge_spec_struct)
  | CEdgeStatus (un_edge_status: edge_status_struct)
  | CEdge (un_edge: "'m edge_struct")
  | CEdges (un_edges: "'m edge_struct list")
  | CEdgeList (un_edge_list: "'l edge_list_struct")
  | COptions (un_options: options_struct)
  | CConfig (un_config: "'g config_struct")
  | CClusterSpec (un_cluster_spec: cluster_spec_struct)
  | CClusterStatus (un_cluster_status: string)
  | CCluster (un_cluster: "'m cluster_struct")
  | CClusters (un_clusters: "'m cluster_struct list")
  | CClusterList (un_cluster_list: "'l cluster_list_struct")
  | COther (un_other: 'x)

type_synonym ('a, 'm, 'l, 'g, 'x) into = "'a \<Rightarrow> ('m, 'l, 'g, 'x) go_cell heap \<Rightarrow> 'a \<times> ('m, 'l, 'g, 'x) go_cell heap"

text \<open>The zero values of \<open>new\<close>.\<close>

definition zero_secret :: secret_reference where "zero_secret = \<lparr>sr_name = [], sr_namespace = []\<rparr>"

definition zero_type_meta :: type_meta where "zero_type_meta = \<lparr>tm_kind = [], tm_api_version = []\<rparr>"

definition zero_prometheus :: prometheus_struct where
  "zero_prometheus = \<lparr>gp_url = [], gp_user = None, gp_password = None, gp_secret_ref = None\<rparr>"

definition zero_proxy :: proxy_struct where
  "zero_proxy = \<lparr>gx_http_proxy = [], gx_https_proxy = [], gx_no_proxy = []\<rparr>"

definition zero_edge_spec :: edge_spec_struct where
  "zero_edge_spec = \<lparr>gs_cluster_name = [], gs_cluster_host = [], gs_override_image = [], gs_secret_ref = None,
     gs_proxy = zero_proxy, gs_prometheus = None\<rparr>"

definition zero_edge_status :: edge_status_struct where
  "zero_edge_status = \<lparr>gt_zone = None, gt_region = None, gt_environments = [], gt_deployment_generation = 0,
     gt_edge_generation = 0, gt_cluster_generation = 0, gt_conditions = None\<rparr>"

definition zero_edge :: "'m \<Rightarrow> 'm edge_struct" where
  "zero_edge m = \<lparr>ge_type = zero_type_meta, ge_meta = m, ge_spec = zero_edge_spec, ge_status = zero_edge_status\<rparr>"

definition zero_edge_list :: "'l \<Rightarrow> 'l edge_list_struct" where
  "zero_edge_list m = \<lparr>gl_type = zero_type_meta, gl_meta = m, gl_items = None\<rparr>"

definition zero_options :: options_struct where
  "zero_options = \<lparr>gn_namespaces = None, gn_remote_sync = None\<rparr>"

definition zero_config :: "'g \<Rightarrow> 'g config_struct" where
  "zero_config g = \<lparr>gc_type = zero_type_meta, gc_spec = g, gc_options = zero_options\<rparr>"

definition zero_cluster_spec :: cluster_spec_struct where
  "zero_cluster_spec = \<lparr>gk_zone = None, gk_region = None, gk_environments = None\<rparr>"

definition zero_cluster :: "'m \<Rightarrow> 'm cluster_struct" where
  "zero_cluster m = \<lparr>gm_type = zero_type_meta, gm_meta = m, gm_spec = zero_cluster_spec, gm_last_reported = []\<rparr>"

definition zero_cluster_list :: "'l \<Rightarrow> 'l cluster_list_struct" where
  "zero_cluster_list m = \<lparr>gq_type = zero_type_meta, gq_meta = m, gq_items = None\<rparr>"

section \<open>The operator's deep copies\<close>

text \<open>\<open>**out = **in\<close> and \<open>copy(*out, *in)\<close>: the content has no pointers.\<close>

definition plain :: "'a \<Rightarrow> 'c heap \<Rightarrow> 'a \<times> 'c heap" where
  "plain x h = (x, h)"

definition copy_string :: "(addr option, 'm, 'l, 'g, 'x) into" where
  "copy_string = copy_ref CString un_string [] plain"

definition copy_secret :: "(addr option, 'm, 'l, 'g, 'x) into" where
  "copy_secret = copy_ref CSecretReference un_secret zero_secret plain"

definition copy_strings :: "(addr option, 'm, 'l, 'g, 'x) into" where
  "copy_strings = copy_ref CStrings un_strings [] plain"

definition KnativeEdgePrometheus_DeepCopyInto :: "(prometheus_struct, 'm, 'l, 'g, 'x) into" where
  "KnativeEdgePrometheus_DeepCopyInto x h =
     (let (user, h1) = copy_string (gp_user x) h;
          (password, h2) = copy_string (gp_password x) h1;
          (ref, h3) = copy_secret (gp_secret_ref x) h2
      in (x\<lparr>gp_user := user, gp_password := password, gp_secret_ref := ref\<rparr>, h3))"

definition KnativeEdgePrometheus_DeepCopy :: "(addr option, 'm, 'l, 'g, 'x) into" where
  "KnativeEdgePrometheus_DeepCopy = copy_ref CPrometheus un_prometheus zero_prometheus KnativeEdgePrometheus_DeepCopyInto"

definition KnativeEdgeProxy_DeepCopyInto :: "(proxy_struct, 'm, 'l, 'g, 'x) into" where
  "KnativeEdgeProxy_DeepCopyInto x h = (x, h)"

definition KnativeEdgeProxy_DeepCopy :: "(addr option, 'm, 'l, 'g, 'x) into" where
  "KnativeEdgeProxy_DeepCopy = copy_ref CProxy un_proxy zero_proxy KnativeEdgeProxy_DeepCopyInto"

definition KnativeEdgeSpec_DeepCopyInto :: "(edge_spec_struct, 'm, 'l, 'g, 'x) into" where
  "KnativeEdgeSpec_DeepCopyInto x h =
     (let (ref, h1) = copy_secret (gs_secret_ref x) h;
          (prometheus, h2) =
            copy_ref CPrometheus un_prometheus zero_prometheus KnativeEdgePrometheus_DeepCopyInto (gs_prometheus x) h1
      in (x\<lparr>gs_secret_ref := ref, gs_proxy := gs_proxy x, gs_prometheus := prometheus\<rparr>, h2))"

definition KnativeEdgeSpec_DeepCopy :: "(addr option, 'm, 'l, 'g, 'x) into" where
  "KnativeEdgeSpec_DeepCopy = copy_ref CEdgeSpec un_edge_spec zero_edge_spec KnativeEdgeSpec_DeepCopyInto"

text \<open>\<open>Condition.DeepCopyInto\<close> copies the struct; its time is a value.\<close>

definition KnativeEdgeStatus_DeepCopyInto :: "(edge_status_struct, 'm, 'l, 'g, 'x) into" where
  "KnativeEdgeStatus_DeepCopyInto x h =
     (let (zone, h1) = copy_string (gt_zone x) h;
          (region, h2) = copy_string (gt_region x) h1;
          (conditions, h3) = copy_ref CConditions un_conditions [] (copy_all plain) (gt_conditions x) h2
      in (x\<lparr>gt_zone := zone, gt_region := region, gt_conditions := conditions\<rparr>, h3))"

definition KnativeEdgeStatus_DeepCopy :: "(addr option, 'm, 'l, 'g, 'x) into" where
  "KnativeEdgeStatus_DeepCopy = copy_ref CEdgeStatus un_edge_status zero_edge_status KnativeEdgeStatus_DeepCopyInto"

definition KnativeEdge_DeepCopyInto :: "('m, 'm, 'l, 'g, 'x) into \<Rightarrow> ('m edge_struct, 'm, 'l, 'g, 'x) into" where
  "KnativeEdge_DeepCopyInto meta_into x h =
     (let (m, h1) = meta_into (ge_meta x) h;
          (spec, h2) = KnativeEdgeSpec_DeepCopyInto (ge_spec x) h1;
          (status, h3) = KnativeEdgeStatus_DeepCopyInto (ge_status x) h2
      in (x\<lparr>ge_type := ge_type x, ge_meta := m, ge_spec := spec, ge_status := status\<rparr>, h3))"

definition KnativeEdge_DeepCopy :: "'m \<Rightarrow> ('m, 'm, 'l, 'g, 'x) into \<Rightarrow> (addr option, 'm, 'l, 'g, 'x) into" where
  "KnativeEdge_DeepCopy zero meta_into = copy_ref CEdge un_edge (zero_edge zero) (KnativeEdge_DeepCopyInto meta_into)"

text \<open>\<open>DeepCopyObject\<close>: the copy as an interface; a nil pointer becomes the nil interface.\<close>

definition copy_object :: "(addr option, 'm, 'l, 'g, 'x) into \<Rightarrow> (addr option, 'm, 'l, 'g, 'x) into" where
  "copy_object copy p h = (case copy p h of (None, h1) \<Rightarrow> (None, h1) | (Some c, h1) \<Rightarrow> (Some c, h1))"

definition KnativeEdge_DeepCopyObject :: "'m \<Rightarrow> ('m, 'm, 'l, 'g, 'x) into \<Rightarrow> (addr option, 'm, 'l, 'g, 'x) into" where
  "KnativeEdge_DeepCopyObject zero meta_into = copy_object (KnativeEdge_DeepCopy zero meta_into)"

definition KnativeEdgeList_DeepCopyInto ::
  "('m, 'm, 'l, 'g, 'x) into \<Rightarrow> ('l, 'm, 'l, 'g, 'x) into \<Rightarrow> ('l edge_list_struct, 'm, 'l, 'g, 'x) into"
where
  "KnativeEdgeList_DeepCopyInto meta_into list_into x h =
     (let (m, h1) = list_into (gl_meta x) h;
          (items, h2) = copy_ref CEdges un_edges [] (copy_all (KnativeEdge_DeepCopyInto meta_into)) (gl_items x) h1
      in (x\<lparr>gl_type := gl_type x, gl_meta := m, gl_items := items\<rparr>, h2))"

definition KnativeEdgeList_DeepCopy ::
  "'l \<Rightarrow> ('m, 'm, 'l, 'g, 'x) into \<Rightarrow> ('l, 'm, 'l, 'g, 'x) into \<Rightarrow> (addr option, 'm, 'l, 'g, 'x) into"
where
  "KnativeEdgeList_DeepCopy zero meta_into list_into =
     copy_ref CEdgeList un_edge_list (zero_edge_list zero) (KnativeEdgeList_DeepCopyInto meta_into list_into)"

definition KnativeEdgeList_DeepCopyObject ::
  "'l \<Rightarrow> ('m, 'm, 'l, 'g, 'x) into \<Rightarrow> ('l, 'm, 'l, 'g, 'x) into \<Rightarrow> (addr option, 'm, 'l, 'g, 'x) into"
where
  "KnativeEdgeList_DeepCopyObject zero meta_into list_into = copy_object (KnativeEdgeList_DeepCopy zero meta_into list_into)"

text \<open>\<open>Namespaces\<close> is a pointer to a slice: a new slice header, and a new array unless the slice is nil.\<close>

definition OperatorConfigOptions_DeepCopyInto :: "(options_struct, 'm, 'l, 'g, 'x) into" where
  "OperatorConfigOptions_DeepCopyInto x h =
     (let (namespaces, h1) = copy_ref CSlice un_slice None copy_strings (gn_namespaces x) h;
          (period, h2) = copy_ref CDuration un_duration 0 plain (gn_remote_sync x) h1
      in (x\<lparr>gn_namespaces := namespaces, gn_remote_sync := period\<rparr>, h2))"

definition OperatorConfigOptions_DeepCopy :: "(addr option, 'm, 'l, 'g, 'x) into" where
  "OperatorConfigOptions_DeepCopy = copy_ref COptions un_options zero_options OperatorConfigOptions_DeepCopyInto"

definition OperatorConfig_DeepCopyInto :: "('g, 'm, 'l, 'g, 'x) into \<Rightarrow> ('g config_struct, 'm, 'l, 'g, 'x) into" where
  "OperatorConfig_DeepCopyInto spec_into x h =
     (let (spec, h1) = spec_into (gc_spec x) h;
          (options, h2) = OperatorConfigOptions_DeepCopyInto (gc_options x) h1
      in (x\<lparr>gc_type := gc_type x, gc_spec := spec, gc_options := options\<rparr>, h2))"

definition OperatorConfig_DeepCopy :: "'g \<Rightarrow> ('g, 'm, 'l, 'g, 'x) into \<Rightarrow> (addr option, 'm, 'l, 'g, 'x) into" where
  "OperatorConfig_DeepCopy zero spec_into = copy_ref CConfig un_config (zero_config zero) (OperatorConfig_DeepCopyInto spec_into)"

definition OperatorConfig_DeepCopyObject :: "'g \<Rightarrow> ('g, 'm, 'l, 'g, 'x) into \<Rightarrow> (addr option, 'm, 'l, 'g, 'x) into" where
  "OperatorConfig_DeepCopyObject zero spec_into = copy_object (OperatorConfig_DeepCopy zero spec_into)"

section \<open>The edge clusters' deep copies\<close>

definition EdgeClusterSpec_DeepCopyInto :: "(cluster_spec_struct, 'm, 'l, 'g, 'x) into" where
  "EdgeClusterSpec_DeepCopyInto x h =
     (let (zone, h1) = copy_string (gk_zone x) h;
          (region, h2) = copy_string (gk_region x) h1;
          (environments, h3) = copy_strings (gk_environments x) h2
      in (x\<lparr>gk_zone := zone, gk_region := region, gk_environments := environments\<rparr>, h3))"

definition EdgeClusterSpec_DeepCopy :: "(addr option, 'm, 'l, 'g, 'x) into" where
  "EdgeClusterSpec_DeepCopy = copy_ref CClusterSpec un_cluster_spec zero_cluster_spec EdgeClusterSpec_DeepCopyInto"

text \<open>\<open>EdgeClusterStatus\<close> has one string.\<close>

definition EdgeClusterStatus_DeepCopyInto :: "(string, 'm, 'l, 'g, 'x) into" where
  "EdgeClusterStatus_DeepCopyInto x h = (x, h)"

definition EdgeClusterStatus_DeepCopy :: "(addr option, 'm, 'l, 'g, 'x) into" where
  "EdgeClusterStatus_DeepCopy = copy_ref CClusterStatus un_cluster_status [] EdgeClusterStatus_DeepCopyInto"

definition EdgeCluster_DeepCopyInto :: "('m, 'm, 'l, 'g, 'x) into \<Rightarrow> ('m cluster_struct, 'm, 'l, 'g, 'x) into" where
  "EdgeCluster_DeepCopyInto meta_into x h =
     (let (m, h1) = meta_into (gm_meta x) h;
          (spec, h2) = EdgeClusterSpec_DeepCopyInto (gm_spec x) h1
      in (x\<lparr>gm_type := gm_type x, gm_meta := m, gm_spec := spec, gm_last_reported := gm_last_reported x\<rparr>, h2))"

definition EdgeCluster_DeepCopy :: "'m \<Rightarrow> ('m, 'm, 'l, 'g, 'x) into \<Rightarrow> (addr option, 'm, 'l, 'g, 'x) into" where
  "EdgeCluster_DeepCopy zero meta_into = copy_ref CCluster un_cluster (zero_cluster zero) (EdgeCluster_DeepCopyInto meta_into)"

definition EdgeCluster_DeepCopyObject :: "'m \<Rightarrow> ('m, 'm, 'l, 'g, 'x) into \<Rightarrow> (addr option, 'm, 'l, 'g, 'x) into" where
  "EdgeCluster_DeepCopyObject zero meta_into = copy_object (EdgeCluster_DeepCopy zero meta_into)"

definition EdgeClusterList_DeepCopyInto ::
  "('m, 'm, 'l, 'g, 'x) into \<Rightarrow> ('l, 'm, 'l, 'g, 'x) into \<Rightarrow> ('l cluster_list_struct, 'm, 'l, 'g, 'x) into"
where
  "EdgeClusterList_DeepCopyInto meta_into list_into x h =
     (let (m, h1) = list_into (gq_meta x) h;
          (items, h2) = copy_ref CClusters un_clusters [] (copy_all (EdgeCluster_DeepCopyInto meta_into)) (gq_items x) h1
      in (x\<lparr>gq_type := gq_type x, gq_meta := m, gq_items := items\<rparr>, h2))"

definition EdgeClusterList_DeepCopy ::
  "'l \<Rightarrow> ('m, 'm, 'l, 'g, 'x) into \<Rightarrow> ('l, 'm, 'l, 'g, 'x) into \<Rightarrow> (addr option, 'm, 'l, 'g, 'x) into"
where
  "EdgeClusterList_DeepCopy zero meta_into list_into =
     copy_ref CClusterList un_cluster_list (zero_cluster_list zero) (EdgeClusterList_DeepCopyInto meta_into list_into)"

definition EdgeClusterList_DeepCopyObject ::
  "'l \<Rightarrow> ('m, 'm, 'l, 'g, 'x) into \<Rightarrow> ('l, 'm, 'l, 'g, 'x) into \<Rightarrow> (addr option, 'm, 'l, 'g, 'x) into"
where
  "EdgeClusterList_DeepCopyObject zero meta_into list_into = copy_object (EdgeClusterList_DeepCopy zero meta_into list_into)"

section \<open>The meaning of the types\<close>

text \<open>The copiers that go with the functions: which fields are copied, and how.\<close>

abbreviation string_ref :: "(addr option, ('m, 'l, 'g, 'x) go_cell) copier" where
  "string_ref \<equiv> ref_copier CString un_string [] flat_copier"

abbreviation secret_ref :: "(addr option, ('m, 'l, 'g, 'x) go_cell) copier" where
  "secret_ref \<equiv> ref_copier CSecretReference un_secret zero_secret flat_copier"

abbreviation strings_ref :: "(addr option, ('m, 'l, 'g, 'x) go_cell) copier" where
  "strings_ref \<equiv> ref_copier CStrings un_strings [] flat_copier"

definition prometheus_copier :: "(prometheus_struct, ('m, 'l, 'g, 'x) go_cell) copier" where
  "prometheus_copier =
     struct_copier (\<lambda>x. (gp_user x, gp_password x, gp_secret_ref x))
       (\<lambda>(u, p, s) x. x\<lparr>gp_user := u, gp_password := p, gp_secret_ref := s\<rparr>)
       (pair_copier string_ref (pair_copier string_ref secret_ref))"

definition edge_spec_copier :: "(edge_spec_struct, ('m, 'l, 'g, 'x) go_cell) copier" where
  "edge_spec_copier =
     struct_copier (\<lambda>x. (gs_secret_ref x, gs_prometheus x)) (\<lambda>(s, p) x. x\<lparr>gs_secret_ref := s, gs_prometheus := p\<rparr>)
       (pair_copier secret_ref (ref_copier CPrometheus un_prometheus zero_prometheus prometheus_copier))"

definition edge_status_copier :: "(edge_status_struct, ('m, 'l, 'g, 'x) go_cell) copier" where
  "edge_status_copier =
     struct_copier (\<lambda>x. (gt_zone x, gt_region x, gt_conditions x))
       (\<lambda>(z, r, c) x. x\<lparr>gt_zone := z, gt_region := r, gt_conditions := c\<rparr>)
       (pair_copier string_ref (pair_copier string_ref (ref_copier CConditions un_conditions [] (list_copier flat_copier))))"

definition edge_copier :: "('m, ('m, 'l, 'g, 'x) go_cell) copier \<Rightarrow> ('m edge_struct, ('m, 'l, 'g, 'x) go_cell) copier" where
  "edge_copier M =
     struct_copier (\<lambda>x. (ge_meta x, ge_spec x, ge_status x)) (\<lambda>(m, s, t) x. x\<lparr>ge_meta := m, ge_spec := s, ge_status := t\<rparr>)
       (pair_copier M (pair_copier edge_spec_copier edge_status_copier))"

definition edge_list_copier ::
  "('m, ('m, 'l, 'g, 'x) go_cell) copier \<Rightarrow> ('l, ('m, 'l, 'g, 'x) go_cell) copier \<Rightarrow> ('l edge_list_struct, ('m, 'l, 'g, 'x) go_cell) copier"
where
  "edge_list_copier M L =
     struct_copier (\<lambda>x. (gl_meta x, gl_items x)) (\<lambda>(m, i) x. x\<lparr>gl_meta := m, gl_items := i\<rparr>)
       (pair_copier L (ref_copier CEdges un_edges [] (list_copier (edge_copier M))))"

definition options_copier :: "(options_struct, ('m, 'l, 'g, 'x) go_cell) copier" where
  "options_copier =
     struct_copier (\<lambda>x. (gn_namespaces x, gn_remote_sync x)) (\<lambda>(n, p) x. x\<lparr>gn_namespaces := n, gn_remote_sync := p\<rparr>)
       (pair_copier (ref_copier CSlice un_slice None strings_ref) (ref_copier CDuration un_duration 0 flat_copier))"

definition config_copier :: "('g, ('m, 'l, 'g, 'x) go_cell) copier \<Rightarrow> ('g config_struct, ('m, 'l, 'g, 'x) go_cell) copier" where
  "config_copier G =
     struct_copier (\<lambda>x. (gc_spec x, gc_options x)) (\<lambda>(s, n) x. x\<lparr>gc_spec := s, gc_options := n\<rparr>)
       (pair_copier G options_copier)"

definition cluster_spec_copier :: "(cluster_spec_struct, ('m, 'l, 'g, 'x) go_cell) copier" where
  "cluster_spec_copier =
     struct_copier (\<lambda>x. (gk_zone x, gk_region x, gk_environments x))
       (\<lambda>(z, r, e) x. x\<lparr>gk_zone := z, gk_region := r, gk_environments := e\<rparr>)
       (pair_copier string_ref (pair_copier string_ref strings_ref))"

definition cluster_copier :: "('m, ('m, 'l, 'g, 'x) go_cell) copier \<Rightarrow> ('m cluster_struct, ('m, 'l, 'g, 'x) go_cell) copier" where
  "cluster_copier M =
     struct_copier (\<lambda>x. (gm_meta x, gm_spec x)) (\<lambda>(m, s) x. x\<lparr>gm_meta := m, gm_spec := s\<rparr>)
       (pair_copier M cluster_spec_copier)"

definition cluster_list_copier ::
  "('m, ('m, 'l, 'g, 'x) go_cell) copier \<Rightarrow> ('l, ('m, 'l, 'g, 'x) go_cell) copier \<Rightarrow> ('l cluster_list_struct, ('m, 'l, 'g, 'x) go_cell) copier"
where
  "cluster_list_copier M L =
     struct_copier (\<lambda>x. (gq_meta x, gq_items x)) (\<lambda>(m, i) x. x\<lparr>gq_meta := m, gq_items := i\<rparr>)
       (pair_copier L (ref_copier CClusters un_clusters [] (list_copier (cluster_copier M))))"

text \<open>Each of them copies the way the generated function does.\<close>

lemma into_shapes:
  "cp_into flat_copier = plain" "cp_into (ref_copier mk sel zero A) = copy_ref mk sel zero (cp_into A)"
  "cp_into (list_copier A) = copy_all (cp_into A)"
  "cp_into (pair_copier A B) (x1, x2) h =
     (let (y1, h1) = cp_into A x1 h; (y2, h2) = cp_into B x2 h1 in ((y1, y2), h2))"
  "cp_into (struct_copier get put A) x h = (let (y, h1) = cp_into A (get x) h in (put y x, h1))"
  by (simp_all add: flat_copier_def plain_def fun_eq_iff ref_copier_def list_copier_def pair_copier_def struct_copier_def)

lemmas copy_leaf_defs = copy_string_def copy_secret_def copy_strings_def

lemma prometheus_into: "cp_into prometheus_copier = KnativeEdgePrometheus_DeepCopyInto"
  by (intro ext)
    (simp add: prometheus_copier_def KnativeEdgePrometheus_DeepCopyInto_def into_shapes copy_leaf_defs split: prod.split)

lemma edge_spec_into: "cp_into edge_spec_copier = KnativeEdgeSpec_DeepCopyInto"
  by (intro ext)
    (simp add: edge_spec_copier_def KnativeEdgeSpec_DeepCopyInto_def into_shapes copy_leaf_defs prometheus_into split: prod.split)

lemma edge_status_into: "cp_into edge_status_copier = KnativeEdgeStatus_DeepCopyInto"
  by (intro ext)
    (simp add: edge_status_copier_def KnativeEdgeStatus_DeepCopyInto_def into_shapes copy_leaf_defs split: prod.split)

lemma edge_into: "cp_into (edge_copier M) = KnativeEdge_DeepCopyInto (cp_into M)"
  by (intro ext)
    (simp add: edge_copier_def KnativeEdge_DeepCopyInto_def into_shapes edge_spec_into edge_status_into split: prod.split)

lemma edge_list_into: "cp_into (edge_list_copier M L) = KnativeEdgeList_DeepCopyInto (cp_into M) (cp_into L)"
  by (intro ext) (simp add: edge_list_copier_def KnativeEdgeList_DeepCopyInto_def into_shapes edge_into split: prod.split)

lemma options_into: "cp_into options_copier = OperatorConfigOptions_DeepCopyInto"
  by (intro ext)
    (simp add: options_copier_def OperatorConfigOptions_DeepCopyInto_def into_shapes copy_leaf_defs split: prod.split)

lemma config_into: "cp_into (config_copier G) = OperatorConfig_DeepCopyInto (cp_into G)"
  by (intro ext) (simp add: config_copier_def OperatorConfig_DeepCopyInto_def into_shapes options_into split: prod.split)

lemma cluster_spec_into: "cp_into cluster_spec_copier = EdgeClusterSpec_DeepCopyInto"
  by (intro ext)
    (simp add: cluster_spec_copier_def EdgeClusterSpec_DeepCopyInto_def into_shapes copy_leaf_defs split: prod.split)

lemma cluster_into: "cp_into (cluster_copier M) = EdgeCluster_DeepCopyInto (cp_into M)"
  by (intro ext) (simp add: cluster_copier_def EdgeCluster_DeepCopyInto_def into_shapes cluster_spec_into split: prod.split)

lemma cluster_list_into: "cp_into (cluster_list_copier M L) = EdgeClusterList_DeepCopyInto (cp_into M) (cp_into L)"
  by (intro ext) (simp add: cluster_list_copier_def EdgeClusterList_DeepCopyInto_def into_shapes cluster_into split: prod.split)

section \<open>The contract\<close>

lemma cells_read_back:
  "reads_back CString un_string" "reads_back CSecretReference un_secret" "reads_back CDuration un_duration"
  "reads_back CStrings un_strings" "reads_back CSlice un_slice" "reads_back CConditions un_conditions"
  "reads_back CPrometheus un_prometheus" "reads_back CEdge un_edge" "reads_back CEdges un_edges"
  "reads_back CEdgeList un_edge_list" "reads_back CConfig un_config" "reads_back CCluster un_cluster"
  "reads_back CClusters un_clusters" "reads_back CClusterList un_cluster_list"
  by (simp_all add: reads_back_def)

lemmas deep_rules = deep_intros cells_read_back

interpretation prometheus: deep_copier prometheus_copier
  unfolding prometheus_copier_def by (intro deep_rules) (simp add: lens_def)

interpretation edge_spec: deep_copier edge_spec_copier
  unfolding edge_spec_copier_def by (intro deep_rules prometheus.deep_copier_axioms) (simp add: lens_def)

interpretation edge_status: deep_copier edge_status_copier
  unfolding edge_status_copier_def by (intro deep_rules) (simp add: lens_def)

interpretation options: deep_copier options_copier
  unfolding options_copier_def by (intro deep_rules) (simp add: lens_def)

interpretation cluster_spec: deep_copier cluster_spec_copier
  unfolding cluster_spec_copier_def by (intro deep_rules) (simp add: lens_def)

lemma edge_deep: "deep_copier M \<Longrightarrow> deep_copier (edge_copier M)"
  unfolding edge_copier_def
  by (intro deep_rules edge_spec.deep_copier_axioms edge_status.deep_copier_axioms) (simp_all add: lens_def)

lemma edge_list_deep: "deep_copier M \<Longrightarrow> deep_copier L \<Longrightarrow> deep_copier (edge_list_copier M L)"
  unfolding edge_list_copier_def by (intro deep_rules edge_deep) (simp_all add: lens_def)

lemma config_deep: "deep_copier G \<Longrightarrow> deep_copier (config_copier G)"
  unfolding config_copier_def by (intro deep_rules options.deep_copier_axioms) (simp_all add: lens_def)

lemma cluster_deep: "deep_copier M \<Longrightarrow> deep_copier (cluster_copier M)"
  unfolding cluster_copier_def by (intro deep_rules cluster_spec.deep_copier_axioms) (simp_all add: lens_def)

lemma cluster_list_deep: "deep_copier M \<Longrightarrow> deep_copier L \<Longrightarrow> deep_copier (cluster_list_copier M L)"
  unfolding cluster_list_copier_def by (intro deep_rules cluster_deep) (simp_all add: lens_def)

lemma copy_object_id: "copy_object copy p h = copy p h"
  by (simp add: copy_object_def split: prod.split option.split)

section \<open>Properties\<close>

text \<open>A pointer to an object, and what the writes through a copy can reach.\<close>

abbreviation edge_list_ref ::
  "'l \<Rightarrow> ('m, ('m, 'l, 'g, 'x) go_cell) copier \<Rightarrow> ('l, ('m, 'l, 'g, 'x) go_cell) copier \<Rightarrow> (addr option, ('m, 'l, 'g, 'x) go_cell) copier"
where
  "edge_list_ref zero M L \<equiv> ref_copier CEdgeList un_edge_list (zero_edge_list zero) (edge_list_copier M L)"

definition only_new_written :: "'c heap \<Rightarrow> 'c heap \<Rightarrow> (addr \<rightharpoonup> 'c) \<Rightarrow> bool" where
  "only_new_written h h' m \<longleftrightarrow> (\<forall>a. a < hp_next h \<longrightarrow> m a = hp_cells h' a)"

text \<open>
  C31. A deep copy of a list of KnativeEdges, the object that a cache hands out for it, is equal
  to the list and reaches only addresses that were not in use; and whatever is then written at
  new addresses, the list itself stays as it was, with its items, their specifications, the
  Prometheus settings and the conditions. The copies of \<open>ObjectMeta\<close> and \<open>ListMeta\<close> are assumed
  to be deep copies.
\<close>

theorem edge_list_copy_separate:
  assumes "deep_copier M" and "deep_copier L" and "heap_ok h" and "cp_valid (edge_list_ref zero M L) (hp_cells h) p"
    and "KnativeEdgeList_DeepCopyObject zero (cp_into M) (cp_into L) p h = (q, h')" and "only_new_written h h' m"
  shows "copied (edge_list_ref zero M L) h p h' q \<and> cp_same (edge_list_ref zero M L) (hp_cells h) p m p"
proof -
  have d: "deep_copier (edge_list_ref zero M L)"
    by (intro ref_deep edge_list_deep assms cells_read_back)
  have "cp_into (edge_list_ref zero M L) p h = (q, h')"
    using assms(5) by (simp add: KnativeEdgeList_DeepCopyObject_def copy_object_id KnativeEdgeList_DeepCopy_def into_shapes edge_list_into)
  then show ?thesis
    using deep_copier.copies [OF d assms(3,4)] deep_copier.copy_separate [OF d assms(3,4), of q h' m] assms(6)
    by (simp add: only_new_written_def)
qed

text \<open>
  A list with one item whose Prometheus settings have a user name; in this sample the metadata
  of an object is a pointer to a string.
\<close>

definition sample_cells :: "addr \<rightharpoonup> (addr option, addr option, unit, unit) go_cell" where
  "sample_cells =
     [0 \<mapsto> CEdgeList (zero_edge_list None\<lparr>gl_items := Some 1\<rparr>),
      1 \<mapsto> CEdges [zero_edge (Some 4)\<lparr>ge_spec := zero_edge_spec\<lparr>gs_prometheus := Some 2\<rparr>\<rparr>],
      2 \<mapsto> CPrometheus (zero_prometheus\<lparr>gp_user := Some 3\<rparr>), 3 \<mapsto> CString ''admin'', 4 \<mapsto> CString ''edge'']"

definition sample_heap :: "(addr option, addr option, unit, unit) go_cell heap" where
  "sample_heap = \<lparr>hp_cells = sample_cells, hp_next = 5\<rparr>"

lemma sample_heap_ok: "heap_ok sample_heap"
  by (auto simp: heap_ok_def sample_heap_def sample_cells_def)

lemma valid_shapes:
  "cp_valid flat_copier m x" "cp_valid (pair_copier A B) m (y, z) = (cp_valid A m y \<and> cp_valid B m z)"
  "cp_valid (struct_copier get put C) m s = cp_valid C m (get s)"
  "cp_valid (list_copier D) m xs = (\<forall>x \<in> set xs. cp_valid D m x)"
  "cp_valid (ref_copier mk sel z E) m None"
  "cp_valid (ref_copier mk sel z E) m (Some a) = (case deref mk sel m a of None \<Rightarrow> False | Some x \<Rightarrow> cp_valid E m x)"
  by (simp_all add: flat_copier_def pair_copier_def struct_copier_def list_copier_def ref_copier_def)

lemma sample_list_valid: "cp_valid (edge_list_ref None string_ref string_ref) (hp_cells sample_heap) (Some 0)"
  by (simp add: valid_shapes edge_list_copier_def edge_copier_def edge_spec_copier_def edge_status_copier_def prometheus_copier_def
      sample_heap_def sample_cells_def deref_def zero_edge_list_def zero_edge_def zero_edge_spec_def zero_edge_status_def
      zero_prometheus_def)

theorem edge_list_copy_separate_witness:
  "\<exists>b h'. KnativeEdgeList_DeepCopyObject None (cp_into string_ref) (cp_into string_ref) (Some 0) sample_heap = (Some b, h') \<and> 5 \<le> b \<and>
     cp_same (edge_list_ref None string_ref string_ref) sample_cells (Some 0) ((hp_cells h')(b \<mapsto> CString [])) (Some 0)"
proof -
  let ?R = "edge_list_ref None string_ref string_ref"
  obtain q h' where run: "KnativeEdgeList_DeepCopyObject None (cp_into string_ref) (cp_into string_ref) (Some 0) sample_heap = (q, h')"
    by (cases "KnativeEdgeList_DeepCopyObject None (cp_into string_ref) (cp_into string_ref) (Some 0) sample_heap")
  have s: "deep_copier (string_ref :: (addr option, (addr option, addr option, unit, unit) go_cell) copier)"
    by (intro deep_rules)
  note c = edge_list_copy_separate [OF s s sample_heap_ok sample_list_valid run]
  have "copied ?R sample_heap (Some 0) h' q" using c [of "hp_cells h'"] by (simp add: only_new_written_def)
  then have q: "cp_same ?R (hp_cells sample_heap) (Some 0) (hp_cells h') q" "\<forall>a \<in> cp_addrs ?R (hp_cells h') q. hp_next sample_heap \<le> a"
    by (simp_all add: copied_def)
  obtain b where b: "q = Some b" using q(1) by (cases q) (simp_all add: ref_copier_def)
  have "b \<in> cp_addrs ?R (hp_cells h') q" using b by (auto simp: ref_copier_def split: option.split)
  then have "5 \<le> b" using q(2) by (auto simp: sample_heap_def)
  moreover have "cp_same ?R (hp_cells sample_heap) (Some 0) ((hp_cells h')(b \<mapsto> CString [])) (Some 0)"
    using c [of "(hp_cells h')(b \<mapsto> CString [])"] \<open>5 \<le> b\<close> by (simp add: only_new_written_def sample_heap_def)
  ultimately show ?thesis using run b by (simp add: sample_heap_def)
qed

abbreviation cluster_list_ref ::
  "'l \<Rightarrow> ('m, ('m, 'l, 'g, 'x) go_cell) copier \<Rightarrow> ('l, ('m, 'l, 'g, 'x) go_cell) copier \<Rightarrow> (addr option, ('m, 'l, 'g, 'x) go_cell) copier"
where
  "cluster_list_ref zero M L \<equiv> ref_copier CClusterList un_cluster_list (zero_cluster_list zero) (cluster_list_copier M L)"

text \<open>The same for a list of EdgeClusters and for a configuration of the operator.\<close>

theorem cluster_list_copy_separate:
  assumes "deep_copier M" and "deep_copier L" and "heap_ok h" and "cp_valid (cluster_list_ref zero M L) (hp_cells h) p"
    and "EdgeClusterList_DeepCopyObject zero (cp_into M) (cp_into L) p h = (q, h')" and "only_new_written h h' m"
  shows "copied (cluster_list_ref zero M L) h p h' q \<and> cp_same (cluster_list_ref zero M L) (hp_cells h) p m p"
proof -
  have d: "deep_copier (cluster_list_ref zero M L)"
    by (intro ref_deep cluster_list_deep assms cells_read_back)
  have "cp_into (cluster_list_ref zero M L) p h = (q, h')"
    using assms(5)
    by (simp add: EdgeClusterList_DeepCopyObject_def copy_object_id EdgeClusterList_DeepCopy_def into_shapes cluster_list_into)
  then show ?thesis
    using deep_copier.copies [OF d assms(3,4)] deep_copier.copy_separate [OF d assms(3,4), of q h' m] assms(6)
    by (simp add: only_new_written_def)
qed

theorem config_copy_separate:
  assumes "deep_copier G" and "heap_ok h"
    and "cp_valid (ref_copier CConfig un_config (zero_config zero) (config_copier G)) (hp_cells h) p"
    and "OperatorConfig_DeepCopyObject zero (cp_into G) p h = (q, h')" and "only_new_written h h' m"
  shows "copied (ref_copier CConfig un_config (zero_config zero) (config_copier G)) h p h' q \<and>
    cp_same (ref_copier CConfig un_config (zero_config zero) (config_copier G)) (hp_cells h) p m p"
proof -
  have d: "deep_copier (ref_copier CConfig un_config (zero_config zero) (config_copier G))"
    by (intro ref_deep config_deep assms cells_read_back)
  have "cp_into (ref_copier CConfig un_config (zero_config zero) (config_copier G)) p h = (q, h')"
    using assms(4) by (simp add: OperatorConfig_DeepCopyObject_def copy_object_id OperatorConfig_DeepCopy_def into_shapes config_into)
  then show ?thesis
    using deep_copier.copies [OF d assms(2,3)] deep_copier.copy_separate [OF d assms(2,3), of q h' m] assms(5)
    by (simp add: only_new_written_def)
qed

end
