(* ===== verification/ApiScheme.thy ===== *)
theory ApiScheme
  imports Prelude
begin

text \<open>
  The registration of the API types: the two groups of pkg/apis, \<open>Builder\<close> of controller-runtime,
  \<open>AddKnownTypeWithName\<close> of apimachinery, and the schemes that the two commands build when they
  start. A client or a cache can handle an object only if its scheme knows a kind for the Go type,
  and a kind that is registered twice with different types panics. The types that client-go,
  core/v1, apps/v1 and serving/v1 register are arguments.
\<close>

section \<open>runtime.Scheme\<close>

record gvk =
  gv_group :: string
  gv_version :: string
  gv_kind :: string

record go_type =
  ty_package :: string
  ty_name :: string

record scheme =
  sc_types :: "gvk \<Rightarrow> go_type option"
  sc_kinds :: "go_type \<Rightarrow> gvk list"

definition NewScheme :: scheme where
  "NewScheme = \<lparr>sc_types = (\<lambda>g. None), sc_kinds = (\<lambda>t. [])\<rparr>"

definition AddKnownTypeWithName :: "gvk \<Rightarrow> go_type \<Rightarrow> scheme \<Rightarrow> scheme go" where
  "AddKnownTypeWithName g t s =
     (if gv_version g = [] then Panicked ''version is required on all types''
      else
        (let register = s\<lparr>sc_types := (sc_types s)(g \<mapsto> t)\<rparr> in
         case sc_types s g of
           Some oldT \<Rightarrow>
             if oldT \<noteq> t then Panicked ''Double registration of different types''
             else Done (if list_ex (\<lambda>existing. existing = g) (sc_kinds s t) then register
                        else register\<lparr>sc_kinds := (sc_kinds s)(t := sc_kinds s t @ [g])\<rparr>)
         | None \<Rightarrow>
             Done (if list_ex (\<lambda>existing. existing = g) (sc_kinds s t) then register
                   else register\<lparr>sc_kinds := (sc_kinds s)(t := sc_kinds s t @ [g])\<rparr>)))"

text \<open>A package's \<open>AddToScheme\<close>: its kinds in order.\<close>

fun add_kinds :: "(gvk \<times> go_type) list \<Rightarrow> scheme \<Rightarrow> scheme go" where
  "add_kinds [] s = Done s"
| "add_kinds ((g, t) # rest) s = bind_go (AddKnownTypeWithName g t s) (add_kinds rest)"

text \<open>\<open>AddKnownTypes\<close>: the kind is the name of the type.\<close>

definition known_types :: "string \<Rightarrow> string \<Rightarrow> go_type list \<Rightarrow> (gvk \<times> go_type) list" where
  "known_types grp version types = map (\<lambda>t. (\<lparr>gv_group = grp, gv_version = version, gv_kind = ty_name t\<rparr>, t)) types"

definition meta_type :: "string \<Rightarrow> go_type" where
  "meta_type n = \<lparr>ty_package = ''k8s.io/apimachinery/pkg/apis/meta/v1'', ty_name = n\<rparr>"

definition AddToGroupVersion :: "string \<Rightarrow> string \<Rightarrow> (gvk \<times> go_type) list" where
  "AddToGroupVersion grp version =
     (\<lparr>gv_group = grp, gv_version = version, gv_kind = ''WatchEvent''\<rparr>, meta_type ''WatchEvent'') #
     (\<lparr>gv_group = grp, gv_version = ''__internal'', gv_kind = ''WatchEvent''\<rparr>, meta_type ''InternalEvent'') #
     known_types grp version (map meta_type [''ListOptions'', ''GetOptions'', ''DeleteOptions'', ''CreateOptions'',
       ''UpdateOptions'', ''PatchOptions'']) @
     known_types [] ''v1'' (map meta_type [''Status'', ''APIVersions'', ''APIGroupList'', ''APIGroup'', ''APIResourceList''])"

text \<open>One call of \<open>Register\<close> of a \<open>scheme.Builder\<close>.\<close>

definition Builder_Register :: "string \<Rightarrow> string \<Rightarrow> go_type list \<Rightarrow> (gvk \<times> go_type) list" where
  "Builder_Register grp version types = known_types grp version types @ AddToGroupVersion grp version"

definition ObjectKinds :: "scheme \<Rightarrow> go_type \<Rightarrow> string + gvk list" where
  "ObjectKinds s t = (if sc_kinds s t = [] then Inl ''no kind is registered for the type'' else Inr (sc_kinds s t))"

section \<open>The two groups\<close>

definition EdgeGroup :: string where "EdgeGroup = ''edge.jevv.dev''"
definition OperatorGroup :: string where "OperatorGroup = ''operator.edge.jevv.dev''"

definition edge_type :: "string \<Rightarrow> go_type" where
  "edge_type n = \<lparr>ty_package = ''edge.jevv.dev/pkg/apis/edge/v1alpha1'', ty_name = n\<rparr>"

definition operator_type :: "string \<Rightarrow> go_type" where
  "operator_type n = \<lparr>ty_package = ''edge.jevv.dev/pkg/apis/operator/v1alpha1'', ty_name = n\<rparr>"

definition edge_AddToScheme :: "(gvk \<times> go_type) list" where
  "edge_AddToScheme = Builder_Register EdgeGroup ''v1alpha1'' [edge_type ''EdgeCluster'', edge_type ''EdgeClusterList'']"

definition operator_AddToScheme :: "(gvk \<times> go_type) list" where
  "operator_AddToScheme =
     Builder_Register OperatorGroup ''v1alpha1'' [operator_type ''KnativeEdge'', operator_type ''KnativeEdgeList''] @
     Builder_Register OperatorGroup ''v1alpha1'' [operator_type ''OperatorConfig'']"

section \<open>The schemes of the commands\<close>

definition operator_init :: "(gvk \<times> go_type) list \<Rightarrow> (gvk \<times> go_type) list \<Rightarrow> scheme go" where
  "operator_init clientgo appsv1 =
     bind_go (add_kinds clientgo NewScheme) (\<lambda>s.
     bind_go (add_kinds appsv1 s) (\<lambda>s.
     bind_go (add_kinds edge_AddToScheme s) (\<lambda>s. add_kinds operator_AddToScheme s)))"

definition controller_init ::
  "(gvk \<times> go_type) list \<Rightarrow> (gvk \<times> go_type) list \<Rightarrow> (gvk \<times> go_type) list \<Rightarrow> scheme go"
where
  "controller_init clientgo corev1 servingv1 =
     bind_go (add_kinds clientgo NewScheme) (\<lambda>s.
     bind_go (add_kinds corev1 s) (\<lambda>s.
     bind_go (add_kinds servingv1 s) (\<lambda>s. add_kinds edge_AddToScheme s)))"

section \<open>What is registered\<close>

definition scheme_ok :: "scheme \<Rightarrow> bool" where
  "scheme_ok s \<longleftrightarrow> (\<forall>t. distinct (sc_kinds s t) \<and> (\<forall>g. g \<in> set (sc_kinds s t) \<longleftrightarrow> sc_types s g = Some t))"

text \<open>A list of registrations that never gives one kind two types, on top of what is known.\<close>

definition consistent :: "(gvk \<Rightarrow> go_type option) \<Rightarrow> (gvk \<times> go_type) list \<Rightarrow> bool" where
  "consistent known regs \<longleftrightarrow>
     (\<forall>g t. (g, t) \<in> set regs \<longrightarrow>
        gv_version g \<noteq> [] \<and> (\<forall>t'. known g = Some t' \<longrightarrow> t' = t) \<and> (\<forall>t'. (g, t') \<in> set regs \<longrightarrow> t' = t))"

lemma consistentD:
  assumes "consistent known regs" "(g, t) \<in> set regs"
  shows "gv_version g \<noteq> []" and "(g, u) \<in> set regs \<Longrightarrow> u = t"
  using assms unfolding consistent_def by blast+

lemma AddKnownTypeWithName_ok:
  assumes ok: "scheme_ok s" and v: "gv_version g \<noteq> []" and same: "\<And>t'. sc_types s g = Some t' \<Longrightarrow> t' = t"
  shows "\<exists>s'. AddKnownTypeWithName g t s = Done s' \<and> scheme_ok s' \<and> sc_types s' = (sc_types s)(g \<mapsto> t)"
proof (cases "sc_types s g")
  case None
  then have new: "g \<notin> set (sc_kinds s u)" for u using ok by (simp add: scheme_ok_def)
  let ?s = "s\<lparr>sc_types := (sc_types s)(g \<mapsto> t), sc_kinds := (sc_kinds s)(t := sc_kinds s t @ [g])\<rparr>"
  have "AddKnownTypeWithName g t s = Done ?s" using v None new by (simp add: AddKnownTypeWithName_def list_ex_iff)
  moreover have "scheme_ok ?s"
    unfolding scheme_ok_def
  proof (intro allI conjI)
    fix u g'
    show "distinct (sc_kinds ?s u)" using ok new by (simp add: scheme_ok_def)
    show "g' \<in> set (sc_kinds ?s u) \<longleftrightarrow> sc_types ?s g' = Some u"
      using ok new [of u] by (cases "u = t"; cases "g' = g") (simp_all add: scheme_ok_def)
  qed
  ultimately show ?thesis by (intro exI [of _ ?s]) simp
next
  case (Some u)
  then have u: "u = t" using same by blast
  then have m: "g \<in> set (sc_kinds s t)" using ok Some by (simp add: scheme_ok_def)
  have "(sc_types s)(g \<mapsto> t) = sc_types s" using Some u by (simp add: fun_upd_idem)
  then have "AddKnownTypeWithName g t s = Done s"
    using v Some u m by (simp add: AddKnownTypeWithName_def list_ex_iff)
  then show ?thesis using ok \<open>(sc_types s)(g \<mapsto> t) = sc_types s\<close> by simp
qed

lemma add_kinds_ok:
  "scheme_ok s \<Longrightarrow> consistent (sc_types s) regs \<Longrightarrow>
   \<exists>s'. add_kinds regs s = Done s' \<and> scheme_ok s' \<and>
     (\<forall>g t. sc_types s' g = Some t \<longleftrightarrow> (g, t) \<in> set regs \<or> sc_types s g = Some t)"
proof (induction regs arbitrary: s)
  case (Cons r regs)
  obtain g t where r: "r = (g, t)" by (cases r)
  have v: "gv_version g \<noteq> []" and same: "\<And>t'. sc_types s g = Some t' \<Longrightarrow> t' = t"
    using Cons.prems(2) unfolding consistent_def r by (metis list.set_intros(1))+
  obtain s1 where 1: "AddKnownTypeWithName g t s = Done s1" "scheme_ok s1" "sc_types s1 = (sc_types s)(g \<mapsto> t)"
    using AddKnownTypeWithName_ok [OF Cons.prems(1) v same] by blast
  have "consistent (sc_types s1) regs"
    unfolding consistent_def
  proof (intro allI impI conjI)
    fix g' t' u
    assume m: "(g', t') \<in> set regs"
    then have "(g', t') \<in> set (r # regs)" by simp
    then have c: "gv_version g' \<noteq> []" "\<And>u. sc_types s g' = Some u \<Longrightarrow> u = t'" "\<And>u. (g', u) \<in> set (r # regs) \<Longrightarrow> u = t'"
      using Cons.prems(2) unfolding consistent_def by blast+
    show "gv_version g' \<noteq> []" by (rule c(1))
    show "u = t'" if "sc_types s1 g' = Some u"
      using that c(2,3) r by (cases "g' = g") (simp_all add: 1(3))
    show "u = t'" if "(g', u) \<in> set regs" using that c(3) by simp
  qed
  then obtain s2 where 2: "add_kinds regs s1 = Done s2" "scheme_ok s2"
      "\<And>g' t'. sc_types s2 g' = Some t' \<longleftrightarrow> (g', t') \<in> set regs \<or> sc_types s1 g' = Some t'"
    using Cons.IH [OF 1(2)] by blast
  have "(g', t') \<in> set regs \<or> sc_types s1 g' = Some t' \<longleftrightarrow> (g', t') \<in> set (r # regs) \<or> sc_types s g' = Some t'" for g' t'
    using same by (cases "g' = g") (auto simp: r 1(3))
  then show ?case using 1(1) 2 by (simp add: r)
qed simp

lemma add_kinds_append: "bind_go (add_kinds a s) (add_kinds b) = add_kinds (a @ b) s"
proof (induction a arbitrary: s)
  case (Cons r a)
  obtain g t where "r = (g, t)" by (cases r)
  then show ?case using Cons.IH by (cases "AddKnownTypeWithName g t s") simp_all
qed simp

lemma new_ok: "scheme_ok NewScheme"
  by (simp add: scheme_ok_def NewScheme_def)

lemma registered_kinds:
  assumes "consistent (\<lambda>g. None) regs"
  shows "\<exists>s. add_kinds regs NewScheme = Done s \<and> (\<forall>g t. (\<forall>g'. (g', t) \<in> set regs \<longleftrightarrow> g' = g) \<longrightarrow> ObjectKinds s t = Inr [g])"
proof -
  obtain s where s: "add_kinds regs NewScheme = Done s" "scheme_ok s" "\<And>g t. sc_types s g = Some t \<longleftrightarrow> (g, t) \<in> set regs"
    using add_kinds_ok [OF new_ok, of regs] assms by (auto simp: NewScheme_def)
  have "ObjectKinds s t = Inr [g]" if "\<forall>g'. (g', t) \<in> set regs \<longleftrightarrow> g' = g" for g t
  proof -
    have "distinct (sc_kinds s t)" "set (sc_kinds s t) = {g}"
      using s(2,3) that by (auto simp: scheme_ok_def)
    then have "sc_kinds s t = [g]" by (cases "sc_kinds s t") (auto simp: subset_singleton_iff)
    then show ?thesis by (simp add: ObjectKinds_def)
  qed
  then show ?thesis using s(1) by blast
qed

text \<open>The registrations of this repository, and what they need of the libraries.\<close>

definition own_types :: "go_type set" where
  "own_types = {edge_type ''EdgeCluster'', edge_type ''EdgeClusterList'', operator_type ''KnativeEdge'',
     operator_type ''KnativeEdgeList'', operator_type ''OperatorConfig''}"

definition unversioned :: "(gvk \<times> go_type) list" where
  "unversioned = known_types [] ''v1'' (map meta_type [''Status'', ''APIVersions'', ''APIGroupList'', ''APIGroup'', ''APIResourceList''])"

definition own_registrations :: "(gvk \<times> go_type) list" where
  "own_registrations = edge_AddToScheme @ operator_AddToScheme"

definition foreign_kinds :: "(gvk \<times> go_type) list \<Rightarrow> bool" where
  "foreign_kinds regs \<longleftrightarrow>
     consistent (\<lambda>g. None) (regs @ unversioned) \<and>
     (\<forall>g t. (g, t) \<in> set regs \<longrightarrow> gv_group g \<noteq> EdgeGroup \<and> gv_group g \<noteq> OperatorGroup \<and> t \<notin> own_types)"

definition group_kind :: "string \<Rightarrow> string \<Rightarrow> gvk" where
  "group_kind grp kind = \<lparr>gv_group = grp, gv_version = ''v1alpha1'', gv_kind = kind\<rparr>"

text \<open>Facts about the finite list of own registrations, by evaluation.\<close>

definition checked :: "(gvk \<times> go_type) list \<Rightarrow> bool" where
  "checked regs = list_all (\<lambda>(g, t). gv_version g \<noteq> [] \<and> list_all (\<lambda>(g', t'). g' = g \<longrightarrow> t' = t) regs) regs"

lemma consistent_checked: "consistent (\<lambda>g. None) regs \<longleftrightarrow> checked regs"
  unfolding consistent_def checked_def list_all_iff by auto

text \<open>The type of a kind is determined by its group, its version and its name.\<close>

definition type_of_kind :: "gvk \<Rightarrow> go_type" where
  "type_of_kind g =
     (if list_ex (\<lambda>k. k = gv_kind g) [''EdgeCluster'', ''EdgeClusterList''] then edge_type (gv_kind g)
      else if list_ex (\<lambda>k. k = gv_kind g) [''KnativeEdge'', ''KnativeEdgeList'', ''OperatorConfig''] then operator_type (gv_kind g)
      else if gv_version g = ''__internal'' then meta_type ''InternalEvent'' else meta_type (gv_kind g))"

lemma own_typed: "list_all (\<lambda>(g, t). gv_version g \<noteq> [] \<and> type_of_kind g = t) own_registrations"
  by code_simp

lemma own_typedD: "(g, t) \<in> set own_registrations \<Longrightarrow> gv_version g \<noteq> [] \<and> type_of_kind g = t"
  using own_typed by (metis (mono_tags, lifting) case_prodD list_all_iff)

lemma own_consistent: "consistent (\<lambda>g. None) own_registrations"
  unfolding consistent_def using own_typedD by (metis option.distinct(1))

lemma own_groups:
  "list_all (\<lambda>(g, t). gv_group g = EdgeGroup \<or> gv_group g = OperatorGroup \<or> list_ex (\<lambda>r. r = (g, t)) unversioned) own_registrations"
  by code_simp

definition kinds_of :: "go_type \<Rightarrow> (gvk \<times> go_type) list \<Rightarrow> gvk list" where
  "kinds_of t regs = map fst (filter (\<lambda>r. snd r = t) regs)"

lemma kinds_of_iff: "g \<in> set (kinds_of t regs) \<longleftrightarrow> (g, t) \<in> set regs"
  by (force simp: kinds_of_def)

lemma own_kinds:
  "kinds_of (operator_type ''KnativeEdge'') own_registrations = [group_kind OperatorGroup ''KnativeEdge'']"
  "kinds_of (edge_type ''EdgeCluster'') own_registrations = [group_kind EdgeGroup ''EdgeCluster'']"
  "kinds_of (edge_type ''EdgeCluster'') edge_AddToScheme = [group_kind EdgeGroup ''EdgeCluster'']"
  by code_simp+

lemma with_own_consistent:
  assumes "foreign_kinds regs" "set own \<subseteq> set own_registrations"
  shows "consistent (\<lambda>g. None) (regs @ own)"
  unfolding consistent_def
proof (intro allI impI conjI)
  note own = own_consistent
  have lib: "consistent (\<lambda>g. None) (regs @ unversioned)" using assms(1) by (simp add: foreign_kinds_def)
  have cross: "u = t" if m: "(g, t) \<in> set regs" "(g, u) \<in> set own_registrations" for g t u
  proof -
    have "(g, u) \<in> set unversioned"
      using own_groups m assms(1) by (auto simp: list_all_iff list_ex_iff foreign_kinds_def)
    then show ?thesis using consistentD(2) [OF lib, of g t u] m(1) by simp
  qed
  fix g t u
  assume m: "(g, t) \<in> set (regs @ own)"
  then have "(g, t) \<in> set (regs @ unversioned) \<or> (g, t) \<in> set own_registrations" using assms(2) by auto
  then show "gv_version g \<noteq> []" using consistentD(1) [OF lib] consistentD(1) [OF own] by blast
  show "u = t" if "None = Some u" using that by simp
  show "u = t" if m': "(g, u) \<in> set (regs @ own)"
  proof -
    consider "(g, t) \<in> set regs" "(g, u) \<in> set regs" | "(g, t) \<in> set regs" "(g, u) \<in> set own_registrations"
      | "(g, t) \<in> set own_registrations" "(g, u) \<in> set regs" | "(g, t) \<in> set own_registrations" "(g, u) \<in> set own_registrations"
      using m m' assms(2) by auto
    then show ?thesis
    proof cases
      case 1
      then show ?thesis using consistentD(2) [OF lib, of g t u] by simp
    next
      case 2
      then show ?thesis by (rule cross)
    next
      case 3
      then show ?thesis using cross [of g u t] by simp
    next
      case 4
      then show ?thesis using consistentD(2) [OF own] by blast
    qed
  qed
qed

lemma own_kind_unique:
  assumes "foreign_kinds regs" "t \<in> own_types" "kinds_of t own = [g]"
  shows "\<forall>g'. (g', t) \<in> set (regs @ own) \<longleftrightarrow> g' = g"
proof -
  have "(g', t) \<in> set own \<longleftrightarrow> g' = g" for g' using kinds_of_iff [of g' t own] assms(3) by simp
  moreover have "(g', t) \<notin> set regs" for g' using assms(1,2) by (auto simp: foreign_kinds_def)
  ultimately show ?thesis by simp
qed

section \<open>Properties\<close>



end
