(* ===== verification/Spec2Isabelle.thy ===== *)
theory Spec2Isabelle
  imports ListServices OffloadLoop ServiceMirror OffloadPath UsageTypes OperatorCommand Leadership ApiTypes ApiScheme
begin

text \<open>
  Knative Edge (module edge.jevv.dev) mirrors Knative services and the objects they need from a
  cloud cluster into an edge cluster, and sends a share of the traffic of each service back to
  the cloud when the edge cannot keep its latency. This development models its Go code under
  cmd/ and pkg/ as HOL functions and step relations and proves what they do.

  \<^bold>\<open>The parts of the program and their theories.\<close>

  \<^item> The edge controller (cmd/controller) runs four mirrors, a traffic store and the offload
    loop in one process. \<open>ControllerCommand\<close> is its main (flags, steps of the start, what each part
    is given) and the connection to the cloud (pkg/controllers/edge/cluster.go),
    \<open>Leadership\<close> what the manager runs of it before and after a replica is elected.
    \<open>Mirroring\<close> is the generic reconciler of pkg/controllers/edge/mirroring_reconciler.go:
    \<open>mirror_prepare\<close> merges the remote object into a copy of the local one and decides whether it
    changed, \<open>mirror_write\<close> creates, deletes or updates, \<open>Reconcile\<close> is the whole handler.
    \<open>SimpleMirrors\<close> has the mergers of config maps, secrets and namespaces
    (configmap_controller.go, secret_controller.go, namespace_controller.go); \<open>KService\<close> has the
    service controller: its merger, the configuration of the proxy (\<open>buildConfiguration\<close>,
    \<open>next_configuration\<close>, \<open>reconcileKConfiguration\<close>) and the traffic targets
    (\<open>reconcileKService\<close>). \<open>Watches\<close> has the events that lead to a reconcile.
    \<open>Selectors\<close> has the label selectors of the caches and of the listing and the event filters
    (cache.go, predicate.go, createListOptions of runnable.go); \<open>ControllerUtils\<close> has
    pkg/controllers/utils. \<open>ApiServer\<close> states what is assumed of an API server and the contract of
    a mirror in terms of the two clusters alone, and proves that a \<open>Reconcile\<close> implements it.
  \<^item> A mirror at work: \<open>WorkQueue\<close> is the queue between the events and a reconciler (client-go) and
    what becomes of the answer of a reconciler (controller-runtime). \<open>MirrorSystem\<close> puts
    \<open>Reconcile\<close>, the watches, two caches, the watch stream, the queue and one worker together as a
    step relation (\<open>controller_step\<close>, for the watches that the controller has set up), against a cloud
    and other clients that change objects at any time (\<open>environment_step\<close>). \<open>MirrorInvariant\<close> has
    the invariant of the reachable states, \<open>MirrorDrain\<close> shows that such a system can always handle
    all that has happened, and instantiates both for config maps, secrets and namespaces.
    \<open>ServiceMirror\<close> does so for services, whose two preprocessors write configurations and read a
    traffic store that changes at any time (\<open>service_step\<close>).
  \<^item> The traffic store (pkg/workoffload/store) is \<open>TrafficStore\<close>: a map from service names to
    stamped percentages. It is written by the offload loop and read by the service controller;
    its operations hold a lock, so runs are sequences of events.
  \<^item> The offload loop (pkg/workoffload/runnable.go): \<open>ListServices\<close> is the listing, a producer, a
    consumer and a caller that talk over channels, as a step relation; \<open>Offload\<close> is \<open>run\<close>, which
    executes the strategy, recovers missing traffic from annotations and blends the desired
    traffic into the stored one; \<open>OffloadLoop\<close> is \<open>Start\<close>, the loop over both next to the cleaning
    loop of the store.
  \<^item> The strategy (pkg/workoffload/prometheus): \<open>PromClient\<close> builds queries, decodes answers and
    retries (client/, queries.go); \<open>Usage\<close> aggregates nodes, pods, clusters and services (usage/);
    \<open>PromStrategy\<close> collects the usage (\<open>Execute\<close>) and turns it into desired traffic
    (\<open>GetResults\<close>); \<open>UsageTypes\<close> has the types of what is collected and its JSON form. A
    \<open>strategy\<close> record stands for the interface of pkg/workoffload/strategy.
  \<^item> The operator (pkg/controllers/operator) is \<open>Operator\<close>: it connects to the cloud
    cluster, copies the kubeconfig secret and keeps the deployment of the edge controller.
    \<open>OperatorConverge\<close> puts it against an API server; \<open>OperatorCommand\<close> is cmd/operator and the
    watches. The deployment runs \<open>ControllerCommand\<close> with the arguments that \<open>buildDeployment\<close> made.
  \<^item> The proxy (cmd/proxy) is \<open>ProxyServer\<close>: the pod that the configurations run and that relays
    requests to the cloud. \<open>OffloadPath\<close> follows one request through the merger, the configuration
    of the proxy, the environment of its container and the proxy.
  \<^item> The API packages (pkg/apis): \<open>ApiTypes\<close> has the structs of KnativeEdge, EdgeCluster and
    OperatorConfig as they are declared, pointers and slices as addresses of a heap, and every
    function of zz_generated.deepcopy.go; \<open>DeepCopy\<close> has the heap and the laws of a deep copy.
    \<open>ApiScheme\<close> has the groups, the registration of the types and the schemes that the init
    functions of both commands build.
  \<^item> \<open>Prelude\<close> (maps that may be nil, strings, outcomes, reconcile results), \<open>GoStrconv\<close> (printing and
    parsing of int64), \<open>GoFloat\<close> and \<open>GoParseFloat\<close> (float32 arithmetic and its parser), \<open>GoFlag\<close>
    (package flag), \<open>Managers\<close> (options of a controller-runtime manager) and
    \<open>KubeModel\<close> (the fields of the API objects that the code reads or writes) model what the
    program uses of its language and libraries.

  \<^bold>\<open>How the code is rendered.\<close> A Go integer is a \<open>64 word\<close>; a float32 is an exact rational, a
  signed zero, an infinity or NaN, rounded to nearest even by \<open>round32\<close> after every operation
  (no fused multiply-add, as on amd64). A map that may be nil is an \<open>fmap option\<close>, a slice an
  \<open>option\<close> of a list where nil matters. A call that may panic has the type \<open>'a go\<close>
  (\<open>Done\<close> or \<open>Panicked\<close>), a main that may exit \<open>'a process\<close>; an error that is returned is a value
  (\<open>api_error\<close>, \<open>go_error\<close>, \<open>query_error\<close>). Handlers take the state of the outside world \<open>'w\<close> and
  give it back. The types \<open>service\<close>, \<open>configuration\<close> and the like keep the fields that the program
  reads or writes.

  \<^bold>\<open>Parameters.\<close> The API servers and their clients (\<open>kclient\<close>), the Prometheus server
  (\<open>transport\<close>), the metrics server (\<open>sources\<close>), clocks, the kubeconfig parser and loader, the
  manager of a main (\<open>accept\<close>), the loader of the configuration file, the flags of libraries, URL
  and duration parsing, \<open>SetControllerReference\<close> and the conversion \<open>cv\<close> of a float that is out
  of range to an int64 (Go leaves it to the platform) are arguments of the definitions that use
  them. The iteration of Go over a map is in no order; the loops over maps here only fold
  commutative updates or touch each entry once.

  \<^bold>\<open>Interfaces.\<close> \<open>rounding\<close> (GoFloat) is what the strategy needs of float32 rounding;
  \<open>traffic_store\<close> and \<open>store_loop\<close> (TrafficStore) are the contract between the store and the loops
  over it, interpreted on the store and on the two loops of \<open>Offload\<close>; \<open>mirror_kind\<close>,
  \<open>replacing_kind\<close>, \<open>keeping_kind\<close> (Mirroring) and \<open>mirrored_kind\<close> (ApiServer) are what a merger
  promises the reconciler, interpreted on config maps, secrets, namespaces and services;
  \<open>mirror_system\<close> (MirrorInvariant) extends the last one with what the server promises, which
  watches the controller has and what the preprocessors leave alone, \<open>steady_system\<close> (MirrorDrain)
  with preprocessors that do not fail; the first is interpreted on a mirror of services whose
  configuration server is down, both on all four mirrors; \<open>deep_copier\<close> (DeepCopy) is what a copy
  promises its caller, interpreted on the structs of both API packages;
  \<open>collected_usage\<close> and \<open>executed_usage\<close> (PromStrategy) are what an invariant of the usage has to
  survive, interpreted on the pods, the totals and the types of a usage.

  \<^bold>\<open>What the lemmas show.\<close> C1 to C13: the parts together: from a latency to traffic targets; the
  operator against an API server; mirrors whose caches lag, which lose no change and come to rest
  or in sync; the contract of one reconcile; the percentages in the store over any history;
  services that settle; the way of a request to the cloud; what a new leader makes of the traffic;
  from a KnativeEdge to the flags of the controller; a loop that does not die; the events of a
  service. C14 to C16: the evaluation, the monotonicity of the desired traffic, the retention of
  the store. C17 to C19: that a listing ends, what it returns, and when it hangs. C20 to C25: types
  and invariants of the collected usage, the results of the strategy, latencies, decoding and
  retrying. C26 to C29: recovery, saturation, mirrors that always write, selectors. C30 to C32: the
  work queue, deep copies, schemes. C33 to C36: the starts of the two commands and the watches of
  the operator. C37 to C39: the operator. C40: the proxy. Several properties state defects exactly as the code has
  them; their texts say so.

  \<^bold>\<open>Recursion and bounds.\<close> Every function is total: loops recurse over their lists, the retry loop
  over the attempts left, the printer over the number, the offload loop over the history it is
  given. There is no fuel; the listing, which may block, is a relation, and C17 and C19 say when
  it ends; a mirror at work is a relation too, and C3 and C5 give from every reachable state a run
  of its own steps that ends with everything handled. The theorem \<open>cluster_pressure\<close> holds up to 4194304 nodes, a range
  within which float32 holds the counts exactly.

  \<^bold>\<open>Assumptions of a mirror at work.\<close> The server keeps its contract (\<open>serves\<close>, \<open>refuses\<close>, \<open>renews\<close>
  of ApiServer: a stale update conflicts, a write makes a new version). Other clients of the
  local cluster may delete a copy or change it, but keep its name, the label of managed objects
  and the two marks; there are no local objects with the name of a mirrored one that are not
  managed. The cache sees every change of the server in order; \<open>collapsed_change_dropped\<close> shows
  what a listing that skips a version can do. A controller has one worker, which is the default,
  and a delay is any positive time. An item that is delayed twice is kept twice; the library
  keeps the earlier time. For the mirror of services the server of configurations is apart from
  the services (\<open>isolated\<close>); it may fail at any time in C4 and keeps its contract in C5.

  \<^bold>\<open>Not modelled.\<close> The lease behind the leader election, the times of the rate limiters, the re-listing of informers,
  conversions and defaults of a scheme, the copies of library structs, logging and its levels,
  the text level of JSON (answers are trees), HTTP itself, and concurrency inside a handler, of
  which the program has none outside listServices. What the preprocessors make, the configuration of the proxy
  and the traffic targets, is shown for each reconcile (C1, C8, C9), the copies of the services for
  the interleaved system. The event recorders and the fields of library types that no code of the
  repository reads are left out.
\<close>

section \<open>Sample objects\<close>

text \<open>Concrete objects on which the properties are applied.\<close>

definition sample_service :: "string \<Rightarrow> (string \<times> string) list \<Rightarrow> service" where
  "sample_service name annotations =
     service_zero\<lparr>svc_meta := meta_zero\<lparr>om_name := name, om_namespace := ''shop'',
       om_annotations := Some (fmap_of_list annotations)\<rparr>\<rparr>"

text \<open>A strategy that always wants the same traffic for the same service.\<close>

definition fixed_strategy :: "service \<Rightarrow> traffic_action \<Rightarrow> int64 \<Rightarrow> (unit, unit) strategy" where
  "fixed_strategy s a d =
     \<lparr>sg_execute = (\<lambda>st w. Done (None, st, w)),
      sg_results = (\<lambda>services st. Done ([\<lparr>or_name = service_nsname s, or_service = s, or_action = a, or_desired = d\<rparr>], st))\<rparr>"

definition sample_offload :: "unit offload" where
  "sample_offload = \<lparr>of_strategy = (), of_store = store_Start store_new\<rparr>"

lemma store_Get_new: "store_Get k (store_Start store_new) = (0, False)"
  by (simp add: store_Get_def) (simp add: store_lookup_def store_new_def)

section \<open>The offload loop\<close>

text \<open>
  The store only ever holds percentages: whatever the strategy asks for, whatever the
  inertia annotation says and however an out-of-range conversion comes out, a run that starts
  with stored values between 0 and 100 ends with such values, as long as no service carries a
  traffic annotation that overflows an int64.
\<close>

theorem run_stores_percentages:
  assumes "run cv clk sg services t w = Done (e, t', w')"
    and "list_all annotation_in_range services"
    and "percent_pair (store_Get k (of_store t))"
  shows "percent_pair (store_Get k (of_store t'))"
  using assms by (rule run_percent)

theorem run_stores_percentages_witness:
  "\<exists>t'. run (\<lambda>x. 0) (\<lambda>n. 0) (fixed_strategy (sample_service ''web'' []) SetTraffic 100)
      [sample_service ''web'' []] sample_offload () = Done (None, t', ()) \<and>
    percent_pair (store_Get ''shop/web'' (of_store t'))"
proof -
  let ?sg = "fixed_strategy (sample_service ''web'' []) SetTraffic 100"
  let ?ss = "[sample_service ''web'' []]"
  have "\<exists>st'. run (\<lambda>x. 0) (\<lambda>n. 0) ?sg ?ss sample_offload () = Done (None, \<lparr>of_strategy = (), of_store = st'\<rparr>, ()) \<and> started st'"
    by (rule run_started [where rs = "[\<lparr>or_name = service_nsname (sample_service ''web'' []),
        or_service = sample_service ''web'' [], or_action = SetTraffic, or_desired = 100\<rparr>]"])
      (simp_all add: sample_offload_def fixed_strategy_def)
  then obtain t' where t': "run (\<lambda>x. 0) (\<lambda>n. 0) ?sg ?ss sample_offload () = Done (None, t', ())"
    by blast
  have "list_all annotation_in_range ?ss"
    by (simp add: annotation_in_range_def sample_service_def)
  moreover have "percent_pair (store_Get ''shop/web'' (of_store sample_offload))"
    by (simp add: sample_offload_def store_Get_new percent_pair_def)
  ultimately have "percent_pair (store_Get ''shop/web'' (of_store t'))"
    by (rule run_stores_percentages [OF t'])
  with t' show ?thesis by blast
qed

text \<open>
  C7. The offload loop keeps percentages: over any history of evaluations, cleanings of the store
  and shutdowns, whatever a strategy asks for, whatever the annotations of inertia say and however
  an out-of-range conversion comes out, the store ends with values between 0 and 100 if it began
  with such values, as long as no service carries a traffic annotation that overflows an int64.
\<close>

theorem loop_keeps_percentages:
  assumes "offload_loop cv clk sg n running es t w = Done (t', w')"
    and "list_all (\<lambda>e. list_all annotation_in_range (event_services e)) es"
    and "percent_pair (store_Get k (of_store t))"
  shows "percent_pair (store_Get k (of_store t'))"
  using assms by (rule loop_percent)

lemma fixed_strategy_calm: "calm (fixed_strategy s a d)"
  by (simp add: calm_def fixed_strategy_def)

theorem loop_keeps_percentages_witness:
  "\<exists>t'. offload_loop (\<lambda>x. 0) (\<lambda>n i. 0) (fixed_strategy (sample_service ''web'' []) SetTraffic 100) 0 True
      [Tick [sample_service ''web'' []] None, Sweep 5, Tick [] (Some ''timeout''), Stop] sample_offload () = Done (t', ()) \<and>
    percent_pair (store_Get ''shop/web'' (of_store t'))"
proof -
  let ?es = "[Tick [sample_service ''web'' []] None, Sweep 5, Tick [] (Some ''timeout''), Stop]"
  have "started (of_store sample_offload)" by (simp add: sample_offload_def)
  then obtain t' w' where run: "offload_loop (\<lambda>x. 0) (\<lambda>n i. 0) (fixed_strategy (sample_service ''web'' []) SetTraffic 100) 0 True
      ?es sample_offload () = Done (t', w')"
    using loop_started [OF fixed_strategy_calm] by blast
  have "list_all (\<lambda>e. list_all annotation_in_range (event_services e)) ?es"
    by (simp add: annotation_in_range_def sample_service_def)
  moreover have "percent_pair (store_Get ''shop/web'' (of_store sample_offload))"
    by (simp add: sample_offload_def store_Get_new percent_pair_def)
  ultimately have "percent_pair (store_Get ''shop/web'' (of_store t'))"
    by (rule loop_keeps_percentages [OF run])
  with run show ?thesis by (cases w') auto
qed

text \<open>
  C14. With the default inertia the float32 arithmetic of an evaluation is exact: the new
  traffic is three quarters of the stored one plus a quarter of the desired one, rounded down.
\<close>

theorem default_evaluation:
  assumes "0 \<le> sint t" "sint t \<le> 100" "0 \<le> sint (or_desired r)" "sint (or_desired r) \<le> 100"
    and "or_action r = SetTraffic"
    and "mget (om_annotations (svc_meta (or_service r))) TrafficInertiaAnnotation = []"
  shows "next_traffic cv r (t, True) = Some (word_of_int ((3 * sint t + sint (or_desired r)) div 4))"
proof -
  have "blend cv TrafficInertiaDefaultValue t (or_desired r) = word_of_int ((3 * sint t + sint (or_desired r)) div 4)"
    using assms by (intro blend_default)
  moreover from this have "clamp (blend cv TrafficInertiaDefaultValue t (or_desired r)) = blend cv TrafficInertiaDefaultValue t (or_desired r)"
    using mix_bounds [OF assms(1-4)] by (intro clamp_id) simp_all
  ultimately show ?thesis using assms(5,6) by (simp add: inertia_of_def)
qed

theorem default_evaluation_witness:
  "next_traffic (\<lambda>x. 0) \<lparr>or_name = \<lparr>ns_namespace = ''shop'', ns_name = ''web''\<rparr>, or_service = service_zero,
     or_action = SetTraffic, or_desired = 100\<rparr> (40, True) = Some 55"
  using default_evaluation [of 40 "\<lparr>or_name = \<lparr>ns_namespace = ''shop'', ns_name = ''web''\<rparr>,
     or_service = service_zero, or_action = SetTraffic, or_desired = 100\<rparr>" "\<lambda>x. 0"]
  by (simp add: service_zero_def meta_zero_def)

lemma iterate_97: "0 \<le> (x :: int) \<Longrightarrow> x \<le> 97 \<Longrightarrow> ((\<lambda>x. (3 * x + 100) div 4) ^^ n) x \<le> 97 \<and> 0 \<le> ((\<lambda>x. (3 * x + 100) div 4) ^^ n) x"
  by (induction n) auto

text \<open>
  C27. Rounding down keeps the proxy from ever getting all the traffic: under the default
  inertia a stored traffic of at most 97 stays at most 97 however often the strategy asks for
  100, and from 0 it reaches 97 after 14 evaluations.
\<close>

theorem default_evaluation_saturates:
  assumes "0 \<le> sint t" "sint t \<le> 97"
  shows "sint ((evaluate_default cv 100 ^^ n) t) \<le> 97 \<and> sint ((evaluate_default cv 100 ^^ 14) 0) = 97"
proof -
  have "sint ((evaluate_default cv 100 ^^ 14) 0) = ((\<lambda>x. (3 * x + 100) div 4) ^^ 14) 0"
    using evaluate_default_iterate [of 0 100 14 cv] by simp
  also have "\<dots> = 97" by (simp add: eval_nat_numeral)
  finally show ?thesis
    using evaluate_default_iterate [of t 100 n cv] iterate_97 [of "sint t" n] assms by simp
qed

theorem default_evaluation_saturates_witness:
  "sint ((evaluate_default (\<lambda>x. 0) 100 ^^ 1000) 50) \<le> 97"
  using default_evaluation_saturates [of 50 1000 "\<lambda>x. 0"] by simp

section \<open>The strategy\<close>

text \<open>
  For a service with sane limits and latencies that are not negative, the traffic the
  strategy asks for is a percentage, whatever float32 rounding does on the way and however the
  platform converts out-of-range values: none arises.
\<close>

theorem desired_traffic_percentage:
  assumes "sane_limits v" "ku_latencies u = Some ls" "list_all (\<lambda>l. fnonneg l \<and> f32_ok l) ls"
  shows "0 \<le> sint (desired_traffic cv (kservice_finalize (UpdateWithKService v u))) \<and>
    sint (desired_traffic cv (kservice_finalize (UpdateWithKService v u))) \<le> 100"
  by (rule desired_traffic_bounds [OF sane_limits_ok [OF assms]])

lemma sane_limits_plain: "sane_limits (sample_service n [])"
  by (simp add: sane_limits_def sample_service_def UpdateWithKService_def annotation_float_def kservice_new_def
      LatencyRatioDecayDefault_def LatencyRatioSoftLimitDefault_def LatencyRatioHardLimitDefault_def Let_def)

theorem desired_traffic_percentage_witness:
  "sint (desired_traffic (\<lambda>x. 0) (kservice_finalize (UpdateWithKService (sample_service ''web'' [])
     ((kservice_new ''web'' ''shop'')\<lparr>ku_latencies := Some [F_Fin 3, F_Fin 2]\<rparr>)))) \<le> 100"
  using desired_traffic_percentage [of "sample_service ''web'' []"
      "(kservice_new ''web'' ''shop'')\<lparr>ku_latencies := Some [F_Fin 3, F_Fin 2]\<rparr>" "[F_Fin 3, F_Fin 2]" "\<lambda>x. 0"]
    repr_int [of 3] repr_int [of 2]
  by (simp add: sane_limits_plain f32_ok_def)



text \<open>
  What the strategy answers for services with different names: a result per service, in
  order; a service without usage keeps its traffic, the others get the traffic of their
  refreshed usage, which is also what the strategy keeps.
\<close>

theorem results_per_service:
  assumes "ps_cluster s = Some c" "distinct (map (\<lambda>v. nsname_str (service_nsname v)) ss)" "ss \<noteq> []"
  shows "GetResults cv ss s =
    Done (map (result_for cv (last ss) c) ss, s\<lparr>ps_cluster := Some (fold refresh_entry ss c)\<rparr>)"
  using assms by (rule GetResults_distinct)

theorem results_per_service_witness:
  "GetResults (\<lambda>x. 0) [sample_service ''web'' []] \<lparr>ps_cluster = Some NewClusterUsage\<rparr> =
    Done ([\<lparr>or_name = \<lparr>ns_namespace = ''shop'', ns_name = ''web''\<rparr>, or_service = sample_service ''web'' [],
            or_action = PreserveTraffic, or_desired = - 1\<rparr>],
          \<lparr>ps_cluster = Some NewClusterUsage\<rparr>)"
  using results_per_service [of "\<lparr>ps_cluster = Some NewClusterUsage\<rparr>" NewClusterUsage "[sample_service ''web'' []]" "\<lambda>x. 0"]
  by (simp add: result_for_def refresh_entry_def upd_at_def NewClusterUsage_def service_nsname_def meta_nsname_def
      sample_service_def)

text \<open>
  C22. Every result points to the last service of the list, not to its own: the inertia that an
  evaluation uses for a service is the one annotated on the last service.
\<close>

theorem results_share_last_service:
  assumes "GetResults cv ss s = Done (rs, s')" "r \<in> set rs" "or_action r = SetTraffic"
  shows "next_traffic cv r (t, True) = Some (clamp (blend cv (inertia_of (last ss)) t (or_desired r)))"
proof -
  have "ss \<noteq> []" using assms(1,2) by (auto simp: GetResults_def)
  then have "or_service r = last ss"
    using assms(1,2) results_loop_service by (auto simp: GetResults_def)
  then show ?thesis using assms(3) by simp
qed

lemma inertia_sample:
  "inertia_of (sample_service n [(TrafficInertiaAnnotation, ''0'')]) = F_Fin 0"
proof -
  have "parse_float32 ''0'' = Some (F_Fin 0)" by code_simp
  then show ?thesis by (simp add: inertia_of_def sample_service_def Let_def mget_def)
qed

definition usage_of_web :: cluster_usage where
  "usage_of_web = NewClusterUsage\<lparr>cu_services := fmupd ''shop/web''
     ((kservice_new ''web'' ''shop'')\<lparr>ku_latencies := None\<rparr>) fmempty\<rparr>"

theorem results_share_last_service_witness:
  "\<exists>rs s' r. GetResults (\<lambda>x. 0) [sample_service ''web'' [], sample_service ''zoo'' [(TrafficInertiaAnnotation, ''0'')]]
      \<lparr>ps_cluster = Some usage_of_web\<rparr> = Done (rs, s') \<and> r \<in> set rs \<and> or_name r = \<lparr>ns_namespace = ''shop'', ns_name = ''web''\<rparr> \<and>
    next_traffic (\<lambda>x. 0) r (40, True) = Some (clamp (blend (\<lambda>x. 0) (F_Fin 0) 40 (or_desired r)))"
proof -
  let ?ss = "[sample_service ''web'' [], sample_service ''zoo'' [(TrafficInertiaAnnotation, ''0'')]]"
  let ?s = "\<lparr>ps_cluster = Some usage_of_web\<rparr>"
  let ?r = "result_for (\<lambda>x. 0) (last ?ss) usage_of_web (sample_service ''web'' [])"
  have g: "GetResults (\<lambda>x. 0) ?ss ?s = Done (map (result_for (\<lambda>x. 0) (last ?ss) usage_of_web) ?ss,
      ?s\<lparr>ps_cluster := Some (fold refresh_entry ?ss usage_of_web)\<rparr>)"
    by (rule GetResults_distinct) (simp_all add: service_nsname_def meta_nsname_def sample_service_def nsname_str_def)
  have "or_action ?r = SetTraffic" "or_name ?r = \<lparr>ns_namespace = ''shop'', ns_name = ''web''\<rparr>"
    by (simp_all add: result_for_def usage_of_web_def service_nsname_def meta_nsname_def sample_service_def nsname_str_def)
  moreover have "?r \<in> set (map (result_for (\<lambda>x. 0) (last ?ss) usage_of_web) ?ss)" by simp
  moreover note results_share_last_service [OF g this(1)] inertia_sample [of "''zoo''"]
  ultimately show ?thesis
    using results_share_last_service [OF g, of ?r 40] g by (metis last.simps list.distinct(1))
qed

text \<open>
  C21. An execution of the strategy is all or nothing: an error leaves the previous usage in
  place; after a success every service lists pods that are in the usage, each once, and the
  capacities of all services are zero, because they are copied from totals that are computed
  only afterwards.
\<close>

theorem execute_outcome:
  "(Execute src s w = Done (Some e, s', w') \<longrightarrow> s' = s) \<and>
   (Execute src s w = Done (None, s'', w'') \<longrightarrow>
      (\<exists>c. ps_cluster s'' = Some c \<and> pods_inv c \<and>
        (\<forall>k u. fmlookup (cu_services c) k = Some u \<longrightarrow>
           um_capacity (ku_cpu u) = 0 \<and> um_capacity (ku_memory u) = 0)))"
  using Execute_error_keeps [of src s w e s' w'] pods.Execute_keeps [of src s w s'' w'']
    Execute_service_capacity [of src s w s'' w'']
  by blast

text \<open>A cluster with one namespace and a Prometheus server that knows one service.\<close>

definition sample_sources :: "unit sources" where
  "sample_sources = \<lparr>sr_nodes = (\<lambda>w. (Inr [], w)), sr_node_metrics = (\<lambda>w. (Inr [], w)),
     sr_namespaces = (\<lambda>w. (Inr [''shop''], w)), sr_pod_metrics = (\<lambda>n w. (Inr [], w)),
     sr_pod = (\<lambda>n w. (Inl NotFound, w)),
     sr_send = (\<lambda>q w. (Inr \<lparr>hr_status = 200, hr_body = Some (answer_json
        [([(''service_name'', ''web''), (''namespace_name'', ''shop'')],
          [\<lparr>mv_timestamp = ''1'', mv_value = ''2.5''\<rparr>])])\<rparr>, w)),
     sr_clock = (\<lambda>n. 1000)\<rparr>"

lemma sample_source_simps:
  "sr_nodes sample_sources w = (Inr [], w)" "sr_node_metrics sample_sources w = (Inr [], w)"
  "sr_namespaces sample_sources w = (Inr [''shop''], w)" "sr_pod_metrics sample_sources n w = (Inr [], w)"
  by (simp_all add: sample_sources_def)

lemma sample_query_once:
  "Query (sr_send sample_sources) now q () =
     Done (Inr (map series_data [([(''service_name'', ''web''), (''namespace_name'', ''shop'')],
          [\<lparr>mv_timestamp = ''1'', mv_value = ''2.5''\<rparr>])]), ())"
  by (simp add: Query_def sample_sources_def read_response_def UnmarshalJSON_answer)

lemma sample_query:
  "QueryWithRetry (sr_send sample_sources) (sr_clock sample_sources) q () =
     Done (Inr (map series_data [([(''service_name'', ''web''), (''namespace_name'', ''shop'')],
          [\<lparr>mv_timestamp = ''1'', mv_value = ''2.5''\<rparr>])]), ())"
  using sample_query_once by (intro QueryWithRetry_answers [of _ _ _ 0]) (simp_all add: attempts_of_pos)

theorem execute_outcome_witness:
  "\<exists>s' c. Execute sample_sources \<lparr>ps_cluster = None\<rparr> () = Done (None, s', ()) \<and> ps_cluster s' = Some c \<and>
    pods_inv c \<and> (\<forall>k u. fmlookup (cu_services c) k = Some u \<longrightarrow> um_capacity (ku_cpu u) = 0)"
proof -
  obtain s' where s': "Execute sample_sources \<lparr>ps_cluster = None\<rparr> () = Done (None, s', ())"
    by (simp add: Execute_def updateNodesUsage_def updatePodsUsage_def updatePodsUsageInNamespace_def
        updateKServiceUsage_def sample_query sample_source_simps)
  then show ?thesis
    using execute_outcome [of sample_sources "\<lparr>ps_cluster = None\<rparr>" "()" "[]" s' "()" s' "()"] by blast
qed





text \<open>
  The series of a service holds only finite float32 values, at most one per data point, and
  from its first value on exactly one per data point, so that positions still mean times.
\<close>

theorem series_finite:
  "list_all (\<lambda>l. ffinite l \<and> f32_ok l) (ratio_loop data None) \<and>
   length (ratio_loop data None) \<le> length data \<and>
   (parse_float32 d = Some v \<and> ffinite v \<longrightarrow> length (ratio_loop (d # data) None) = Suc (length data))"
  using ratio_loop_finite [of None data] ratio_loop_ok [of None data] ratio_loop_length [of data None]
    ratio_loop_length_Some [of data v]
  by (auto simp: list_all_iff ffinite_def)

theorem series_finite_witness:
  "length (ratio_loop [''0.75'', ''NaN'', ''oops'', ''2''] None) = 4"
proof -
  have "parse_float32 ''0.75'' = Some (F_Fin (3 / 4))" by (rule parse_float32_examples)
  then show ?thesis
    using series_finite [of "[''NaN'', ''oops'', ''2'']" "''0.75''" "F_Fin (3 / 4)"] by simp
qed

text \<open>
  The pressure of a cluster: none without nodes; more nodes under pressure never lower it;
  67 percent of the nodes are enough and 65 percent are not, whatever the float32 rounding of
  the shares, for up to 4194304 nodes.
\<close>

theorem cluster_pressure:
  assumes "a \<le> b" "b \<le> len" "0 < len" "len \<le> 4194304"
  shows "share_pressure 0 0 = LowPressure \<and> share_pressure a len \<le> share_pressure b len \<and>
    (67 * len \<le> 100 * b \<longrightarrow> share_pressure b len = HighPressure) \<and>
    (100 * b \<le> 65 * len \<longrightarrow> share_pressure b len = LowPressure)"
  using assms share_pressure_empty share_pressure_mono [of a b len] share_pressure_high [of b len]
    share_pressure_low [of b len] by auto

theorem cluster_pressure_witness:
  "share_pressure 3 4 = HighPressure \<and> share_pressure 2 4 \<le> share_pressure 3 4"
  using cluster_pressure [of 2 3 4] by (simp add: less_eq_pressure_def)

section \<open>The Prometheus client\<close>


text \<open>A row of values is decoded without a panic exactly when it is not too short to index.\<close>

theorem short_rows_panic:
  "(\<exists>e. convert_value row = Panicked e) \<longleftrightarrow> row = [] \<or> (\<exists>t. row = [J_Num t])"
  by (rule convert_value_panics_iff)

text \<open>
  C25. A query is repeated while the server is unavailable and attempts are left: the first
  other outcome is the result.
\<close>

theorem query_retries:
  assumes "unavailable_run send clk q 0 k w = Some w1" "k < attempts_of q"
    and "Query send (clk k) q w1 = Done (r, w2)" "r \<noteq> Inl ServiceUnavailable"
  shows "QueryWithRetry send clk q w = Done (r, w2)"
  using assms by (rule QueryWithRetry_answers)

text \<open>A server that is unavailable once; the state counts the requests.\<close>

definition busy_once :: "nat transport" where
  "busy_once q n = (Inr \<lparr>hr_status = (if n = 0 then 503 else 200), hr_body = Some (answer_json [])\<rparr>, Suc n)"

theorem query_retries_witness:
  "QueryWithRetry busy_once (\<lambda>n. int n) \<lparr>pq_query = ''up'', pq_step = ''1m'', pq_lookback = 60, pq_attempts = Some 3\<rparr> 0
    = Done (Inr [], 2)"
  by (rule query_retries [of _ _ _ 1 _ 1])
    (simp_all add: Query_def busy_once_def read_response_def attempts_of_def UnmarshalJSON_answer)

section \<open>The traffic store\<close>

text \<open>
  C16. Retention: in a started store every sequence of operations succeeds, and a value stays
  readable until its key is written again or its time to live is over.
\<close>

theorem store_retains:
  assumes "started s" "store_lookup s k = Some item"
    and "list_all (\<lambda>e. \<not> is_set_of k e \<and> event_time e < si_timestamp item + StoreMaxItemTtl) es"
  shows "\<exists>s'. store_run s es = Done s' \<and> store_Get k s' = (si_value item, True)"
proof -
  obtain s' where s': "store_run s es = Done s'" using store_run_started [OF assms(1)] by blast
  with store_run_keeps [OF s' assms(2,3)] show ?thesis by (auto simp: store_Get_def)
qed

theorem store_retains_witness:
  "\<exists>s'. store_run \<lparr>st_data = Some (fmupd ''shop/web'' \<lparr>si_timestamp = 0, si_key = ''shop/web'', si_value = 40\<rparr> fmempty)\<rparr>
     [SetEvent 5 ''shop/zoo'' 7, CleanUpEvent (30 * 60 * second)] = Done s' \<and> store_Get ''shop/web'' s' = (40, True)"
  using store_retains [of "\<lparr>st_data = Some (fmupd ''shop/web'' \<lparr>si_timestamp = 0, si_key = ''shop/web'', si_value = 40\<rparr> fmempty)\<rparr>"
      "''shop/web''" "\<lparr>si_timestamp = 0, si_key = ''shop/web'', si_value = 40\<rparr>"
      "[SetEvent 5 ''shop/zoo'' 7, CleanUpEvent (30 * 60 * second)]"]
  by (simp add: started_def store_lookup_def StoreMaxItemTtl_def)

text \<open>A cleaning removes exactly the items whose time to live is over; the other items keep value and time.\<close>

theorem cleanup_exact:
  "store_lookup (store_cleanUp now s) k =
     (case store_lookup s k of
        None \<Rightarrow> None
      | Some item \<Rightarrow> if now < si_timestamp item + StoreMaxItemTtl then Some item else None)"
  by (simp add: store_lookup_cleanUp store_expired_def split: option.split)

section \<open>Recovering the traffic after a restart\<close>

text \<open>
  C26. The annotation the service controller writes is never read back: for a traffic of any
  value, both the offload loop and the service controller recover 0 from it. Only a text out of
  the range of an int64 has an effect, and then the recovered traffic is an extreme value.
\<close>

theorem recovery_forgets:
  "(mlookup (om_annotations (svc_meta s)) EdgeProxyTrafficAnnotation = Some (sprint_int64 v) \<longrightarrow>
      recovered_traffic s = 0 \<and> previous_split s = 0) \<and>
   (om_annotations (svc_meta s) \<noteq> None \<and> \<not> annotation_in_range s \<longrightarrow>
      sint (recovered_traffic s) \<in> {int64_max, int64_min})"
proof -
  have "recovered_traffic s = 0"
    if "mlookup (om_annotations (svc_meta s)) EdgeProxyTrafficAnnotation = Some (sprint_int64 v)"
    using that by (intro recovered_traffic_in_range) (simp add: annotation_in_range_def mget_def parse_sprint_int64)
  moreover have "sint (recovered_traffic s) \<in> {int64_max, int64_min}"
    if "om_annotations (svc_meta s) \<noteq> None" "\<not> annotation_in_range s"
    using recovered_traffic_out_of_range [OF that] by simp
  ultimately show ?thesis unfolding previous_split_recovered by blast
qed

theorem recovery_forgets_witness:
  "recovered_traffic (sample_service ''web'' [(EdgeProxyTrafficAnnotation, sprint_int64 60)]) = 0 \<and>
   sint (recovered_traffic (sample_service ''web'' [(EdgeProxyTrafficAnnotation, ''99999999999999999999'')]))
     \<in> {int64_max, int64_min}"
proof -
  have "\<not> annotation_in_range (sample_service ''web'' [(EdgeProxyTrafficAnnotation, ''99999999999999999999'')])"
  proof -
    have "parse_int ''99999999999999999999'' = (int64_max, Some ErrRange)"
      by (simp add: parse_int_def parse_uint_def is_digit_def digit_val_def)
    then show ?thesis by (simp add: annotation_in_range_def sample_service_def mget_def)
  qed
  then show ?thesis
    using recovery_forgets [of "sample_service ''web'' [(EdgeProxyTrafficAnnotation, sprint_int64 60)]" 60]
      recovery_forgets [of "sample_service ''web'' [(EdgeProxyTrafficAnnotation, ''99999999999999999999'')]" 0]
    by (simp add: sample_service_def)
qed

section \<open>The service controller\<close>

text \<open>
  The traffic of an offloaded service once its proxy can be used: exactly two targets, the
  latest revision with 100 minus the split and the proxy's revision with the split, tagged with
  the generation of the configuration; the split is written to the annotation in a form that
  reads back; the service is looked at again after 60 seconds and nothing else is touched.
\<close>

theorem offload_targets:
  assumes "kServiceHasComputeOffloadLabel (Some s)"
    and "kc_get (kr_configurations r) (configuration_name s) w = Inr c"
    and "GetEdgeProxyTarget (Some s) \<noteq> None \<or> GetTargetNameFromConfiguration c \<noteq> []"
    and "v = traffic_split (kr_store r) s"
  shows "\<exists>s' a b. reconcileKService r (Some s) w = ((requeue_in (60 * second), None, Some s'), w) \<and>
    svc_traffic s' = Some [a, b] \<and>
    tt_latest_revision a = Some True \<and> tt_percent a = Some (100 - v) \<and>
    tt_tag b = EdgeProxyPreffix @ show_05d (sint (om_generation (cfg_meta c))) \<and>
    tt_revision_name b = cfg_latest_ready c \<and> tt_percent b = Some v \<and>
    parse_int (mget (om_annotations (svc_meta s')) EdgeProxyTrafficAnnotation) = (sint v, None) \<and>
    svc_template s' = svc_template s \<and> om_labels (svc_meta s') = om_labels (svc_meta s)"
  using reconcileKService_splits [OF assms(1-3)] assms(4)
  by (auto simp: set_traffic_def latest_target_latest latest_target_percent proxy_target_fields
      GetTargetTagFromConfiguration_def GetTargetNameFromConfiguration_def parse_sprint_int64)

text \<open>An offloaded service, its proxy's configuration and the API server that has it.\<close>

definition offloaded_service :: service where
  "offloaded_service = service_zero\<lparr>svc_meta := meta_zero\<lparr>om_name := ''web'', om_namespace := ''shop'',
     om_resource_version := ''7'',
     om_labels := Some (fmap_of_list [(EdgeOffloadLabel, ''true''), (EnvironmentLabel, ''prod'')])\<rparr>\<rparr>"

definition proxy_configuration :: configuration where
  "proxy_configuration = configuration_zero\<lparr>cfg_meta := meta_zero\<lparr>om_name := ''web-edge-proxy'',
     om_namespace := ''shop'', om_generation := 3\<rparr>, cfg_latest_ready := ''web-edge-proxy-00003''\<rparr>"

definition static_client :: "'o \<Rightarrow> ('o, unit) kclient" where
  "static_client x = \<lparr>kc_get = (\<lambda>n w. Inr x), kc_create = (\<lambda>y w. (Inr y, w)), kc_update = (\<lambda>y w. (Inr y, w)),
     kc_delete = (\<lambda>y w. (None, w))\<rparr>"

definition sample_reconciler :: "unit kservice_reconciler" where
  "sample_reconciler = \<lparr>kr_client = Some (static_client offloaded_service), kr_remote = Some (static_client offloaded_service),
     kr_configurations = static_client proxy_configuration, kr_remote_url = ''http://hub'', kr_proxy_image = ''proxy:1'',
     kr_http_proxy = [], kr_envs = Some [''prod''],
     kr_store = \<lparr>st_data = Some (fmupd ''shop/web'' \<lparr>si_timestamp = 0, si_key = ''shop/web'', si_value = 30\<rparr> fmempty)\<rparr>\<rparr>"

lemma offloaded_label: "kServiceHasComputeOffloadLabel (Some offloaded_service)"
  by (simp add: kServiceHasComputeOffloadLabel_def offloaded_service_def) code_simp

lemma offloaded_stored: "store_Get (service_key offloaded_service) (kr_store sample_reconciler) = (30, True)"
  by (simp add: store_Get_def store_lookup_def sample_reconciler_def service_key_def service_nsname_def meta_nsname_def
      nsname_str_def offloaded_service_def)

lemma offloaded_split: "traffic_split (kr_store sample_reconciler) offloaded_service = 30"
  using offloaded_stored by (intro traffic_split_stored) (simp_all add: offloaded_service_def service_zero_def meta_zero_def)

lemma sample_reconciler_simps:
  "kc_get (kr_configurations sample_reconciler) n w = Inr proxy_configuration"
  "kc_delete (kr_configurations sample_reconciler) c w = (None, w)"
  "cfg_latest_ready proxy_configuration = ''web-edge-proxy-00003''"
  "om_generation (cfg_meta proxy_configuration) = 3"
  by (simp_all add: sample_reconciler_def static_client_def) (simp_all add: proxy_configuration_def)

theorem offload_targets_witness:
  "\<exists>s' a b. reconcileKService sample_reconciler (Some offloaded_service) () =
      ((requeue_in (60 * second), None, Some s'), ()) \<and>
    svc_traffic s' = Some [a, b] \<and> tt_percent a = Some 70 \<and> tt_percent b = Some 30 \<and>
    tt_revision_name b = ''web-edge-proxy-00003''"
  using offload_targets [OF offloaded_label sample_reconciler_simps(1), where w = "()" and v = 30]
  by (simp add: offloaded_split GetTargetNameFromConfiguration_def sample_reconciler_simps) blast

text \<open>
  The two percentages are percentages exactly when the split is one: nothing bounds a split
  that comes from the fixed traffic annotation.
\<close>

theorem split_range:
  "(0 \<le> sint (100 - v) \<and> sint (100 - v) \<le> 100) \<longleftrightarrow>
   (0 \<le> sint (the (tt_percent (proxy_target s c v))) \<and> sint (the (tt_percent (proxy_target s c v))) \<le> 100)"
  by (simp add: proxy_target_fields sint_rest)


text \<open>The sample service, its series of one value and the evaluation of it.\<close>

lemma parse_2_5: "parse_float32 ''2.5'' = Some (F_Fin (5 / 2))"
  by code_simp

lemma sample_execution:
  "\<exists>s1 c u. Execute sample_sources \<lparr>ps_cluster = None\<rparr> () = Done (None, s1, ()) \<and> ps_cluster s1 = Some c \<and>
     fmlookup (cu_services c) (service_key offloaded_service) = Some u \<and> ku_latencies u = Some [F_Fin (5 / 2)]"
proof -
  have key: "service_key offloaded_service = usage_key ''web'' ''shop''"
    by (simp add: service_key_def service_nsname_def meta_nsname_def offloaded_service_def usage_key_def)
  show ?thesis
    unfolding key
    by (simp add: Execute_def updateNodesUsage_def updatePodsUsage_def updatePodsUsageInNamespace_def
        updateKServiceUsage_def sample_query sample_source_simps add_series_def Let_def UpdateFromPreviousState_def
        FinalizeClusterMetrics_def cluster_FinalizeKServiceMetrics_def series_data_def parse_2_5)
      (simp add: edge_simps AddKService_other FinalizePodMetrics_def FinalizeNodeMetrics_def NewClusterUsage_def
        cluster_finalize_service_def UpdateWithPercentileRatio_def parse_2_5)
qed

lemma sample_reconciler_static:
  "kc_get (kr_configurations (sample_reconciler\<lparr>kr_store := st\<rparr>)) n w = Inr proxy_configuration"
  by (simp add: sample_reconciler_def static_client_def)



text \<open>A service with 60 percent of its traffic at the proxy, and a standby that cleans twice before it is elected.\<close>

definition shifted_service :: service where
  "shifted_service = offloaded_service\<lparr>svc_meta := svc_meta offloaded_service
     \<lparr>om_annotations := mput EdgeProxyTrafficAnnotation (sprint_int64 60) None\<rparr>\<rparr>"


text \<open>
  A service that loses the offload label loses its configuration and its proxy target; the
  other targets stay, in their order.
\<close>

theorem offload_removed:
  assumes "\<not> kServiceHasComputeOffloadLabel (Some s)"
    and "kc_get (kr_configurations r) (configuration_name s) w = Inr c"
    and "kc_delete (kr_configurations r) c w = (d, w')" "d = None \<or> d = Some NotFound"
  shows "reconcileKService r (Some s) w =
    ((result_zero, None, Some (s\<lparr>svc_traffic := Some (filter (\<lambda>t. \<not> is_proxy_target t) (elems (svc_traffic s)))\<rparr>)), w') \<and>
    GetEdgeProxyTarget (Some (s\<lparr>svc_traffic := Some (filter (\<lambda>t. \<not> is_proxy_target t) (elems (svc_traffic s)))\<rparr>)) = None"
  using assms RemoveEdgeProxyTarget_no_proxy [of "Some s"]
  by (auto simp: reconcileKService_def RemoveEdgeProxyTarget_def Let_def)

theorem offload_removed_witness:
  "snd (snd (fst (reconcileKService sample_reconciler (Some (sample_service ''web'' [])) ()))) =
     Some ((sample_service ''web'' [])\<lparr>svc_traffic := Some []\<rparr>)"
proof -
  have l: "\<not> kServiceHasComputeOffloadLabel (Some (sample_service ''web'' []))"
    and t: "svc_traffic (sample_service ''web'' []) = None"
    by (simp_all add: kServiceHasComputeOffloadLabel_def sample_service_def service_zero_def meta_zero_def)
  show ?thesis
    using offload_removed [OF l sample_reconciler_simps(1,2), of "()"] t by simp
qed

text \<open>
  The configuration of a proxy settles: whatever was there before, building it again from
  what the API server hands back after the write (with its own resource version, generation and
  ready revision) asks for no further update.
\<close>

theorem configuration_settles:
  "\<not> snd (next_configuration r s (served v g ready (fst (next_configuration r s c))))"
  by (rule next_configuration_stable)


definition settled_configuration :: configuration where
  "settled_configuration = served ''9'' 3 ''web-edge-proxy-00003''
     (fst (next_configuration sample_reconciler (kservice_kindMerger ''http://hub'' offloaded_service service_zero)
        configuration_zero))"

definition settled_reconciler :: "unit kservice_reconciler" where
  "settled_reconciler = sample_reconciler\<lparr>kr_configurations := static_client settled_configuration\<rparr>"

definition written_service :: service where
  "written_service = restored svc_meta set_svc_meta ''8'' (written svc_meta set_svc_meta offloaded_service
     (placed settled_reconciler settled_configuration offloaded_service service_zero))"


text \<open>
  C13. The service controller does not wake itself and does not miss others: the update event of
  what it has written (the prepared object with the version the API server gave it) leads to no
  request, and any later update of that object that stays managed and leaves the mark alone
  leads to one.
\<close>

theorem service_events:
  assumes "mirror_prepare (kservice_mirror r) k l w = ((res, None, obj, upd), w')"
    and "y = restored svc_meta set_svc_meta v obj" "v \<noteq> om_resource_version (svc_meta l)"
    and "IsManagedObject (svc_meta z)"
      "mlookup (om_annotations (svc_meta z)) LastGenerationAnnotation = mlookup (om_annotations (svc_meta y)) LastGenerationAnnotation"
  shows "deliver (NewControllerManagedBy ps) LocalKind (UpdateEvent (Some (KService l)) (Some (KService y))) = Done [] \<and>
    deliver (NewControllerManagedBy ps) LocalKind (UpdateEvent (Some (KService y)) (Some (KService z))) = Done [service_nsname z]"
proof -
  obtain x where x: "obj = written svc_meta set_svc_meta k x" "om_resource_version (svc_meta x) = om_resource_version (svc_meta l)"
    using assms(1) by (rule kservice_writes)
  have y: "y = restored svc_meta set_svc_meta v (written svc_meta set_svc_meta k x)" using assms(2) x(1) by simp
  have "v \<noteq> om_resource_version (svc_meta x)" using assms(3) x(2) by simp
  from ks.foreign_update_seen [of KService, OF _ y this assms(4,5)] ks.own_update_silent [of KService, OF _ x(2) y]
  show ?thesis by (simp add: service_nsname_def)
qed

lemma sample_prepares:
  "\<exists>res obj upd w'. mirror_prepare (kservice_mirror sample_reconciler) (sample_service ''web'' []) service_zero () =
     ((res, None, obj, upd), w')"
proof -
  let ?m = "kservice_kindMerger (kr_remote_url sample_reconciler) (sample_service ''web'' []) service_zero"
  have m: "\<not> kServiceHasComputeOffloadLabel (Some ?m)" "om_resource_version (svc_meta ?m) = []"
    by (simp_all add: kServiceHasComputeOffloadLabel_def kservice_kindMerger_def sample_service_def service_zero_def meta_zero_def)
  have "\<exists>res x. run_preprocessors [pre_configuration sample_reconciler, pre_service sample_reconciler] result_zero ?m () =
      ((res, None, x), ())"
    using m by (simp add: pre_configuration_def reconcileKConfiguration_def pre_service_def reconcileKService_def
        sample_reconciler_simps Let_def)
  then show ?thesis using ks.prepare_obj [of "kservice_mirror sample_reconciler" "kr_remote_url sample_reconciler"] by fastforce
qed

theorem service_events_witness:
  "\<exists>y. deliver (NewControllerManagedBy []) LocalKind (UpdateEvent (Some (KService service_zero)) (Some (KService y))) = Done [] \<and>
     deliver (NewControllerManagedBy []) LocalKind (UpdateEvent (Some (KService y)) (Some (KService y))) = Done [service_nsname y]"
proof -
  obtain res obj upd w' where p: "mirror_prepare (kservice_mirror sample_reconciler) (sample_service ''web'' []) service_zero () =
      ((res, None, obj, upd), w')"
    using sample_prepares by blast
  let ?y = "restored svc_meta set_svc_meta ''8'' obj"
  obtain x where "obj = written svc_meta set_svc_meta (sample_service ''web'' []) x"
    using p by (rule kservice_writes)
  then have "IsManagedObject (svc_meta ?y)"
    using ks.written_marks(1) [of "sample_service ''web'' []" x] by (simp add: restored_def set_svc_meta_def IsManagedObject_iff)
  then show ?thesis
    using service_events [OF p refl, of "''8''" ?y "[]"] by (auto simp: service_zero_def meta_zero_def)
qed

section \<open>The mirrors\<close>

text \<open>
  A local copy is deleted when its remote object is gone, and when it is managed and the
  remote object no longer carries the label of one of the environments. A copy that is gone
  already is no error.
\<close>

theorem mirror_deletes:
  assumes "mr_client r = Some local" "mr_remote r = Some remote" "kc_get local req w = Inr l"
    and "kc_get remote req w = Inl NotFound \<or>
      (\<exists>k. kc_get remote req w = Inr k \<and> IsManagedObject (mr_meta r l) \<and> \<not> HasEdgeSyncLabel (mr_meta r k) (mr_envs r))"
    and "kc_delete local l w = (d, w')"
  shows "Reconcile r req w = ((result_zero, if d = None \<or> d = Some NotFound then None else map_option ErrApi d), w')"
proof -
  have "Reconcile r req w = mirror_write local False False True l result_zero w"
    using assms(1-4) Reconcile_remote_gone Reconcile_label_lost by metis
  then show ?thesis using assms(5) by (auto simp: mirror_write_def split: option.split)
qed

text \<open>
  C6. The config map mirror against an API server: one \<open>Reconcile\<close> succeeds and does what its
  contract asks for the request in terms of the two clusters alone (a copy of the remote object
  with its data, labels and version mark, or no object when the remote one is gone or has lost
  its environment), and it touches no other object and nothing in the cloud.
\<close>

theorem mirror_refines:
  assumes "serves cm_meta cm_data local lview" "reads cm_meta remote rview" "isolated local rview"
  shows "\<exists>w'. Reconcile (configmap_mirror (Some local) (Some remote) envs) req w = ((result_zero, None), w') \<and>
    implements cm_meta cm_data (mirror_spec cm_meta envs (rview w req) (lview w req)) (lview w' req) \<and>
    (\<forall>n. n \<noteq> req \<longrightarrow> lview w' n = lview w n) \<and> rview w' = rview w"
  using cmm.reconcile_implements [of "configmap_mirror (Some local) (Some remote) envs" local remote lview rview req w] assms
  by (simp add: configmap_zero_def meta_zero_def)

text \<open>Two clusters in memory.\<close>

type_synonym map_clusters = "configmap memory \<times> configmap memory"

definition local_maps :: "(configmap, map_clusters) kclient" where
  "local_maps = memory_client cm_meta set_cm_meta fst (\<lambda>m w. (m, snd w))"

definition cloud_maps :: "(configmap, map_clusters) kclient" where
  "cloud_maps = memory_client cm_meta set_cm_meta snd (\<lambda>m w. (fst w, m))"

definition cloud_map :: configmap where
  "cloud_map = configmap_zero\<lparr>cm_meta := meta_zero\<lparr>om_name := ''app'', om_namespace := ''shop'', om_resource_version := ''5''\<rparr>,
     cm_data := Some (fmap_of_list [(''key'', ''value'')])\<rparr>"

definition two_clusters :: map_clusters where
  "two_clusters = (\<lparr>my_objects = fmempty, my_writes = 0\<rparr>,
     \<lparr>my_objects = fmap_of_list [(\<lparr>ns_namespace = ''shop'', ns_name = ''app''\<rparr>, cloud_map)], my_writes = 1\<rparr>)"

theorem mirror_refines_witness:
  "\<exists>w' y. Reconcile (configmap_mirror (Some local_maps) (Some cloud_maps) (Some [''prod''])) \<lparr>ns_namespace = ''shop'', ns_name = ''app''\<rparr>
      two_clusters = ((result_zero, None), w') \<and>
    memory_find cm_meta (fst w') \<lparr>ns_namespace = ''shop'', ns_name = ''app''\<rparr> = Some y \<and> cm_data y = cm_data cloud_map"
proof -
  have "serves cm_meta cm_data local_maps (\<lambda>w. memory_find cm_meta (fst w))"
    unfolding local_maps_def by (rule memory_serves) (simp add: memory_fits_def set_cm_meta_def)
  moreover have "serves cm_meta cm_data cloud_maps (\<lambda>w. memory_find cm_meta (snd w))"
    unfolding cloud_maps_def by (rule memory_serves) (simp add: memory_fits_def set_cm_meta_def)
  then have "reads cm_meta cloud_maps (\<lambda>w. memory_find cm_meta (snd w))" by (simp add: serves_def)
  moreover have "isolated local_maps (\<lambda>w. memory_find cm_meta (snd w))"
    unfolding local_maps_def by (rule memory_isolated) simp
  moreover have "memory_find cm_meta (snd two_clusters) \<lparr>ns_namespace = ''shop'', ns_name = ''app''\<rparr> = Some cloud_map"
    "memory_find cm_meta (fst two_clusters) \<lparr>ns_namespace = ''shop'', ns_name = ''app''\<rparr> = None"
    by (simp_all add: memory_find_def two_clusters_def cloud_map_def meta_nsname_def)
  ultimately show ?thesis
    using mirror_refines [of local_maps "\<lambda>w. memory_find cm_meta (fst w)" cloud_maps "\<lambda>w. memory_find cm_meta (snd w)"
        "Some [''prod'']" "\<lparr>ns_namespace = ''shop'', ns_name = ''app''\<rparr>" two_clusters]
    by (auto simp: mirror_spec_def implements_def copy_of_def)
qed

text \<open>A config map that is not labelled for the environment \<open>prod\<close>, and its managed copy.\<close>

definition foreign_map :: configmap where
  "foreign_map = configmap_zero\<lparr>cm_meta := meta_zero\<lparr>om_name := ''app'', om_namespace := ''shop''\<rparr>\<rparr>"

definition managed_map :: configmap where
  "managed_map = configmap_zero\<lparr>cm_meta := UpdateLabels (meta_zero\<lparr>om_name := ''app'', om_namespace := ''shop''\<rparr>)\<rparr>"

theorem mirror_deletes_witness:
  "Reconcile (configmap_mirror (Some (static_client managed_map)) (Some (static_client foreign_map)) (Some [''prod''])) \<lparr>ns_namespace = ''shop'', ns_name = ''app''\<rparr> () =
    ((result_zero, None), ())"
proof -
  have m: "IsManagedObject (cm_meta managed_map)" by (simp add: managed_map_def edge_simps)
  have f: "\<not> HasEdgeSyncLabel (cm_meta foreign_map) (Some [''prod''])"
    by (simp add: foreign_map_def HasEdgeSyncLabel_iff meta_zero_def configmap_zero_def)
  show ?thesis
    using mirror_deletes [of "configmap_mirror (Some (static_client managed_map)) (Some (static_client foreign_map)) (Some [''prod''])"
        "static_client managed_map" "static_client foreign_map" "\<lparr>ns_namespace = ''shop'', ns_name = ''app''\<rparr>" "()" managed_map None "()"] m f
    by (simp add: static_client_def)
qed

text \<open>
  A missing config map is created with the name, namespace and data of the remote one, all
  its annotations but the two generation marks, and all its labels but the four marks of a
  managed object, which let later reconciles recognise it.
\<close>

theorem configmap_created:
  assumes "kc_get remote req w = Inr k" "kc_get local req w = Inl NotFound"
    and "obj = written cm_meta set_cm_meta k (configmap_kindMerger k configmap_zero)"
    and "kc_create local obj w = (Inr x, w')"
  shows "Reconcile (configmap_mirror (Some local) (Some remote) envs) req w = ((result_zero, None), w') \<and>
    meta_nsname (cm_meta obj) = meta_nsname (cm_meta k) \<and> cm_data obj = cm_data k \<and>
    IsManagedObject (cm_meta obj) \<and> HasEdgeSyncLabel (cm_meta obj) envs = HasEdgeSyncLabel (cm_meta k) envs \<and>
    mlookup (om_annotations (cm_meta obj)) LastRemoteGenerationAnnotation = Some (om_resource_version (cm_meta k)) \<and>
    (a \<notin> {LastGenerationAnnotation, LastRemoteGenerationAnnotation} \<longrightarrow>
      mlookup (om_annotations (cm_meta obj)) a = mlookup (om_annotations (cm_meta k)) a)"
proof -
  obtain upd where p: "mirror_prepare (configmap_mirror (Some local) (Some remote) envs) k configmap_zero w =
      ((result_zero, None, obj, upd), w)"
    using cm.prepare_plain [of "configmap_mirror (Some local) (Some remote) envs" k configmap_zero w] assms(3) by auto
  have "Reconcile (configmap_mirror (Some local) (Some remote) envs) req w = mirror_write local True upd False obj result_zero w"
    by (rule Reconcile_create [OF _ _ assms(1,2)]) (simp_all add: p)
  moreover have "om_annotations (cm_meta (configmap_kindMerger k configmap_zero)) = om_annotations (cm_meta k)"
    by (rule cm.merge_annotations)
  ultimately show ?thesis
    using assms(3,4) cm.written_marks [of k] cm.written_merge_sync [of k configmap_zero envs]
    by (simp add: mirror_write_def cm.meta_written edge_simps meta_nsname_def cm.merge_name cm.merge_namespace written_fields)
      (simp add: configmap_kindMerger_def)
qed

definition empty_client :: "('o, unit) kclient" where
  "empty_client = \<lparr>kc_get = (\<lambda>n w. Inl NotFound), kc_create = (\<lambda>y w. (Inr y, w)),
     kc_update = (\<lambda>y w. (Inl NotFound, w)), kc_delete = (\<lambda>y w. (Some NotFound, w))\<rparr>"

theorem configmap_created_witness:
  "Reconcile (configmap_mirror (Some empty_client) (Some (static_client foreign_map)) (Some [''prod''])) \<lparr>ns_namespace = ''shop'', ns_name = ''app''\<rparr> () =
    ((result_zero, None), ())"
  using configmap_created [of "static_client foreign_map" "\<lparr>ns_namespace = ''shop'', ns_name = ''app''\<rparr>" "()" foreign_map empty_client _
      "written cm_meta set_cm_meta foreign_map (configmap_kindMerger foreign_map configmap_zero)" "()" "Some [''prod'']" "[]"]
  by (simp add: static_client_def empty_client_def)


definition labelled_map :: configmap where
  "labelled_map = configmap_zero\<lparr>cm_meta := meta_zero\<lparr>om_name := ''app'', om_namespace := ''shop'',
     om_resource_version := ''5'', om_labels := Some (fmap_of_list [(EnvironmentLabel, ''prod'')])\<rparr>,
     cm_data := Some (fmap_of_list [(''key'', ''value'')])\<rparr>"

definition copied_map :: configmap where
  "copied_map = written cm_meta set_cm_meta labelled_map (configmap_kindMerger labelled_map configmap_zero)"


text \<open>
  The type of a secret and the binary data of a config map are not mirrored: a new copy has
  neither, whatever the remote object has.
\<close>

theorem mirrors_drop_fields:
  "sec_type (written sec_meta set_sec_meta k (secret_kindMerger k secret_zero)) = [] \<and>
   cm_binary_data (written cm_meta set_cm_meta k' (configmap_kindMerger k' configmap_zero)) = None \<and>
   sec_data (written sec_meta set_sec_meta k (secret_kindMerger k secret_zero)) = sec_data k"
  by (simp add: written_fields merger_frame secret_zero_def configmap_zero_def secret_kindMerger_def)

section \<open>Listing the services\<close>

text \<open>
  C18. What an undisturbed listing of n + 1 pages returns: the items of the last page, n + 1
  times, without an error. For one page these are the services.
\<close>

theorem listing_repeats_last_page:
  assumes "pages_to api envs n p" "(list_step api envs)\<^sup>*\<^sup>* listing_start s" "ls_caller s = M_Ret xs err"
  shows "xs = concat (replicate (Suc n) (sl_items (p n))) \<and> err = None \<and> (n = 0 \<longrightarrow> xs = sl_items (p 0))"
  using list_result [OF assms] by (auto simp: collected_def)

text \<open>Such a listing returns from every state it can reach, whatever the order of the steps.\<close>

theorem listing_returns:
  assumes "pages_to api envs n p" "(list_step api envs)\<^sup>*\<^sup>* listing_start s"
  shows "\<exists>s'. (list_step api envs)\<^sup>*\<^sup>* s s' \<and> ls_caller s' = M_Ret (concat (replicate (Suc n) (sl_items (p n)))) None"
  using list_returns [OF assms(1) list_inv_reachable [OF assms]] by (simp add: collected_def)

text \<open>An API server that hands out two pages.\<close>

definition two_pages :: "list_options \<Rightarrow> string + service_list" where
  "two_pages o1 = (if lo_continue o1 = []
     then Inr \<lparr>sl_resource_version = ''1'', sl_continue = ''more'', sl_items = [sample_service ''web'' []]\<rparr>
     else Inr \<lparr>sl_resource_version = ''1'', sl_continue = [], sl_items = [sample_service ''zoo'' []]\<rparr>)"

definition two_pages_seq :: "nat \<Rightarrow> service_list" where
  "two_pages_seq k = (if k = 0
     then \<lparr>sl_resource_version = ''1'', sl_continue = ''more'', sl_items = [sample_service ''web'' []]\<rparr>
     else \<lparr>sl_resource_version = ''1'', sl_continue = [], sl_items = [sample_service ''zoo'' []]\<rparr>)"

lemma options_prod:
  "createListOptions [''prod''] prev = Some \<lparr>lo_selector = [In EnvironmentLabel [''prod''], In EdgeOffloadLabel [''true'']],
     lo_resource_version = (case prev of None \<Rightarrow> [] | Some s \<Rightarrow> sl_resource_version s),
     lo_continue = (case prev of None \<Rightarrow> [] | Some s \<Rightarrow> sl_continue s)\<rparr>"
proof -
  have "valid_label_value ''prod''" "valid_label_value ''true''" by code_simp+
  then show ?thesis
    by (simp add: createListOptions_def label_selector_as_selector_def env_requirement_def split: option.split)
qed

lemma two_pages_to: "pages_to two_pages [''prod''] 1 two_pages_seq"
proof -
  have p0: "page_at two_pages [''prod''] 0 = Inr (two_pages_seq 0)"
    by (simp add: next_page_def options_prod two_pages_def two_pages_seq_def)
  then have p1: "page_at two_pages [''prod''] (Suc 0) = Inr (two_pages_seq 1)"
    by (simp add: next_page_def options_prod two_pages_def two_pages_seq_def)
  have "page_at two_pages [''prod''] k = Inr (two_pages_seq k) \<and> (sl_continue (two_pages_seq k) = [] \<longleftrightarrow> k = 1)"
    if "k \<le> 1" for k
    using that p0 p1 by (cases k) (simp_all add: two_pages_seq_def)
  then show ?thesis by (simp add: pages_to_def)
qed

theorem listing_returns_witness:
  "\<exists>s'. (list_step two_pages [''prod''])\<^sup>*\<^sup>* listing_start s' \<and>
     ls_caller s' = M_Ret [sample_service ''zoo'' [], sample_service ''zoo'' []] None"
  using listing_returns [OF two_pages_to rtranclp.rtrancl_refl] by (simp add: two_pages_seq_def)

theorem listing_repeats_last_page_witness:
  "\<exists>s xs. (list_step two_pages [''prod''])\<^sup>*\<^sup>* listing_start s \<and> ls_caller s = M_Ret xs None \<and>
     xs = [sample_service ''zoo'' [], sample_service ''zoo'' []]"
proof -
  obtain s where s: "(list_step two_pages [''prod''])\<^sup>*\<^sup>* listing_start s"
    "ls_caller s = M_Ret (collected (Suc 1) (two_pages_seq 1)) None"
    using list_returns [OF two_pages_to list_inv_start] by blast
  then show ?thesis using listing_repeats_last_page [OF two_pages_to s] by (auto simp: two_pages_seq_def)
qed

text \<open>
  C17. An undisturbed listing of n + 1 pages terminates whatever the order of the steps: no run has
  more than 2 n + 5 of them, and where no step is left the caller has returned, without an error.
\<close>

theorem listing_terminates:
  assumes "pages_to api envs n p" "(list_step api envs ^^ m) listing_start s"
  shows "m \<le> 2 * n + 5 \<and>
    ((\<forall>s'. \<not> list_step api envs s s') \<longrightarrow> ls_caller s = M_Ret (concat (replicate (Suc n) (sl_items (p n)))) None)"
proof -
  have "list_inv p n s"
    using assms by (intro list_inv_reachable [OF assms(1)]) (rule relpowp_imp_rtranclp)
  then show ?thesis
    using list_run_bounded [OF assms] list_progress [OF assms(1), of s] by (auto simp: collected_def)
qed

theorem listing_terminates_witness:
  "\<exists>m s. (list_step two_pages [''prod''] ^^ m) listing_start s \<and> m \<le> 7 \<and>
     ls_caller s = M_Ret [sample_service ''zoo'' [], sample_service ''zoo'' []] None"
proof -
  obtain s where "(list_step two_pages [''prod''])\<^sup>*\<^sup>* listing_start s" "ls_caller s = M_Ret (collected (Suc 1) (two_pages_seq 1)) None"
    using list_returns [OF two_pages_to list_inv_start] by blast
  moreover from this(1) obtain m where m: "(list_step two_pages [''prod''] ^^ m) listing_start s"
    by (auto simp: rtranclp_power)
  ultimately show ?thesis
    using listing_terminates [OF two_pages_to m] by (auto simp: two_pages_seq_def collected_def)
qed

text \<open>
  C19. A refused list request hangs the loop: the caller of a listing in which some page is
  refused never returns, and once the producer has the error nothing moves any more, until the
  program itself is shut down.
\<close>

theorem listing_error_hangs:
  assumes "fails_at api envs n p e" "(list_step api envs)\<^sup>*\<^sup>* listing_start s"
  shows "ls_caller s = M_Wait \<and> (ls_producer s = P_Err e \<longrightarrow> (\<forall>s'. \<not> list_step api envs s s'))"
proof -
  have "fail_inv p n e s" by (rule fail_inv_reachable [OF assms])
  then have "ls_caller s = M_Wait" "\<not> ls_cancelled s" "ls_producer s = P_Err e \<Longrightarrow> ls_consumer s = C_Loop n"
    by (auto simp: fail_inv_def sending_def)
  then show ?thesis using fail_stuck [of s e n] by blast
qed

theorem listing_error_hangs_witness:
  "\<forall>s'. \<not> list_step (\<lambda>o1. Inl ''timeout'') [''prod''] (listing_start\<lparr>ls_producer := P_Err ''timeout''\<rparr>) s'"
proof -
  have f: "fails_at (\<lambda>o1. Inl ''timeout'') [''prod''] 0 two_pages_seq ''timeout''"
    by (simp add: fails_at_def next_page_def options_prod)
  have "list_step (\<lambda>o1. Inl ''timeout'') [''prod''] listing_start (listing_start\<lparr>ls_producer := P_Err ''timeout''\<rparr>)"
    by (rule list_error) (simp_all add: listing_start_def next_page_def options_prod)
  then have "(list_step (\<lambda>o1. Inl ''timeout'') [''prod''])\<^sup>*\<^sup>* listing_start (listing_start\<lparr>ls_producer := P_Err ''timeout''\<rparr>)"
    by blast
  from listing_error_hangs [OF f this] show ?thesis by simp
qed

section \<open>Names, labels and annotations\<close>

text \<open>
  C29. The selector by which the remote cache and the event filter look for objects and the check
  a mirror makes agree, for every list of environments the flag can give. For the empty flag this
  list is not empty: it holds the empty string, so only an empty environment label matches.
\<close>

theorem selector_agrees:
  "selector_matches [env_requirement (main_envs flag)] (om_labels m) = HasEdgeSyncLabel m (Some (main_envs flag)) \<and>
   (flag = [] \<longrightarrow> HasEdgeSyncLabel m (Some (main_envs flag)) = (mlookup (om_labels m) EnvironmentLabel = Some []))"
  using selector_env_iff [OF main_envs_not_Nil, of flag m] main_envs_empty_flag
  by (auto simp: HasEdgeSyncLabel_iff)

theorem selector_agrees_witness:
  "\<not> HasEdgeSyncLabel (cm_meta labelled_map) (Some (main_envs [])) \<and>
   selector_matches [env_requirement (main_envs ''prod,test'')] (om_labels (cm_meta labelled_map))"
proof -
  have "main_envs ''prod,test'' = [''prod'', ''test'']" by code_simp
  then show ?thesis
    using selector_agrees [of "[]" "cm_meta labelled_map"] selector_agrees [of "''prod,test''" "cm_meta labelled_map"]
    by (simp add: labelled_map_def HasEdgeSyncLabel_iff)
qed

text \<open>
  Merging a remote service into the local one keeps every local annotation, except the ones
  the remote sets: its own under the two prefixes of the program, the remote URL, and the remote
  host when it is known. The pod template is the remote one with the mark of a local copy.
\<close>

theorem merge_keeps_annotations:
  "mlookup (om_annotations (svc_meta (kservice_kindMerger url s d))) k =
     (case merged_value url s k of Some v \<Rightarrow> Some v | None \<Rightarrow> mlookup (om_annotations (svc_meta d)) k) \<and>
   svc_template (kservice_kindMerger url s d) = mark_template (svc_template s) \<and>
   svc_traffic (kservice_kindMerger url s d) = svc_traffic d"
  by (simp add: kservice_kindMerger_def merge_annotations_lookup)

text \<open>A change of a proxy's configuration leads to a reconcile of exactly the service it belongs to.\<close>

theorem configuration_finds_service:
  assumes "meta_nsname (cfg_meta c) = GetConfigurationNamespacedName n"
  shows "findServiceFromConfiguration (Some c) = [n]"
  using service_name_of_configuration_name [OF assms] assms
  by (cases n) (simp add: findServiceFromConfiguration_def GetConfigurationNamespacedName_def meta_nsname_def)

theorem configuration_finds_service_witness:
  "findServiceFromConfiguration (Some proxy_configuration) = [\<lparr>ns_namespace = ''shop'', ns_name = ''web''\<rparr>]"
  by (rule configuration_finds_service)
    (simp add: proxy_configuration_def meta_nsname_def GetConfigurationNamespacedName_def EdgeProxySuffix_def)

text \<open>
  Two helpers cannot do their work: no name is recognised as a revision of a proxy (names
  with a dash are refused, the others panic or are too short), and the generation read from a
  target is ''0'' or empty.
\<close>

theorem broken_helpers:
  "IsEdgeProxyRevisionName name \<noteq> Done True \<and>
   ((\<exists>e. IsEdgeProxyRevisionName name = Panicked e) \<longleftrightarrow> 6 \<le> length name \<and> CHR ''-'' \<notin> set name) \<and>
   GetConfigurationGenerationFromTarget target \<in> {[], ''0''}"
proof -
  have "trim_prefix ''0'' g \<in> {[], ''0''}" for g
    by (cases g) (auto simp: trim_prefix_def has_prefix_def Let_def split: if_splits)
  then show ?thesis
    by (auto simp: IsEdgeProxyRevisionName_def GetConfigurationGenerationFromTarget_def Let_def split: option.split)
qed

section \<open>The operator\<close>


definition sample_operator :: "knative_edge \<Rightarrow> (unit, unit, unit, nat) edge_reconciler" where
  "sample_operator edge = \<lparr>er_get_edge = (\<lambda>n w. Inr edge), er_read_secret = (\<lambda>n w. Inr (secret_zero
       \<lparr>sec_meta := meta_zero\<lparr>om_generation := 2\<rparr>, sec_data := Some (fmap_of_list [(''kubeconfig'', ''yaml'')])\<rparr>)),
     er_secrets = empty_client, er_deployments = empty_client, er_update_status = (\<lambda>e w. (None, w)),
     er_get_edge_cluster = (\<lambda>c n w. Inr edge_cluster_zero), er_parse = (\<lambda>s. Inr ()), er_client_config = (\<lambda>k. (Some (), None)),
     er_new_cluster = (\<lambda>c p. Inr 7), er_set_fields = (\<lambda>c. Some ''not injected''), er_set_owner = (\<lambda>e m. m),
     er_proxy_image = ''proxy:1'', er_controller_image = ''controller:1''\<rparr>"

definition no_remotes :: "nat operator_state" where
  "no_remotes = \<lparr>os_remotes = fmempty, os_started = [], os_stopped = [], os_events = []\<rparr>"


text \<open>
  A deployment that was written and whose status was recorded is up to date: with the same
  KnativeEdge, the same EdgeCluster and the same images nothing is written again.
\<close>

theorem deployment_settles:
  assumes "keeps_annotations r" "buildDeployment r n sn edge ec d = Done d'"
    and "om_annotations (dp_meta stored) = om_annotations (dp_meta d')"
  shows "\<not> deployment_outdated r (status_recorded edge ec stored) ec stored \<and>
    updateEdgeStatus r edge ec stored w = er_update_status r (status_recorded edge ec stored) w"
  using deployment_settled [OF assms] by (simp add: updateEdgeStatus_status)

theorem deployment_settles_witness:
  "\<exists>d'. buildDeployment (sample_operator knative_edge_zero) \<lparr>ns_namespace = ''shop'', ns_name = ''app''\<rparr> \<lparr>ns_namespace = ''shop'', ns_name = ''app-kubeconfig''\<rparr> (knative_edge_zero\<lparr>ke_prometheus_url := Some ''http://prom''\<rparr>)
      edge_cluster_zero deployment_zero = Done d' \<and>
    \<not> deployment_outdated (sample_operator knative_edge_zero)
       (status_recorded (knative_edge_zero\<lparr>ke_prometheus_url := Some ''http://prom''\<rparr>) edge_cluster_zero d') edge_cluster_zero d'"
proof -
  let ?r = "sample_operator knative_edge_zero" and ?e = "knative_edge_zero\<lparr>ke_prometheus_url := Some ''http://prom''\<rparr>"
  obtain d' where d': "buildDeployment ?r \<lparr>ns_namespace = ''shop'', ns_name = ''app''\<rparr> \<lparr>ns_namespace = ''shop'', ns_name = ''app-kubeconfig''\<rparr> ?e edge_cluster_zero deployment_zero = Done d'"
    by (simp add: buildDeployment_def Let_def)
  have "keeps_annotations ?r" by (simp add: keeps_annotations_def sample_operator_def)
  from deployment_settles [OF this d' refl] d' show ?thesis by blast
qed

text \<open>A deployment cannot be built for a KnativeEdge without a Prometheus section: the operator panics.\<close>

theorem no_prometheus_panics:
  assumes "ke_prometheus_url edge = None" "ke_secret_ref edge = None" "om_deletion (ke_meta edge) = None"
    and "kc_get (er_deployments r) (getDeploymentName (om_name (ke_meta edge)) SystemNamespace) w = Inl NotFound"
  shows "\<exists>e. reconcileDeployment r edge st w = Panicked e"
  using assms by (simp add: reconcileDeployment_def write_deployment_def buildDeployment_def Let_def)

theorem no_prometheus_panics_witness:
  "\<exists>e. reconcileDeployment (sample_operator knative_edge_zero) knative_edge_zero no_remotes () = Panicked e"
  by (rule no_prometheus_panics) (simp_all add: knative_edge_zero_def meta_zero_def sample_operator_def empty_client_def)

text \<open>
  C38. When the kubeconfig secret has a new generation, the old connection is stopped, and a new
  one is either started and registered with that generation, or nothing is started.
\<close>

theorem cluster_replaced:
  assumes "ke_secret_ref edge = Some ref" "er_read_secret r ref w = Inr s"
    and "fmlookup (os_remotes st) (remote_key edge) = Some x" "rc_generation x \<noteq> om_generation (sec_meta s)"
    and "reconcileCluster r edge st w = Done (res, st')"
  shows "os_stopped st' = os_stopped st @ [rc_cluster x] \<and>
    (case res of
       None \<Rightarrow> os_started st' = os_started st
     | Some _ \<Rightarrow> \<exists>c. fmlookup (os_remotes st') (remote_key edge) =
           Some \<lparr>rc_cluster = c, rc_generation = om_generation (sec_meta s)\<rparr> \<and> os_started st' = os_started st @ [c])"
  using assms by (rule reconcileCluster_replaces)

definition edge_with_secret :: knative_edge where
  "edge_with_secret = knative_edge_zero\<lparr>ke_secret_ref := Some \<lparr>ns_namespace = ''ops'', ns_name = ''hub''\<rparr>\<rparr>"

definition old_remote :: "nat operator_state" where
  "old_remote = no_remotes\<lparr>os_remotes := fmupd (remote_key edge_with_secret) \<lparr>rc_cluster = 3, rc_generation = 1\<rparr> fmempty\<rparr>"

lemma edge_with_secret_simps:
  "ke_secret_ref edge_with_secret = Some \<lparr>ns_namespace = ''ops'', ns_name = ''hub''\<rparr>"
  "fmlookup (os_remotes old_remote) (remote_key edge_with_secret) = Some \<lparr>rc_cluster = 3, rc_generation = 1\<rparr>"
  "os_stopped old_remote = []"
  by (simp_all add: edge_with_secret_def old_remote_def no_remotes_def)

theorem cluster_replaced_witness:
  "\<exists>res st'. reconcileCluster ((sample_operator edge_with_secret)\<lparr>er_set_fields := (\<lambda>c. None)\<rparr>) edge_with_secret old_remote ()
     = Done (res, st') \<and> os_stopped st' = [3]"
proof -
  let ?r = "(sample_operator edge_with_secret)\<lparr>er_set_fields := (\<lambda>c. None)\<rparr>"
  obtain s where s: "er_read_secret ?r \<lparr>ns_namespace = ''ops'', ns_name = ''hub''\<rparr> () = Inr s" "om_generation (sec_meta s) = 2"
      "mlookup (sec_data s) ''kubeconfig'' = Some ''yaml''"
    by (simp add: sample_operator_def)
  obtain res st' where c: "reconcileCluster ?r edge_with_secret old_remote () = Done (res, st')"
    using s by (simp add: reconcileCluster_def edge_with_secret_simps Let_def) (simp add: connect_def sample_operator_def Let_def)
  have "os_stopped st' = os_stopped old_remote @ [rc_cluster \<lparr>rc_cluster = 3, rc_generation = 1\<rparr>]"
    using cluster_replaced [OF edge_with_secret_simps(1) s(1) edge_with_secret_simps(2) _ c] s(2) by simp
  then show ?thesis using c edge_with_secret_simps(3) by auto
qed

text \<open>
  C39. A connection whose dependencies cannot be injected stays registered without ever being
  started: the next reconcile with the same secret takes it for connected.
\<close>

theorem failed_cluster_stays:
  assumes "ke_secret_ref edge = Some ref" "er_read_secret r ref w = Inr s"
    and "fmlookup (os_remotes st) (remote_key edge) = None"
    and "mlookup (sec_data s) ''kubeconfig'' = Some data" "er_parse r data = Inr k"
    and "er_client_config r k = (Some cfg, None)" "er_new_cluster r cfg (ke_https_proxy edge) = Inr c"
    and "er_set_fields r c = Some e"
  shows "\<exists>st'. reconcileCluster r edge st w = Done (None, st') \<and> os_started st' = os_started st \<and>
    reconcileCluster r edge st' w = Done (Some s, st')"
proof -
  obtain st' where st': "connect r edge s st = Done (False, st')"
    "fmlookup (os_remotes st') (remote_key edge) = Some \<lparr>rc_cluster = c, rc_generation = om_generation (sec_meta s)\<rparr>"
    using connect_set_fields_fails [OF assms(4-8)] by blast
  then have "reconcileCluster r edge st w = Done (None, st')"
    using assms(1-3) by (simp add: reconcileCluster_def Let_def)
  moreover have "os_started st' = os_started st" using connect_remotes [OF st'(1)] by simp
  moreover have "reconcileCluster r edge st' w = Done (Some s, st')"
    by (rule reconcileCluster_connected [OF assms(1,2) st'(2)]) simp
  ultimately show ?thesis by blast
qed

theorem failed_cluster_stays_witness:
  "\<exists>st' s. reconcileCluster (sample_operator edge_with_secret) edge_with_secret no_remotes () = Done (None, st') \<and>
    os_started st' = [] \<and> reconcileCluster (sample_operator edge_with_secret) edge_with_secret st' () = Done (Some s, st')"
proof -
  let ?s = "secret_zero\<lparr>sec_meta := meta_zero\<lparr>om_generation := 2\<rparr>, sec_data := Some (fmap_of_list [(''kubeconfig'', ''yaml'')])\<rparr>"
  obtain st' where "reconcileCluster (sample_operator edge_with_secret) edge_with_secret no_remotes () = Done (None, st')"
    "os_started st' = os_started no_remotes" "reconcileCluster (sample_operator edge_with_secret) edge_with_secret st' () = Done (Some ?s, st')"
    using failed_cluster_stays [of edge_with_secret "\<lparr>ns_namespace = ''ops'', ns_name = ''hub''\<rparr>"
        "sample_operator edge_with_secret" "()" ?s no_remotes "''yaml''" "()" "()" 7 "''not injected''"]
    by (auto simp: sample_operator_def edge_with_secret_def no_remotes_def)
  then show ?thesis by (auto simp: no_remotes_def)
qed

section \<open>The proxy\<close>

text \<open>
  C40. Relaying: the reply has the status of the remote one, its body, and its headers except
  the two that are dropped; only the five headers of the proxy itself are new. The service time
  that is logged is always empty, since the header is dropped before.
\<close>

theorem proxy_relays:
  assumes "pc_remote_url cfg = Some u" "pc_remote_host cfg \<noteq> []" "rq_body r = Inr body"
    and "send (remote_request u (pc_remote_host cfg) r body) = (Inr res, duration)"
    and "canonical_header (up_header res)"
    and "up_content_length res = - 1 \<or> up_content_length res = int (length (up_body res))"
    and "handler url_string send cfg r = (rp, logged)"
    and "canonical j \<notin> set proxy_headers"
  shows "rp_status rp = up_status res \<and> rp_body rp = up_body res \<and> logged = Some [] \<and>
    h_values (rp_header rp) j =
      (if canonical j \<in> {''Transfer-Encoding'', ''X-Envoy-Upstream-Service-Time''} then [] else h_values (up_header res) j)"
  using handler_relays [where send = send and url_string = url_string, OF assms(1-5,7)] assms(6,8) by blast

definition echo_upstream :: "http_req \<Rightarrow> (transport_error + upstream_response) \<times> string" where
  "echo_upstream q = (Inr \<lparr>up_status = 200, up_header = fmap_of_list [(''Etag'', [''x1''])], up_body = u_path (rq_url q),
     up_content_length = - 1\<rparr>, ''1ms'')"

definition sample_request :: http_req where
  "sample_request = \<lparr>rq_method = ''GET'', rq_url = \<lparr>u_path = ''/cart'', u_raw_query = [], u_fragment = [], u_rest = []\<rparr>,
     rq_header = fmempty, rq_body = Inr [], rq_content_length = 0, rq_host = ''web.shop'', rq_remote_addr = ''10.0.0.1:1'',
     rq_proto = ''HTTP/1.1''\<rparr>"

definition sample_config :: proxy_config where
  "sample_config = \<lparr>pc_remote_url = Some \<lparr>u_path = [], u_raw_query = [], u_fragment = [], u_rest = ''http://hub''\<rparr>,
     pc_remote_host = ''web.hub'', pc_remote_proxy = None, pc_timeout = 0, pc_logged_addr = [], pc_listen_addr = []\<rparr>"

theorem proxy_relays_witness:
  "rp_status (fst (handler u_rest echo_upstream sample_config sample_request)) = 200 \<and>
   rp_body (fst (handler u_rest echo_upstream sample_config sample_request)) = ''/cart'' \<and>
   h_values (rp_header (fst (handler u_rest echo_upstream sample_config sample_request))) ''etag'' = [''x1'']"
proof -
  have k: "canonical ''etag'' = ''Etag''" "canonical ''Etag'' = ''Etag''" by code_simp+
  obtain rp logged where h: "handler u_rest echo_upstream sample_config sample_request = (rp, logged)"
    by (cases "handler u_rest echo_upstream sample_config sample_request")
  have "rp_status rp = 200 \<and> rp_body rp = ''/cart'' \<and> logged = Some [] \<and> h_values (rp_header rp) ''etag'' = [''x1'']"
    using proxy_relays [of sample_config "\<lparr>u_path = [], u_raw_query = [], u_fragment = [], u_rest = ''http://hub''\<rparr>"
        sample_request "[]" echo_upstream _ "''1ms''" u_rest rp logged "''etag''"] h k
    by (simp add: sample_config_def sample_request_def echo_upstream_def canonical_header_def proxy_headers_def
        remote_request_def h_values_def)
  then show ?thesis using h by simp
qed

text \<open>
  What the remote receives: the method, path, query and body of the request, addressed to
  the remote host, with the address of the caller appended to the forwarding headers; all other
  headers are passed on unchanged. The address the proxy listens on does not depend on its
  environment.
\<close>

theorem proxy_forwards:
  "rq_method (remote_request u host r body) = rq_method r \<and> rq_host (remote_request u host r body) = host \<and>
   u_path (rq_url (remote_request u host r body)) = u_path (rq_url r) \<and>
   u_raw_query (rq_url (remote_request u host r body)) = u_raw_query (rq_url r) \<and>
   rq_body (remote_request u host r body) = Inr body \<and>
   h_values (rq_header (remote_request u host r body)) ''X-Forwarded-For'' =
     h_values (rq_header r) ''X-Forwarded-For'' @ [rq_remote_addr r] \<and>
   (canonical j \<notin> {''Host'', ''X-Forwarded-For'', ''X-Forwarded-Host'', ''X-Forwarded-Proto''} \<longrightarrow>
     h_values (rq_header (remote_request u host r body)) j = h_values (rq_header r) j) \<and>
   pc_listen_addr (proxy_main parse_url parse_duration env) = ''0.0.0.0:8080''"
  by (simp add: remote_request_fields proxy_main_listens)

theorem proxy_forwards_witness:
  "h_values (rq_header (remote_request (rq_url sample_request) ''web.hub'' sample_request [])) ''Etag'' = []"
proof -
  have "canonical ''Etag'' = ''Etag''" by code_simp
  then show ?thesis
    using proxy_forwards [of "rq_url sample_request" "''web.hub''" sample_request "[]" "''Etag''" "\<lambda>s. None" "\<lambda>s. None" "\<lambda>s. []"]
    by (simp add: sample_request_def h_values_def)
qed

end
